theory Spec2Isabelle
  imports Main "HOL-Library.Multiset"
begin

section \<open>Library functions used by the configuration loader\<close>

text \<open>
  The loader of \<^verbatim>\<open>internal/config/config.go\<close> calls three functions of the Go standard
  library on strings: \<^verbatim>\<open>strings.Split\<close>, \<^verbatim>\<open>strings.ReplaceAll\<close> and \<^verbatim>\<open>strconv.Atoi\<close>.
  A Go string is a sequence of bytes, here a \<^typ>\<open>string\<close>.
\<close>

text \<open>
  \<^verbatim>\<open>strings.Split(s, sep)\<close> for a separator of one byte: the pieces of \<open>s\<close> between the
  occurrences of the separator, one piece more than there are occurrences (the empty string
  gives one empty piece). A byte that is not the separator goes in front of the first piece
  of the rest, which is never missing.
\<close>

fun Split :: "string \<Rightarrow> char \<Rightarrow> string list" where
  "Split [] sep = [[]]"
| "Split (x # xs) sep =
     (if x = sep then [] # Split xs sep
      else (case Split xs sep of
              [] \<Rightarrow> [[x]]
            | piece # pieces \<Rightarrow> (x # piece) # pieces))"

text \<open>\<^verbatim>\<open>strings.ReplaceAll(s, old, new)\<close> for \<open>old\<close> and \<open>new\<close> of one byte each.\<close>

definition ReplaceAll :: "string \<Rightarrow> char \<Rightarrow> char \<Rightarrow> string" where
  "ReplaceAll s old new = map (\<lambda>ch. if ch = old then new else ch) s"

text \<open>
  \<^verbatim>\<open>strconv.Atoi\<close> where \<^verbatim>\<open>int\<close> has 64 bits: an optional sign \<open>+\<close> or \<open>-\<close>, then at least
  one decimal digit and nothing else; the value must fit \<^verbatim>\<open>int\<close>. \<open>None\<close> is the error
  (a syntax error or a range error).
\<close>

definition is_digit :: "char \<Rightarrow> bool" where
  "is_digit ch = (48 \<le> (of_char ch :: nat) \<and> (of_char ch :: nat) \<le> 57)"

fun digits_value :: "int \<Rightarrow> string \<Rightarrow> int" where
  "digits_value n [] = n"
| "digits_value n (ch # s) = digits_value (n * 10 + ((of_char ch :: int) - 48)) s"

definition Atoi :: "string \<Rightarrow> int option" where
  "Atoi s =
     (let neg = (s \<noteq> [] \<and> hd s = CHR ''-'');
          signed = (s \<noteq> [] \<and> (hd s = CHR ''-'' \<or> hd s = CHR ''+''));
          body = (if signed then tl s else s)
      in if body = [] then None
         else if list_all is_digit body then
           (let un = digits_value 0 body
            in if neg then (if un > 2 ^ 63 then None else Some (- un))
               else (if un \<ge> 2 ^ 63 then None else Some un))
         else None)"

section \<open>The community classifier\<close>

text \<open>
  \<^verbatim>\<open>categorizeCommunity\<close> (config.go, lines 237 to 288) answers with one of the strings
  \<open>standard\<close>, \<open>large\<close> and the empty string, which stands for an invalid community.
\<close>

definition categorizeCommunity :: "string \<Rightarrow> string" where
  "categorizeCommunity input =
     (let standardSplit = Split input CHR '',''
      in if length standardSplit = 2 then
           (case Atoi (standardSplit ! 0) of
              None \<Rightarrow> ''''
            | Some firstPart \<Rightarrow>
               (case Atoi (standardSplit ! 1) of
                  None \<Rightarrow> ''''
                | Some secondPart \<Rightarrow>
                    if firstPart < 0 \<or> firstPart > 65535 then ''''
                    else if secondPart < 0 \<or> secondPart > 65535 then ''''
                    else ''standard''))
         else
           (let largeSplit = Split input CHR '':''
            in if length largeSplit = 3 then
                 (case Atoi (largeSplit ! 0) of
                    None \<Rightarrow> ''''
                  | Some firstPart \<Rightarrow>
                     (case Atoi (largeSplit ! 1) of
                        None \<Rightarrow> ''''
                      | Some secondPart \<Rightarrow>
                         (case Atoi (largeSplit ! 2) of
                            None \<Rightarrow> ''''
                          | Some thirdPart \<Rightarrow>
                              if firstPart < 0 \<or> firstPart > 4294967295 then ''''
                              else if secondPart < 0 \<or> secondPart > 4294967295 then ''''
                              else if thirdPart < 0 \<or> thirdPart > 4294967295 then ''''
                              else ''large'')))
               else ''''))"

text \<open>
  The two forms in the words of the specification: a component is an integer of the given
  range when \<^const>\<open>Atoi\<close> reads it as one.
\<close>

definition int_in_range :: "int \<Rightarrow> string \<Rightarrow> bool" where
  "int_in_range bound s = (case Atoi s of None \<Rightarrow> False | Some n \<Rightarrow> 0 \<le> n \<and> n \<le> bound)"

definition standard_form :: "string \<Rightarrow> bool" where
  "standard_form s =
     (case Split s CHR '','' of
        [a, b] \<Rightarrow> int_in_range 65535 a \<and> int_in_range 65535 b
      | _ \<Rightarrow> False)"

definition large_form :: "string \<Rightarrow> bool" where
  "large_form s =
     (case Split s CHR '':'' of
        [a, b, c] \<Rightarrow> int_in_range 4294967295 a \<and> int_in_range 4294967295 b \<and> int_in_range 4294967295 c
      | _ \<Rightarrow> False)"

section \<open>The data model\<close>

subsection \<open>Peers and templates\<close>

text \<open>
  Every field of the Go struct \<^verbatim>\<open>Peer\<close> (config.go, lines 22 to 119) is a pointer, and
  \<open>nil\<close> means that the field is not set. The loader reads and writes the fields both by
  name (\<^verbatim>\<open>peerData.NeighborIPs\<close>) and by reflection, walking the fields of the struct type
  and looking them up by their names. A peer is therefore kept as one partial map per
  pointee type, from the field's Go name to its value: \<open>None\<close> is the \<open>nil\<close> pointer.
  Templates are values of the same struct.

  Pointers are modelled by the values they point to. The template merge copies pointers,
  so that a peer can share a cell with its template. The lists that lines 521 to 617
  append to have no key in the document, so that a decoded template has none to share, and
  the loader stores through a pointer that is shared in this way only at line 623 (the
  announce-originated flag, set to \<open>false\<close>). The fields of the peers are the same either
  way; what the store leaves in the template is computed by \<open>written_templates\<close> below.
\<close>

datatype kind = KString | KInt | KBool | KSlice | KMap

record Peer =
  strings :: "string \<rightharpoonup> string"
  ints :: "string \<rightharpoonup> int"
  bools :: "string \<rightharpoonup> bool"
  slices :: "string \<rightharpoonup> string list"
  maps :: "string \<rightharpoonup> (nat \<times> nat) list"

text \<open>
  What reflection sees of a struct field: its name, the kind of the type its pointer
  points to, and its \<^verbatim>\<open>yaml\<close> and \<^verbatim>\<open>default\<close> tags. A tag that is absent reads as the
  empty string.
\<close>

datatype field = Field (field_name: string) (field_kind: kind) (yaml_tag: string) (default_tag: string)

text \<open>The fields of \<^verbatim>\<open>Peer\<close>, in the order of the struct.\<close>

definition peer_fields :: "field list" where
  "peer_fields =
     [Field ''Template'' KString ''template'' ''-'',
      Field ''Description'' KString ''description'' ''-'',
      Field ''Disabled'' KBool ''disabled'' ''false'',
      Field ''ASN'' KInt ''asn'' ''0'',
      Field ''NeighborIPs'' KSlice ''neighbors'' ''-'',
      Field ''Prepends'' KInt ''prepends'' ''0'',
      Field ''LocalPref'' KInt ''local-pref'' ''100'',
      Field ''Multihop'' KBool ''multihop'' ''false'',
      Field ''Listen4'' KString ''listen4'' ''-'',
      Field ''Listen6'' KString ''listen6'' ''-'',
      Field ''LocalASN'' KInt ''local-asn'' ''-'',
      Field ''LocalPort'' KInt ''local-port'' ''179'',
      Field ''NeighborPort'' KInt ''neighbor-port'' ''179'',
      Field ''Passive'' KBool ''passive'' ''false'',
      Field ''Direct'' KBool ''direct'' ''false'',
      Field ''NextHopSelf'' KBool ''next-hop-self'' ''false'',
      Field ''BFD'' KBool ''bfd'' ''false'',
      Field ''Password'' KString ''password'' ''-'',
      Field ''RSClient'' KBool ''rs-client'' ''false'',
      Field ''RRClient'' KBool ''rr-client'' ''false'',
      Field ''RemovePrivateASNs'' KBool ''remove-private-asns'' ''true'',
      Field ''MPUnicast46'' KBool ''mp-unicast-46'' ''false'',
      Field ''AllowLocalAS'' KBool ''allow-local-as'' ''false'',
      Field ''AddPathTx'' KBool ''add-path-tx'' ''false'',
      Field ''AddPathRx'' KBool ''add-path-rx'' ''false'',
      Field ''ImportNextHop'' KString ''import-next-hop'' ''-'',
      Field ''ExportNextHop'' KString ''export-next-hop'' ''-'',
      Field ''Confederation'' KInt ''confederation'' ''-'',
      Field ''ConfederationMember'' KBool ''confederation-member'' ''false'',
      Field ''TTLSecurity'' KBool ''ttl-security'' ''false'',
      Field ''ImportCommunities'' KSlice ''import-communities'' ''-'',
      Field ''ExportCommunities'' KSlice ''export-communities'' ''-'',
      Field ''AnnounceCommunities'' KSlice ''announce-communities'' ''-'',
      Field ''RemoveCommunities'' KSlice ''remove-communities'' ''-'',
      Field ''RemoveAllCommunities'' KInt ''remove-all-communities'' ''-'',
      Field ''ASPrefs'' KMap ''as-prefs'' ''-'',
      Field ''ASSet'' KString ''as-set'' ''-'',
      Field ''ImportLimit4'' KInt ''import-limit4'' ''1000000'',
      Field ''ImportLimit6'' KInt ''import-limit6'' ''200000'',
      Field ''EnforceFirstAS'' KBool ''enforce-first-as'' ''true'',
      Field ''EnforcePeerNexthop'' KBool ''enforce-peer-nexthop'' ''true'',
      Field ''ForcePeerNexthop'' KBool ''force-peer-nexthop'' ''false'',
      Field ''MaxPrefixTripAction'' KString ''max-prefix-action'' ''disable'',
      Field ''AllowBlackholeCommunity'' KBool ''allow-blackhole-community'' ''false'',
      Field ''FilterIRR'' KBool ''filter-irr'' ''false'',
      Field ''FilterRPKI'' KBool ''filter-rpki'' ''true'',
      Field ''FilterMaxPrefix'' KBool ''filter-max-prefix'' ''true'',
      Field ''FilterBogonRoutes'' KBool ''filter-bogon-routes'' ''true'',
      Field ''FilterBogonASNs'' KBool ''filter-bogon-asns'' ''true'',
      Field ''FilterTransitASNs'' KBool ''filter-transit-asns'' ''false'',
      Field ''FilterPrefixLength'' KBool ''filter-prefix-length'' ''true'',
      Field ''FilterNeverViaRouteServers'' KBool ''filter-never-via-route-servers'' ''false'',
      Field ''AutoImportLimits'' KBool ''auto-import-limits'' ''false'',
      Field ''AutoASSet'' KBool ''auto-as-set'' ''false'',
      Field ''HonorGracefulShutdown'' KBool ''honor-graceful-shutdown'' ''true'',
      Field ''Prefixes'' KSlice ''prefixes'' ''-'',
      Field ''AnnounceDefault'' KBool ''announce-default'' ''false'',
      Field ''AnnounceOriginated'' KBool ''announce-originated'' ''true'',
      Field ''SessionGlobal'' KString ''session-global'' ''-'',
      Field ''PreImport'' KString ''pre-import'' ''-'',
      Field ''PreExport'' KString ''pre-export'' ''-'',
      Field ''PreImportFinal'' KString ''pre-import-final'' ''-'',
      Field ''PreExportFinal'' KString ''pre-export-final'' ''-'',
      Field ''OptimizerProbeSources'' KSlice ''probe-sources'' ''-'',
      Field ''OptimizeInbound'' KBool ''optimize-inbound'' ''false'',
      Field ''ProtocolName'' KString ''-'' ''-'',
      Field ''Protocols'' KSlice ''-'' ''-'',
      Field ''PrefixSet4'' KSlice ''-'' ''-'',
      Field ''PrefixSet6'' KSlice ''-'' ''-'',
      Field ''ImportStandardCommunities'' KSlice ''-'' ''-'',
      Field ''ImportLargeCommunities'' KSlice ''-'' ''-'',
      Field ''ExportStandardCommunities'' KSlice ''-'' ''-'',
      Field ''ExportLargeCommunities'' KSlice ''-'' ''-'',
      Field ''AnnounceStandardCommunities'' KSlice ''-'' ''-'',
      Field ''AnnounceLargeCommunities'' KSlice ''-'' ''-'',
      Field ''RemoveStandardCommunities'' KSlice ''-'' ''-'',
      Field ''RemoveLargeCommunities'' KSlice ''-'' ''-'',
      Field ''BooleanOptions'' KSlice ''-'' ''-'']"

text \<open>The value of a field as reflection reads it, whatever its kind.\<close>

datatype fvalue = VString string | VInt int | VBool bool | VSlice "string list" | VMap "(nat \<times> nat) list"

definition field_value :: "Peer \<Rightarrow> kind \<Rightarrow> string \<Rightarrow> fvalue option" where
  "field_value p k n =
     (case k of
        KString \<Rightarrow> map_option VString (strings p n)
      | KInt \<Rightarrow> map_option VInt (ints p n)
      | KBool \<Rightarrow> map_option VBool (bools p n)
      | KSlice \<Rightarrow> map_option VSlice (slices p n)
      | KMap \<Rightarrow> map_option VMap (maps p n))"

text \<open>\<^verbatim>\<open>fieldValue.IsNil()\<close> for the field \<open>f\<close> of the peer \<open>p\<close>.\<close>

definition IsNil :: "Peer \<Rightarrow> field \<Rightarrow> bool" where
  "IsNil p f = (field_value p (field_kind f) (field_name f) = None)"

text \<open>\<^verbatim>\<open>peerFieldValue.Set(templateValue.Field(i))\<close>: the peer takes the template's field.\<close>

definition copy_field :: "Peer \<Rightarrow> field \<Rightarrow> Peer \<Rightarrow> Peer" where
  "copy_field t f p =
     (let n = field_name f
      in case field_kind f of
           KString \<Rightarrow> p\<lparr>strings := (strings p)(n := strings t n)\<rparr>
         | KInt \<Rightarrow> p\<lparr>ints := (ints p)(n := ints t n)\<rparr>
         | KBool \<Rightarrow> p\<lparr>bools := (bools p)(n := bools t n)\<rparr>
         | KSlice \<Rightarrow> p\<lparr>slices := (slices p)(n := slices t n)\<rparr>
         | KMap \<Rightarrow> p\<lparr>maps := (maps p)(n := maps t n)\<rparr>)"

subsection \<open>The global configuration\<close>

text \<open>
  Of the other structs the model keeps the fields that \<^verbatim>\<open>Load\<close> reads or writes. A Go map
  that the loader ranges over is an association list, walked in the order of the list: Go
  leaves the order of a \<^verbatim>\<open>range\<close> over a map open, and the theorems hold for every list.
  The values of these maps are pointers to structs, so an entry may be \<open>nil\<close> (\<open>None\<close>).
  A slice that is \<open>nil\<close> is the empty list.
\<close>

record VRRPInstance =
  State :: string
  VIPs :: "string list"
  VIPs4 :: "string list"
  VIPs6 :: "string list"

record BFDInstance =
  Neighbor :: "string option"
  BFDProtocolName :: "string option"

record Augments =
  Statics :: "(string \<times> string) list"
  SRDCommunities :: "string list"
  SRDStandardCommunities :: "string list"
  SRDLargeCommunities :: "string list"
  Statics4 :: "string \<rightharpoonup> string"
  Statics6 :: "string \<rightharpoonup> string"

record Config =
  Hostname :: string
  ASN :: int
  RouterID :: string
  Prefixes :: "string list"
  RTRServer :: string
  Peers :: "(string \<times> Peer option) list"
  Templates :: "(string \<times> Peer option) list"
  VRRPInstances :: "(string \<times> VRRPInstance option) list"
  BFDInstances :: "(string \<times> BFDInstance option) list"
  Augments :: Augments
  RTRServerHost :: string
  RTRServerPort :: int
  Prefixes4 :: "string list"
  Prefixes6 :: "string list"
  QueryNVRS :: bool

subsection \<open>What the loader calls outside of config.go\<close>

text \<open>
  The loader's collaborators are parameters of the model:
  \<^item> \<open>Unmarshal\<close>: \<^verbatim>\<open>defaults.Set\<close> followed by \<^verbatim>\<open>yaml.UnmarshalStrict\<close>, which give the
    decoded configuration or the decoder's error (\<open>Inl\<close>);
  \<^item> \<open>Validate\<close>: \<^verbatim>\<open>validator.Struct\<close>, which gives an error or nothing;
  \<^item> \<open>OsHostname\<close>: the result of \<^verbatim>\<open>os.Hostname()\<close>, a name or an error (\<open>Inl\<close>);
  \<^item> \<open>Sanitize\<close>: \<^verbatim>\<open>util.Sanitize\<close> of this repository;
  \<^item> \<open>ParseCIDR\<close>: \<^verbatim>\<open>net.ParseCIDR\<close>, \<open>None\<close> when it fails, and otherwise whether the
    address it returns has a 4-byte form (\<^verbatim>\<open>To4()\<close> is not \<open>nil\<close>);
  \<^item> \<open>ParseIP\<close>: whether \<^verbatim>\<open>net.ParseIP\<close> returns an address.
\<close>

record env =
  Unmarshal :: "string \<Rightarrow> string + Config"
  Validate :: "Config \<Rightarrow> string option"
  OsHostname :: "string + string"
  Sanitize :: "string \<Rightarrow> string"
  ParseCIDR :: "string \<Rightarrow> bool option"
  ParseIP :: "string \<Rightarrow> bool"

subsection \<open>Outcomes\<close>

text \<open>
  A step of the loader goes on with a value (\<open>Ok\<close>), returns an error to the caller of
  \<^verbatim>\<open>Load\<close> (\<open>Err\<close>: \<^verbatim>\<open>return nil, errors.New(...)\<close>), ends the process (\<open>Fatal\<close>:
  \<^verbatim>\<open>log.Fatalf\<close> logs the message and exits), or panics on a \<open>nil\<close> pointer (\<open>Panic\<close>).
\<close>

datatype 'a res = Ok 'a | Err string | Fatal string | Panic

definition and_then :: "'a res \<Rightarrow> ('a \<Rightarrow> 'b res) \<Rightarrow> 'b res" where
  "and_then m f = (case m of Ok x \<Rightarrow> f x | Err e \<Rightarrow> Err e | Fatal e \<Rightarrow> Fatal e | Panic \<Rightarrow> Panic)"

text \<open>
  What a call of \<^verbatim>\<open>Load\<close> does: it returns its pair of a configuration and an error, each
  of which may be \<open>nil\<close>, or it does not return, because the process exited or panicked.
\<close>

datatype load_result = Return "Config option" "string option" | Exit string | Panicked


section \<open>The loader\<close>

subsection \<open>Templates and defaults of a peer\<close>

text \<open>
  One round of the loop of lines 348 to 363, for the field \<open>f\<close> of the template \<open>t\<close>: the
  field named \<open>Template\<close> is ignored, and any other field is taken from the template when
  the template has it and the peer has not.
\<close>

definition merge_field :: "Peer \<Rightarrow> field \<Rightarrow> Peer \<Rightarrow> Peer" where
  "merge_field t f p =
     (if field_name f \<noteq> ''Template'' then
        (let peerHasValueConfigured = \<not> IsNil p f;
             templateHasValueConfigured = \<not> IsNil t f
         in if templateHasValueConfigured \<and> \<not> peerHasValueConfigured then copy_field t f p else p)
      else p)"

fun merge_fields :: "field list \<Rightarrow> Peer \<Rightarrow> Peer \<Rightarrow> Peer" where
  "merge_fields [] t p = p"
| "merge_fields (f # fs) t p = merge_fields fs t (merge_field t f p)"

text \<open>
  Lines 338 to 364: a peer that names a template takes the template's fields; a name
  that is not a key of the templates, or whose entry is \<open>nil\<close>, is fatal.
\<close>

definition assign_template :: "(string \<times> Peer option) list \<Rightarrow> Peer \<Rightarrow> Peer res" where
  "assign_template templates p =
     (case strings p ''Template'' of
        None \<Rightarrow> Ok p
      | Some name \<Rightarrow>
          if name \<noteq> '''' then
            (case map_of templates name of
               Some (Some template) \<Rightarrow> Ok (merge_fields peer_fields template p)
             | _ \<Rightarrow> Fatal (''Template '' @ name @ '' not found''))
          else Ok p)"

text \<open>\<^verbatim>\<open>strconv.ParseBool\<close>.\<close>

definition ParseBool :: "string \<Rightarrow> bool option" where
  "ParseBool s =
     (if s \<in> set [''1'', ''t'', ''T'', ''true'', ''TRUE'', ''True''] then Some True
      else if s \<in> set [''0'', ''f'', ''F'', ''false'', ''FALSE'', ''False''] then Some False
      else None)"

text \<open>\<^verbatim>\<open>reflect.Kind.String()\<close>, as \<^verbatim>\<open>%+v\<close> prints a kind.\<close>

fun kind_name :: "kind \<Rightarrow> string" where
  "kind_name KString = ''string''"
| "kind_name KInt = ''int''"
| "kind_name KBool = ''bool''"
| "kind_name KSlice = ''slice''"
| "kind_name KMap = ''map''"

text \<open>
  One round of the loop of lines 369 to 412, for the field \<open>f\<close>. No field of \<^verbatim>\<open>Peer\<close> points
  to a struct, so of the alternative \<^verbatim>\<open>case reflect.Struct, reflect.Slice\<close> the slice
  remains. The last branch appends to \<^verbatim>\<open>*peerData.BooleanOptions\<close>, which panics when that
  pointer is \<open>nil\<close>.
\<close>

definition set_default :: "field \<Rightarrow> Peer \<Rightarrow> Peer res" where
  "set_default f p =
     (let fieldName = field_name f; defaultString = default_tag f
      in if defaultString = '''' then
           Fatal (''Code error: field '' @ fieldName @ '' has no default value'')
         else if defaultString \<noteq> ''-'' then
           (if IsNil p f then
              (case field_kind f of
                 KString \<Rightarrow> Ok (p\<lparr>strings := (strings p)(fieldName \<mapsto> defaultString)\<rparr>)
               | KInt \<Rightarrow>
                   (case Atoi defaultString of
                      None \<Rightarrow> Fatal (''Can't convert '' @ [CHR 0x27] @ defaultString @ [CHR 0x27] @ '' to uint'')
                    | Some defaultValueInt \<Rightarrow> Ok (p\<lparr>ints := (ints p)(fieldName \<mapsto> defaultValueInt)\<rparr>))
               | KBool \<Rightarrow>
                   (case ParseBool defaultString of
                      None \<Rightarrow> Fatal (''Can't parse bool '' @ defaultString)
                    | Some defaultBool \<Rightarrow> Ok (p\<lparr>bools := (bools p)(fieldName \<mapsto> defaultBool)\<rparr>))
               | KSlice \<Rightarrow> Ok p
               | KMap \<Rightarrow> Fatal (''Unknown kind '' @ kind_name KMap @ '' for field '' @ fieldName))
            else if field_kind f = KBool then
              (case slices p ''BooleanOptions'' of
                 None \<Rightarrow> Panic
               | Some opts \<Rightarrow> Ok (p\<lparr>slices := (slices p)(''BooleanOptions'' \<mapsto> opts @ [yaml_tag f])\<rparr>))
            else Ok p)
         else Ok p)"

fun set_defaults :: "field list \<Rightarrow> Peer \<Rightarrow> Peer res" where
  "set_defaults [] p = Ok p"
| "set_defaults (f # fs) p = and_then (set_default f p) (set_defaults fs)"

text \<open>
  The body of the first loop over the peers (lines 324 to 412) but for line 329, which
  writes to the configuration and is part of \<open>first_loop\<close> below.
\<close>

definition first_pass :: "env \<Rightarrow> (string \<times> Peer option) list \<Rightarrow> string \<Rightarrow> Peer \<Rightarrow> Peer res" where
  "first_pass e templates peerName p0 =
     (let p1 = p0\<lparr>strings := (strings p0)(''ProtocolName'' \<mapsto> Sanitize e peerName)\<rparr>
      in if (case slices p1 ''NeighborIPs'' of None \<Rightarrow> True | Some ips \<Rightarrow> length ips < 1) then
           Fatal (''['' @ peerName @ ''] has no neighbors defined'')
         else
           (let p2 = p1\<lparr>slices := (slices p1)(''BooleanOptions'' \<mapsto> [])\<rparr>
            in and_then (assign_template templates p2) (set_defaults peer_fields)))"

text \<open>
  The first loop over the peers, with the flag \<^verbatim>\<open>c.QueryNVRS\<close> as it stands when a peer is
  reached. A \<open>nil\<close> entry panics at line 325.
\<close>

fun first_loop ::
  "env \<Rightarrow> (string \<times> Peer option) list \<Rightarrow> (string \<times> Peer option) list \<Rightarrow> bool \<Rightarrow>
     ((string \<times> Peer option) list \<times> bool) res" where
  "first_loop e templates [] q = Ok ([], q)"
| "first_loop e templates ((peerName, peerData) # rest) q =
     (case peerData of
        None \<Rightarrow> Panic
      | Some p \<Rightarrow>
          and_then (first_pass e templates peerName p) (\<lambda>p'.
          and_then (first_loop e templates rest (if bools p ''FilterNeverViaRouteServers'' \<noteq> None then True else q))
            (\<lambda>(peers, q'). Ok ((peerName, Some p') # peers, q'))))"

subsection \<open>Checks before the peers\<close>

text \<open>Lines 307 to 312. A \<open>nil\<close> entry panics when its field is read.\<close>

fun check_templates :: "(string \<times> Peer option) list \<Rightarrow> unit res" where
  "check_templates [] = Ok ()"
| "check_templates ((templateName, templateData) # rest) =
     (case templateData of
        None \<Rightarrow> Panic
      | Some t \<Rightarrow>
          (case strings t ''Template'' of
             None \<Rightarrow> check_templates rest
           | Some name \<Rightarrow>
               if name \<noteq> '''' then
                 Fatal (''Templates must not have a template field set, but '' @ templateName @ '' does'')
               else check_templates rest))"

text \<open>Lines 314 to 321.\<close>

definition set_hostname :: "env \<Rightarrow> Config \<Rightarrow> Config res" where
  "set_hostname e c =
     (if Hostname c = '''' then
        (case OsHostname e of
           Inl err \<Rightarrow> Fatal (''Hostname is not defined and unable to get system hostname: '' @ err)
         | Inr hostname \<Rightarrow> Ok (c\<lparr>Hostname := hostname\<rparr>))
      else Ok c)"

subsection \<open>The global lists\<close>

text \<open>
  Lines 416 to 427, and lines 481 to 492 for the virtual addresses of a VRRP instance: the
  strings that parse are appended to the list of their address family, the first one that
  does not parse is returned in an error that starts with \<open>what\<close>.
\<close>

fun split_families ::
  "env \<Rightarrow> string \<Rightarrow> string list \<Rightarrow> string list \<times> string list \<Rightarrow> (string list \<times> string list) res" where
  "split_families e what [] (v4, v6) = Ok (v4, v6)"
| "split_families e what (prefix # rest) (v4, v6) =
     (case ParseCIDR e prefix of
        None \<Rightarrow> Err (what @ prefix)
      | Some has4 \<Rightarrow>
          if \<not> has4 then split_families e what rest (v4, v6 @ [prefix])
          else split_families e what rest (v4 @ [prefix], v6))"

text \<open>Lines 434 to 451.\<close>

fun srd_communities :: "string list \<Rightarrow> string list \<times> string list \<Rightarrow> (string list \<times> string list) res" where
  "srd_communities [] (std, lrg) = Ok (std, lrg)"
| "srd_communities (community # rest) (std, lrg) =
     (let communityType = categorizeCommunity community
      in if communityType = ''standard'' then srd_communities rest (std @ [community], lrg)
         else if communityType = ''large'' then
           srd_communities rest (std, lrg @ [ReplaceAll community CHR '':'' CHR '',''])
         else Err (''Invalid SRD community: '' @ community))"

text \<open>Lines 454 to 468.\<close>

fun static_routes ::
  "env \<Rightarrow> (string \<times> string) list \<Rightarrow> (string \<rightharpoonup> string) \<times> (string \<rightharpoonup> string) \<Rightarrow>
     ((string \<rightharpoonup> string) \<times> (string \<rightharpoonup> string)) res" where
  "static_routes e [] (s4, s6) = Ok (s4, s6)"
| "static_routes e ((prefix, nexthop) # rest) (s4, s6) =
     (case ParseCIDR e prefix of
        None \<Rightarrow> Err (''Invalid static prefix: '' @ prefix)
      | Some has4 \<Rightarrow>
          if \<not> ParseIP e nexthop then Err (''Invalid static nexthop: '' @ nexthop)
          else if \<not> has4 then static_routes e rest (s4, s6(prefix \<mapsto> nexthop))
          else static_routes e rest (s4(prefix \<mapsto> nexthop), s6))"

text \<open>Lines 471 to 476. Line 472 reads through the pointers to the instance and to its neighbor.\<close>

fun bfd_loop :: "env \<Rightarrow> (string \<times> BFDInstance option) list \<Rightarrow> (string \<times> BFDInstance option) list res" where
  "bfd_loop e [] = Ok []"
| "bfd_loop e ((instanceName, bfdInstance) # rest) =
     (case bfdInstance of
        None \<Rightarrow> Panic
      | Some b \<Rightarrow>
          (case Neighbor b of
             None \<Rightarrow> Panic
           | Some neighbor \<Rightarrow>
               if \<not> ParseIP e neighbor then Err (''invalid BFD neighbor '' @ neighbor)
               else and_then (bfd_loop e rest) (\<lambda>done.
                      Ok ((instanceName, Some (b\<lparr>BFDProtocolName := Some (Sanitize e instanceName)\<rparr>)) # done))))"

text \<open>Lines 479 to 502.\<close>

definition vrrp_instance :: "env \<Rightarrow> VRRPInstance \<Rightarrow> VRRPInstance res" where
  "vrrp_instance e v =
     and_then (split_families e ''Invalid VIP: '' (VIPs v) (VIPs4 v, VIPs6 v)) (\<lambda>(v4, v6).
       let v' = v\<lparr>VIPs4 := v4, VIPs6 := v6\<rparr>
       in if State v' = ''primary'' then Ok (v'\<lparr>State := ''MASTER''\<rparr>)
          else if State v' = ''backup'' then Ok (v'\<lparr>State := ''BACKUP''\<rparr>)
          else Err (''VRRP state must be '' @ [CHR 0x27] @ ''primary'' @ [CHR 0x27] @ '' or '' @
                    [CHR 0x27] @ ''backup'' @ [CHR 0x27] @ '', unexpected '' @ State v'))"

fun vrrp_loop :: "env \<Rightarrow> (string \<times> VRRPInstance option) list \<Rightarrow> (string \<times> VRRPInstance option) list res" where
  "vrrp_loop e [] = Ok []"
| "vrrp_loop e ((instanceName, vrrpInstance) # rest) =
     (case vrrpInstance of
        None \<Rightarrow> Panic
      | Some v \<Rightarrow>
          and_then (vrrp_instance e v) (\<lambda>v'.
          and_then (vrrp_loop e rest) (\<lambda>done. Ok ((instanceName, Some v') # done))))"

text \<open>\<^verbatim>\<open>%s\<close> of a slice of strings.\<close>

fun join_with_spaces :: "string list \<Rightarrow> string" where
  "join_with_spaces [] = ''''"
| "join_with_spaces [x] = x"
| "join_with_spaces (x # y # ys) = x @ '' '' @ join_with_spaces (y # ys)"

text \<open>Lines 505 to 516.\<close>

definition rtr_server :: "Config \<Rightarrow> Config res" where
  "rtr_server c =
     (if RTRServer c \<noteq> '''' then
        (let rtrServerParts = Split (RTRServer c) CHR '':''
         in if length rtrServerParts \<noteq> 2 then
              Fatal (''Invalid rtr-server '' @ [CHR 0x27] @ ''['' @ join_with_spaces rtrServerParts @ '']'' @
                     [CHR 0x27] @ '' format should be host:port'')
            else
              (case Atoi (rtrServerParts ! 1) of
                 None \<Rightarrow> Fatal (''Invalid RTR server port '' @ rtrServerParts ! 1)
               | Some rtrServerPort \<Rightarrow>
                   Ok (c\<lparr>RTRServerHost := rtrServerParts ! 0, RTRServerPort := rtrServerPort\<rparr>)))
      else Ok c)"

text \<open>Lines 415 to 516 together.\<close>

definition resolve_globals :: "env \<Rightarrow> Config \<Rightarrow> Config res" where
  "resolve_globals e c =
     and_then (split_families e ''Invalid origin prefix: '' (Prefixes c) (Prefixes4 c, Prefixes6 c))
       (\<lambda>(p4, p6).
     let c1 = c\<lparr>Prefixes4 := p4, Prefixes6 := p6\<rparr>;
         a1 = (Augments c1)\<lparr>Statics4 := Map.empty, Statics6 := Map.empty\<rparr>
     in and_then (srd_communities (SRDCommunities a1) (SRDStandardCommunities a1, SRDLargeCommunities a1))
       (\<lambda>(std, lrg).
     let a2 = a1\<lparr>SRDStandardCommunities := std, SRDLargeCommunities := lrg\<rparr>
     in and_then (static_routes e (Statics a2) (Statics4 a2, Statics6 a2))
       (\<lambda>(s4, s6).
     let c2 = c1\<lparr>Augments := a2\<lparr>Statics4 := s4, Statics6 := s6\<rparr>\<rparr>
     in and_then (bfd_loop e (BFDInstances c2))
       (\<lambda>bfds.
     and_then (vrrp_loop e (VRRPInstances c2))
       (\<lambda>vrrps.
     rtr_server (c2\<lparr>BFDInstances := bfds, VRRPInstances := vrrps\<rparr>))))))"

subsection \<open>The second loop over the peers\<close>

text \<open>\<^verbatim>\<open>append\<close> to the slice behind a pointer field, which is first set to an empty slice when it is \<open>nil\<close>.\<close>

definition append_slice :: "string \<Rightarrow> string \<Rightarrow> Peer \<Rightarrow> Peer" where
  "append_slice fieldName x p =
     p\<lparr>slices := (slices p)(fieldName \<mapsto> (case slices p fieldName of None \<Rightarrow> [] | Some xs \<Rightarrow> xs) @ [x])\<rparr>"

text \<open>Lines 521 to 540.\<close>

fun prefix_sets :: "env \<Rightarrow> string list \<Rightarrow> Peer \<Rightarrow> Peer res" where
  "prefix_sets e [] p = Ok p"
| "prefix_sets e (prefix # rest) p =
     (case ParseCIDR e prefix of
        None \<Rightarrow> Err (''Invalid prefix: '' @ prefix)
      | Some has4 \<Rightarrow>
          if \<not> has4 then prefix_sets e rest (append_slice ''PrefixSet6'' prefix p)
          else prefix_sets e rest (append_slice ''PrefixSet4'' prefix p))"

text \<open>
  Lines 545 to 560, and in the same words lines 564 to 579, 582 to 598 and 601 to 617: the
  four blocks differ in the word of the error message and in the two fields they append to.
\<close>

fun categorize_communities :: "string \<Rightarrow> string \<Rightarrow> string \<Rightarrow> string list \<Rightarrow> Peer \<Rightarrow> Peer res" where
  "categorize_communities what std lrg [] p = Ok p"
| "categorize_communities what std lrg (community # rest) p =
     (let communityType = categorizeCommunity community
      in if communityType = ''standard'' then
           categorize_communities what std lrg rest (append_slice std community p)
         else if communityType = ''large'' then
           categorize_communities what std lrg rest
             (append_slice lrg (ReplaceAll community CHR '':'' CHR '','') p)
         else Err (''Invalid '' @ what @ '' community: '' @ community))"

text \<open>A block runs when the pointer to its list is not \<open>nil\<close>.\<close>

definition community_field :: "string \<Rightarrow> string \<Rightarrow> string \<Rightarrow> string \<Rightarrow> Peer \<Rightarrow> Peer res" where
  "community_field what src std lrg p =
     (case slices p src of
        None \<Rightarrow> Ok p
      | Some communities \<Rightarrow> categorize_communities what std lrg communities p)"

text \<open>
  Lines 620 to 624. \<open>noOrigin\<close> is \<^verbatim>\<open>len(c.Prefixes) < 1\<close>; only then is the pointer to the
  flag read, and a \<open>nil\<close> pointer panics.
\<close>

definition check_originated :: "bool \<Rightarrow> Peer \<Rightarrow> Peer res" where
  "check_originated noOrigin p =
     (if noOrigin then
        (case bools p ''AnnounceOriginated'' of
           None \<Rightarrow> Panic
         | Some announce \<Rightarrow>
             if announce then Ok (p\<lparr>bools := (bools p)(''AnnounceOriginated'' \<mapsto> False)\<rparr>) else Ok p)
      else Ok p)"

text \<open>The body of the second loop over the peers, lines 519 to 624.\<close>

definition second_pass :: "env \<Rightarrow> bool \<Rightarrow> Peer \<Rightarrow> Peer res" where
  "second_pass e noOrigin p =
     and_then (case slices p ''Prefixes'' of None \<Rightarrow> Ok p | Some prefixes \<Rightarrow> prefix_sets e prefixes p)
       (\<lambda>p1.
     and_then (community_field ''import'' ''ImportCommunities''
                 ''ImportStandardCommunities'' ''ImportLargeCommunities'' p1)
       (\<lambda>p2.
     and_then (community_field ''export'' ''ExportCommunities''
                 ''ExportStandardCommunities'' ''ExportLargeCommunities'' p2)
       (\<lambda>p3.
     and_then (community_field ''announce'' ''AnnounceCommunities''
                 ''AnnounceStandardCommunities'' ''AnnounceLargeCommunities'' p3)
       (\<lambda>p4.
     and_then (community_field ''remove'' ''RemoveCommunities''
                 ''RemoveStandardCommunities'' ''RemoveLargeCommunities'' p4)
       (check_originated noOrigin)))))"

fun second_loop :: "env \<Rightarrow> bool \<Rightarrow> (string \<times> Peer option) list \<Rightarrow> (string \<times> Peer option) list res" where
  "second_loop e noOrigin [] = Ok []"
| "second_loop e noOrigin ((peerName, peerData) # rest) =
     (case peerData of
        None \<Rightarrow> Panic
      | Some p \<Rightarrow>
          and_then (second_pass e noOrigin p) (\<lambda>p'.
          and_then (second_loop e noOrigin rest) (\<lambda>done. Ok ((peerName, Some p') # done))))"

subsection \<open>Load\<close>

text \<open>Lines 307 to 627: what \<^verbatim>\<open>Load\<close> does with a configuration that was decoded and validated.\<close>

definition resolve_peers :: "env \<Rightarrow> Config \<Rightarrow> Config res" where
  "resolve_peers e c =
     and_then (first_loop e (Templates c) (Peers c) (QueryNVRS c))
       (\<lambda>(peers, q). Ok (c\<lparr>Peers := peers, QueryNVRS := q\<rparr>))"

text \<open>
  Line 358 copies the pointer of the template, so a peer that has no announce-originated
  flag of its own shares the flag of the template it names, and the store of line 623
  reaches the template. \<open>peers\<close> are the peers as they were decoded: the template of the
  name \<open>templateName\<close> has its flag set to \<open>false\<close> when there are no origin prefixes,
  the flag is \<open>true\<close>, and some peer names the template and has no flag of its own. (The
  keys of a Go map are distinct.)
\<close>

definition takes_originated :: "string \<Rightarrow> string \<times> Peer option \<Rightarrow> bool" where
  "takes_originated templateName a =
     (case snd a of
        None \<Rightarrow> False
      | Some p \<Rightarrow>
          strings p ''Template'' = Some templateName \<and> templateName \<noteq> '''' \<and>
          bools p ''AnnounceOriginated'' = None)"

definition written_templates ::
  "bool \<Rightarrow> (string \<times> Peer option) list \<Rightarrow> (string \<times> Peer option) list \<Rightarrow> (string \<times> Peer option) list" where
  "written_templates noOrigin peers templates =
     map (\<lambda>(templateName, templateData).
            (templateName,
             case templateData of
               None \<Rightarrow> None
             | Some t \<Rightarrow>
                 if noOrigin \<and> list_ex (takes_originated templateName) peers \<and>
                    bools t ''AnnounceOriginated'' = Some True
                 then Some (t\<lparr>bools := (bools t)(''AnnounceOriginated'' \<mapsto> False)\<rparr>)
                 else Some t))
         templates"

text \<open>
  The second loop over the peers (lines 518 to 625), with the peers as they were decoded
  for the templates that line 623 writes to.
\<close>

definition finish_peers :: "env \<Rightarrow> (string \<times> Peer option) list \<Rightarrow> Config \<Rightarrow> Config res" where
  "finish_peers e decodedPeers c =
     and_then (second_loop e (length (Prefixes c) < 1) (Peers c))
       (\<lambda>peers. Ok (c\<lparr>Peers := peers,
                       Templates := written_templates (length (Prefixes c) < 1) decodedPeers (Templates c)\<rparr>))"

definition resolve :: "env \<Rightarrow> Config \<Rightarrow> Config res" where
  "resolve e c =
     and_then (check_templates (Templates c)) (\<lambda>_.
     and_then (set_hostname e c) (\<lambda>c1.
     and_then (resolve_peers e c1) (\<lambda>c2.
     and_then (resolve_globals e c2) (finish_peers e (Peers c)))))"

text \<open>
  \<^verbatim>\<open>Load\<close> (lines 291 to 628). \<^verbatim>\<open>defaults.Set\<close> of line 294 reports an error only for an
  argument that is not a pointer to a struct, so that line 295 is not reached.
\<close>

definition Load :: "env \<Rightarrow> string \<Rightarrow> load_result" where
  "Load e configBlob =
     (case Unmarshal e configBlob of
        Inl err \<Rightarrow> Return None (Some (''YAML unmarshal: '' @ err))
      | Inr c \<Rightarrow>
          (case Validate e c of
             Some err \<Rightarrow> Return None (Some (''Validation: '' @ err))
           | None \<Rightarrow>
               (case resolve e c of
                  Ok c' \<Rightarrow> Return (Some c') None
                | Err msg \<Rightarrow> Return None (Some msg)
                | Fatal msg \<Rightarrow> Exit msg
                | Panic \<Rightarrow> Panicked)))"

text \<open>The configuration that a call returned without an error, if it did.\<close>

definition loaded :: "load_result \<Rightarrow> Config option" where
  "loaded r = (case r of Return (Some c) None \<Rightarrow> Some c | _ \<Rightarrow> None)"

subsection \<open>Reading a configuration\<close>

text \<open>\<^verbatim>\<open>peer.F\<close> for the field \<open>f\<close> of the schema, as reflection reads it.\<close>

definition value_of :: "Peer \<Rightarrow> field \<Rightarrow> fvalue option" where
  "value_of p f = field_value p (field_kind f) (field_name f)"

text \<open>
  The decoder fills the fields that have a key in the document. A field tagged
  \<^verbatim>\<open>yaml:"-"\<close> has none, so it is \<open>nil\<close> in every peer and template that comes out of the
  decoder, and the lists and the flag that \<^verbatim>\<open>Load\<close> computes are empty and \<open>false\<close> there.
\<close>

definition internal_unset :: "Peer \<Rightarrow> bool" where
  "internal_unset p = list_all (\<lambda>f. yaml_tag f \<noteq> ''-'' \<or> IsNil p f) peer_fields"

definition decoded :: "Config \<Rightarrow> bool" where
  "decoded c =
     (\<not> QueryNVRS c \<and> Prefixes4 c = [] \<and> Prefixes6 c = [] \<and>
      SRDStandardCommunities (Augments c) = [] \<and> SRDLargeCommunities (Augments c) = [] \<and>
      list_all (\<lambda>(n, p). case p of None \<Rightarrow> True | Some p' \<Rightarrow> internal_unset p') (Peers c) \<and>
      list_all (\<lambda>(n, p). case p of None \<Rightarrow> True | Some t \<Rightarrow> internal_unset t) (Templates c) \<and>
      list_all (\<lambda>(n, v). case v of None \<Rightarrow> True | Some v' \<Rightarrow> VIPs4 v' = [] \<and> VIPs6 v' = []) (VRRPInstances c))"

text \<open>
  A field whose \<^verbatim>\<open>default\<close> tag the loop of lines 369 to 412 can apply: the tag is there,
  and unless it is \<open>-\<close> it reads as a value of the field's kind.
\<close>

definition default_ok :: "field \<Rightarrow> bool" where
  "default_ok f =
     (if default_tag f = '''' then False
      else if default_tag f = ''-'' then True
      else (case field_kind f of
              KString \<Rightarrow> True
            | KInt \<Rightarrow> Atoi (default_tag f) \<noteq> None
            | KBool \<Rightarrow> ParseBool (default_tag f) \<noteq> None
            | KSlice \<Rightarrow> True
            | KMap \<Rightarrow> False))"

text \<open>A field that has a declared default which the loop stores: no slice field of \<^verbatim>\<open>Peer\<close> has one.\<close>

definition has_default :: "field \<Rightarrow> bool" where
  "has_default f = (default_tag f \<noteq> ''-'' \<and> default_tag f \<noteq> '''')"

subsection \<open>Vocabulary of the properties\<close>

text \<open>The peer as it stands after lines 325 and 336, before its template is looked up.\<close>

definition prepared :: "env \<Rightarrow> string \<Rightarrow> Peer \<Rightarrow> Peer" where
  "prepared e peerName p =
     p\<lparr>strings := (strings p)(''ProtocolName'' \<mapsto> Sanitize e peerName),
       slices := (slices p)(''BooleanOptions'' \<mapsto> [])\<rparr>"

text \<open>
  The slice behind a pointer field after the elements of \<open>new\<close> were appended to it one at a
  time: the pointer stays as it was, \<open>nil\<close> included, when there was nothing to append.
\<close>

definition appended :: "string list option \<Rightarrow> string list \<Rightarrow> string list option" where
  "appended old new = (if new = [] then old else Some ((case old of None \<Rightarrow> [] | Some xs \<Rightarrow> xs) @ new))"

text \<open>The list behind a pointer field, empty for \<open>nil\<close>.\<close>

definition elements :: "Peer \<Rightarrow> string \<Rightarrow> string list" where
  "elements p fieldName = (case slices p fieldName of None \<Rightarrow> [] | Some xs \<Rightarrow> xs)"

text \<open>The address family of a string that parses: the 4-byte form wins.\<close>

definition is_v4 :: "env \<Rightarrow> string \<Rightarrow> bool" where
  "is_v4 e x = (ParseCIDR e x = Some True)"

definition is_v6 :: "env \<Rightarrow> string \<Rightarrow> bool" where
  "is_v6 e x = (ParseCIDR e x = Some False)"

definition is_standard :: "string \<Rightarrow> bool" where
  "is_standard x = (categorizeCommunity x = ''standard'')"

definition is_large :: "string \<Rightarrow> bool" where
  "is_large x = (categorizeCommunity x = ''large'')"

text \<open>A large community with its colons rewritten to commas (lines 556, 575, 594 and 613).\<close>

definition rewritten :: "string \<Rightarrow> string" where
  "rewritten x = ReplaceAll x CHR '':'' CHR '',''"

text \<open>
  What the second loop leaves in the slice field \<open>n\<close> of a peer \<open>p\<close>: the peer's prefixes
  by address family, its communities by form, the large ones rewritten, each appended to
  what the field held; any other field is as it was.
\<close>

definition resolved_slice :: "env \<Rightarrow> Peer \<Rightarrow> string \<Rightarrow> string list option" where
  "resolved_slice e p n =
     (if n = ''PrefixSet4'' then appended (slices p n) (filter (is_v4 e) (elements p ''Prefixes''))
      else if n = ''PrefixSet6'' then appended (slices p n) (filter (is_v6 e) (elements p ''Prefixes''))
      else if n = ''ImportStandardCommunities'' then
        appended (slices p n) (filter is_standard (elements p ''ImportCommunities''))
      else if n = ''ImportLargeCommunities'' then
        appended (slices p n) (map rewritten (filter is_large (elements p ''ImportCommunities'')))
      else if n = ''ExportStandardCommunities'' then
        appended (slices p n) (filter is_standard (elements p ''ExportCommunities''))
      else if n = ''ExportLargeCommunities'' then
        appended (slices p n) (map rewritten (filter is_large (elements p ''ExportCommunities'')))
      else if n = ''AnnounceStandardCommunities'' then
        appended (slices p n) (filter is_standard (elements p ''AnnounceCommunities''))
      else if n = ''AnnounceLargeCommunities'' then
        appended (slices p n) (map rewritten (filter is_large (elements p ''AnnounceCommunities'')))
      else if n = ''RemoveStandardCommunities'' then
        appended (slices p n) (filter is_standard (elements p ''RemoveCommunities''))
      else if n = ''RemoveLargeCommunities'' then
        appended (slices p n) (map rewritten (filter is_large (elements p ''RemoveCommunities'')))
      else slices p n)"

text \<open>The inputs of the second loop that it accepts.\<close>

definition lists_ok :: "env \<Rightarrow> Peer \<Rightarrow> bool" where
  "lists_ok e p =
     (list_all (\<lambda>x. ParseCIDR e x \<noteq> None) (elements p ''Prefixes'') \<and>
      list_all (\<lambda>x. is_standard x \<or> is_large x) (elements p ''ImportCommunities'') \<and>
      list_all (\<lambda>x. is_standard x \<or> is_large x) (elements p ''ExportCommunities'') \<and>
      list_all (\<lambda>x. is_standard x \<or> is_large x) (elements p ''AnnounceCommunities'') \<and>
      list_all (\<lambda>x. is_standard x \<or> is_large x) (elements p ''RemoveCommunities''))"

text \<open>
  How the two loops relate an entry of the peers to the entry they leave in its place, and
  whether an entry sets the field that line 328 looks at.
\<close>

definition first_rel ::
  "env \<Rightarrow> (string \<times> Peer option) list \<Rightarrow> string \<times> Peer option \<Rightarrow> string \<times> Peer option \<Rightarrow> bool" where
  "first_rel e ts a b =
     (fst b = fst a \<and> (\<exists>p p1. snd a = Some p \<and> snd b = Some p1 \<and> first_pass e ts (fst a) p = Ok p1))"

definition second_rel :: "env \<Rightarrow> bool \<Rightarrow> string \<times> Peer option \<Rightarrow> string \<times> Peer option \<Rightarrow> bool" where
  "second_rel e noOrigin a b =
     (fst b = fst a \<and> (\<exists>p p1. snd a = Some p \<and> snd b = Some p1 \<and> second_pass e noOrigin p = Ok p1))"

definition sets_nvrs :: "string \<times> Peer option \<Rightarrow> bool" where
  "sets_nvrs a = (case snd a of None \<Rightarrow> False | Some p \<Rightarrow> bools p ''FilterNeverViaRouteServers'' \<noteq> None)"

text \<open>Whether a step went on, and whether the global part of a configuration is accepted.\<close>

definition is_ok :: "'a res \<Rightarrow> bool" where
  "is_ok r = (case r of Ok x \<Rightarrow> True | _ \<Rightarrow> False)"

definition globals_ok :: "env \<Rightarrow> Config \<Rightarrow> bool" where
  "globals_ok e c =
     (is_ok (split_families e ''Invalid origin prefix: '' (Prefixes c) (Prefixes4 c, Prefixes6 c)) \<and>
      is_ok (srd_communities (SRDCommunities (Augments c))
               (SRDStandardCommunities (Augments c), SRDLargeCommunities (Augments c))) \<and>
      is_ok (static_routes e (Statics (Augments c)) (Map.empty, Map.empty)) \<and>
      is_ok (bfd_loop e (BFDInstances c)) \<and>
      is_ok (vrrp_loop e (VRRPInstances c)) \<and>
      (RTRServer c = '''' \<or>
       (length (Split (RTRServer c) CHR '':'') = 2 \<and> Atoi (Split (RTRServer c) CHR '':'' ! 1) \<noteq> None)))"

text \<open>
  The template a peer takes its fields from, the peer after the merge of lines 348 to 363,
  and the conditions on an entry of the peers under which both loops go through.
\<close>

definition names_template :: "Peer \<Rightarrow> bool" where
  "names_template p = (case strings p ''Template'' of None \<Rightarrow> False | Some name \<Rightarrow> name \<noteq> '''')"

definition template_of :: "(string \<times> Peer option) list \<Rightarrow> Peer \<Rightarrow> Peer option" where
  "template_of ts p =
     (case strings p ''Template'' of
        None \<Rightarrow> None
      | Some name \<Rightarrow>
          if name \<noteq> '''' then (case map_of ts name of Some (Some t) \<Rightarrow> Some t | _ \<Rightarrow> None) else None)"

definition merged :: "(string \<times> Peer option) list \<Rightarrow> Peer \<Rightarrow> Peer" where
  "merged ts p = (case template_of ts p of None \<Rightarrow> p | Some t \<Rightarrow> merge_fields peer_fields t p)"

definition has_neighbors :: "Peer \<Rightarrow> bool" where
  "has_neighbors p = (case slices p ''NeighborIPs'' of None \<Rightarrow> False | Some ips \<Rightarrow> ips \<noteq> [])"

definition entry_ok :: "env \<Rightarrow> (string \<times> Peer option) list \<Rightarrow> string \<times> Peer option \<Rightarrow> bool" where
  "entry_ok e ts a =
     (case snd a of
        None \<Rightarrow> False
      | Some p \<Rightarrow>
          has_neighbors p \<and> (if names_template p then template_of ts p \<noteq> None else True) \<and>
          lists_ok e (merged ts p))"

definition hostname_ok :: "env \<Rightarrow> Config \<Rightarrow> bool" where
  "hostname_ok e c = (if Hostname c = '''' then (case OsHostname e of Inl err \<Rightarrow> False | Inr h \<Rightarrow> True) else True)"

text \<open>Whether the struct has a field of the name \<open>n\<close> that points to a value of the kind \<open>k\<close>.\<close>

definition in_schema :: "kind \<Rightarrow> string \<Rightarrow> bool" where
  "in_schema k n = list_ex (\<lambda>f. field_kind f = k \<and> field_name f = n) peer_fields"

text \<open>
  The configuration \<open>c\<close> with the announce-originated field of every peer replaced: the peer
  of the name \<open>n\<close> gets \<open>g n\<close>, which may be \<open>nil\<close>.
\<close>

definition with_originated :: "(string \<Rightarrow> bool option) \<Rightarrow> Config \<Rightarrow> Config" where
  "with_originated g c =
     c\<lparr>Peers := map (\<lambda>(n, po). (n, map_option (\<lambda>p. p\<lparr>bools := (bools p)(''AnnounceOriginated'' := g n)\<rparr>) po))
                   (Peers c)\<rparr>"

text \<open>What the second loop appends to the slice field \<open>n\<close> of the peer \<open>p\<close>.\<close>

definition additions :: "env \<Rightarrow> Peer \<Rightarrow> string \<Rightarrow> string list" where
  "additions e p n =
     (if n = ''PrefixSet4'' then filter (is_v4 e) (elements p ''Prefixes'')
      else if n = ''PrefixSet6'' then filter (is_v6 e) (elements p ''Prefixes'')
      else if n = ''ImportStandardCommunities'' then filter is_standard (elements p ''ImportCommunities'')
      else if n = ''ImportLargeCommunities'' then map rewritten (filter is_large (elements p ''ImportCommunities''))
      else if n = ''ExportStandardCommunities'' then filter is_standard (elements p ''ExportCommunities'')
      else if n = ''ExportLargeCommunities'' then map rewritten (filter is_large (elements p ''ExportCommunities''))
      else if n = ''AnnounceStandardCommunities'' then filter is_standard (elements p ''AnnounceCommunities'')
      else if n = ''AnnounceLargeCommunities'' then map rewritten (filter is_large (elements p ''AnnounceCommunities''))
      else if n = ''RemoveStandardCommunities'' then filter is_standard (elements p ''RemoveCommunities'')
      else if n = ''RemoveLargeCommunities'' then map rewritten (filter is_large (elements p ''RemoveCommunities''))
      else [])"


text \<open>
  The four community lists of a peer: the word of the error message, the field that is
  read, and the two fields that are appended to.
\<close>

definition community_fields :: "(string \<times> string \<times> string \<times> string) list" where
  "community_fields =
     [(''import'', ''ImportCommunities'', ''ImportStandardCommunities'', ''ImportLargeCommunities''),
      (''export'', ''ExportCommunities'', ''ExportStandardCommunities'', ''ExportLargeCommunities''),
      (''announce'', ''AnnounceCommunities'', ''AnnounceStandardCommunities'', ''AnnounceLargeCommunities''),
      (''remove'', ''RemoveCommunities'', ''RemoveStandardCommunities'', ''RemoveLargeCommunities'')]"

text \<open>
  The condition on an entry of the peers under which the first loop goes on: the peer has
  a neighbor of its own, and the template it names is there.
\<close>

definition entry_passes :: "(string \<times> Peer option) list \<Rightarrow> string \<times> Peer option \<Rightarrow> bool" where
  "entry_passes ts a =
     (case snd a of
        None \<Rightarrow> False
      | Some p \<Rightarrow> has_neighbors p \<and> (if names_template p then template_of ts p \<noteq> None else True))"

text \<open>
  The two halves of \<open>lists_ok\<close>: the prefixes of a peer all parse, and the tokens of its
  four community lists all have one of the two forms.
\<close>

definition prefixes_ok :: "env \<Rightarrow> Peer \<Rightarrow> bool" where
  "prefixes_ok e p = list_all (\<lambda>x. ParseCIDR e x \<noteq> None) (elements p ''Prefixes'')"

definition communities_ok :: "Peer \<Rightarrow> bool" where
  "communities_ok p =
     list_all (\<lambda>(what, src, std, lrg). list_all (\<lambda>x. is_standard x \<or> is_large x) (elements p src))
       community_fields"

text \<open>
  The two halves of \<open>globals_ok\<close>: the global lists are accepted (lines 415 to 502), and
  the address of the RTR server is empty or of the form \<open>host:port\<close> (lines 505 to 516).
\<close>

definition global_lists_ok :: "env \<Rightarrow> Config \<Rightarrow> bool" where
  "global_lists_ok e c =
     (is_ok (split_families e ''Invalid origin prefix: '' (Prefixes c) (Prefixes4 c, Prefixes6 c)) \<and>
      is_ok (srd_communities (SRDCommunities (Augments c))
               (SRDStandardCommunities (Augments c), SRDLargeCommunities (Augments c))) \<and>
      is_ok (static_routes e (Statics (Augments c)) (Map.empty, Map.empty)) \<and>
      is_ok (bfd_loop e (BFDInstances c)) \<and>
      is_ok (vrrp_loop e (VRRPInstances c)))"

definition rtr_ok :: "Config \<Rightarrow> bool" where
  "rtr_ok c =
     (RTRServer c = '''' \<or>
      (length (Split (RTRServer c) CHR '':'') = 2 \<and> Atoi (Split (RTRServer c) CHR '':'' ! 1) \<noteq> None))"


section \<open>Sample inputs\<close>

text \<open>
  A peer, an instance and a configuration with nothing set, and collaborators that agree
  with the Go libraries on the strings of the samples below: \<^verbatim>\<open>validator\<close> asks for the two
  fields tagged \<^verbatim>\<open>required\<close>, and the decoder gives back the one configuration \<open>c\<close>.
\<close>

definition no_peer :: Peer where
  "no_peer = \<lparr>strings = Map.empty, ints = Map.empty, bools = Map.empty, slices = Map.empty, maps = Map.empty\<rparr>"

definition no_config :: Config where
  "no_config =
     \<lparr>Hostname = ''router1'', ASN = 65530, RouterID = ''192.0.2.1'', Prefixes = [],
      RTRServer = ''rtr.rpki.cloudflare.com:8282'', Peers = [], Templates = [],
      VRRPInstances = [], BFDInstances = [],
      Augments = \<lparr>Statics = [], SRDCommunities = [], SRDStandardCommunities = [],
                  SRDLargeCommunities = [], Statics4 = Map.empty, Statics6 = Map.empty\<rparr>,
      RTRServerHost = '''', RTRServerPort = 0, Prefixes4 = [], Prefixes6 = [], QueryNVRS = False\<rparr>"

definition required_fields :: "Config \<Rightarrow> string option" where
  "required_fields c =
     (if ASN c = 0 then Some ''ASN is required''
      else if RouterID c = '''' then Some ''RouterID is required''
      else None)"

definition sample_cidr :: "string \<Rightarrow> bool option" where
  "sample_cidr s =
     (if s \<in> set [''192.0.2.0/24'', ''198.51.100.0/24'', ''::ffff:192.0.2.0/120''] then Some True
      else if s \<in> set [''2001:db8::/32'', ''2001:db8:1::/48''] then Some False
      else None)"

definition sample_ip :: "string \<Rightarrow> bool" where
  "sample_ip s = (s \<in> set [''192.0.2.1'', ''192.0.2.2'', ''2001:db8::1''])"

definition env_of :: "Config \<Rightarrow> env" where
  "env_of c =
     \<lparr>Unmarshal = (\<lambda>blob. Inr c), Validate = required_fields, OsHostname = Inr ''localhost'',
      Sanitize = (\<lambda>s. s), ParseCIDR = sample_cidr, ParseIP = sample_ip\<rparr>"

text \<open>
  One template, \<open>upstream\<close>, and two peers: \<open>Peer1\<close> names the template and sets its
  neighbors, its local preference and its communities itself; \<open>Peer2\<close> names no template.
\<close>

definition sample_template :: Peer where
  "sample_template =
     no_peer\<lparr>ints := [''LocalPref'' \<mapsto> 90, ''Prepends'' \<mapsto> 2],
             bools := [''FilterIRR'' \<mapsto> True, ''AnnounceOriginated'' \<mapsto> True],
             slices := [''NeighborIPs'' \<mapsto> [''192.0.2.9''], ''Prefixes'' \<mapsto> [''192.0.2.0/24'', ''2001:db8::/32'', ''198.51.100.0/24'']]\<rparr>"

definition sample_peer1 :: Peer where
  "sample_peer1 =
     no_peer\<lparr>strings := [''Template'' \<mapsto> ''upstream''],
             ints := [''ASN'' \<mapsto> 65510, ''LocalPref'' \<mapsto> 120],
             bools := [''FilterNeverViaRouteServers'' \<mapsto> False],
             slices := [''NeighborIPs'' \<mapsto> [''192.0.2.2'', ''2001:db8::1''],
                        ''ImportCommunities'' \<mapsto> [''100,200'', ''100:200:300'', ''65535,0'']]\<rparr>"

definition sample_peer2 :: Peer where
  "sample_peer2 =
     no_peer\<lparr>ints := [''ASN'' \<mapsto> 65520],
             bools := [''AnnounceOriginated'' \<mapsto> True],
             slices := [''NeighborIPs'' \<mapsto> [''192.0.2.1'']]\<rparr>"

definition sample_config :: Config where
  "sample_config =
     no_config\<lparr>Prefixes := [''192.0.2.0/24'', ''2001:db8::/32'', ''192.0.2.0/24''],
               Templates := [(''upstream'', Some sample_template)],
               Peers := [(''Peer1'', Some sample_peer1), (''Peer2'', Some sample_peer2)]\<rparr>"

text \<open>
  The same configuration with no origin prefixes and with the flag of \<open>Peer1\<close> set in
  the document; a configuration whose template names a template; and one whose peer leaves
  its neighbors to its template.
\<close>

definition sample_no_origin :: Config where
  "sample_no_origin =
     sample_config\<lparr>Prefixes := [],
       Peers := [(''Peer1'', Some (sample_peer1\<lparr>bools := (bools sample_peer1)(''AnnounceOriginated'' \<mapsto> True)\<rparr>)),
                 (''Peer2'', Some sample_peer2)]\<rparr>"

definition sample_nested :: Config where
  "sample_nested =
     sample_config\<lparr>Templates := [(''upstream'', Some (sample_template\<lparr>strings := [''Template'' \<mapsto> ''base'']\<rparr>))]\<rparr>"

definition sample_orphan :: Config where
  "sample_orphan =
     sample_config\<lparr>Peers := [(''Peer3'', Some (no_peer\<lparr>strings := [''Template'' \<mapsto> ''upstream''],
                                                      ints := [''ASN'' \<mapsto> 65510]\<rparr>))]\<rparr>"


text \<open>
  Inputs that are rejected: a document that the decoder refuses, a configuration without
  an ASN, an origin prefix and a prefix of a peer with a mask that is too long, and a
  community of two parts that are separated by a colon.
\<close>

definition env_undecodable :: env where
  "env_undecodable = (env_of no_config)\<lparr>Unmarshal := (\<lambda>blob. Inl ''yaml: did not find expected key'')\<rparr>"

definition sample_no_asn :: Config where
  "sample_no_asn = sample_config\<lparr>ASN := 0\<rparr>"

definition sample_bad_origin :: Config where
  "sample_bad_origin = sample_config\<lparr>Prefixes := [''192.0.2.0/24'', ''192.0.2.0/33'', ''2001:db8::/32'']\<rparr>"

definition sample_bad_prefix :: Config where
  "sample_bad_prefix =
     sample_config\<lparr>Peers := [(''Peer2'', Some (sample_peer2\<lparr>slices := (slices sample_peer2)
        (''Prefixes'' \<mapsto> [''2001:db8:1::/48'', ''192.0.2.0/33''])\<rparr>))]\<rparr>"

definition sample_bad_community :: Config where
  "sample_bad_community =
     sample_config\<lparr>Peers := [(''Peer2'', Some (sample_peer2\<lparr>slices := (slices sample_peer2)
        (''ExportCommunities'' \<mapsto> [''65000,100'', ''65000:100''])\<rparr>))]\<rparr>"

section \<open>Properties of the community classifier\<close>

lemma Split_ne: "Split s c \<noteq> []"
  by (induction s) (auto split: list.splits)

lemma Split_length: "length (Split s c) = Suc (count_list s c)"
  using Split_ne by (induction s) (auto split: list.splits)

lemma Split_chars: "x \<in> set s \<Longrightarrow> x \<noteq> c \<Longrightarrow> \<exists>p \<in> set (Split s c). x \<in> set p"
proof (induction s)
  case Nil then show ?case by simp
next
  case (Cons a s)
  have ne: "Split s c \<noteq> []" by (rule Split_ne)
  then obtain h t where ht: "Split s c = h # t" by (cases "Split s c") auto
  show ?case using Cons ht by (auto split: if_splits)
qed

lemma is_digit_not_sep: "is_digit ch \<Longrightarrow> ch \<noteq> CHR '','' \<and> ch \<noteq> CHR '':''"
  by (auto simp: is_digit_def)

lemma Atoi_no_comma: "Atoi s = Some n \<Longrightarrow> CHR '','' \<notin> set s"
proof -
  assume a: "Atoi s = Some n"
  show ?thesis
  proof (cases s)
    case Nil then show ?thesis by simp
  next
    case (Cons h t)
    show ?thesis using a Cons
      by (auto simp: Atoi_def Let_def list_all_iff is_digit_def split: if_splits)
  qed
qed

lemma int_in_range_no_comma: "int_in_range b s \<Longrightarrow> CHR '','' \<notin> set s"
  by (auto simp: int_in_range_def split: option.splits dest: Atoi_no_comma)

lemma large_form_no_comma: "large_form s \<Longrightarrow> CHR '','' \<notin> set s"
proof
  assume lf: "large_form s" and mem: "CHR '','' \<in> set s"
  from Split_chars[OF mem, of "CHR '':''"] obtain p where p: "p \<in> set (Split s CHR '':'')" "CHR '','' \<in> set p"
    by auto
  from lf obtain a b c where abc: "Split s CHR '':'' = [a, b, c]" "int_in_range 4294967295 a" "int_in_range 4294967295 b" "int_in_range 4294967295 c"
    by (auto simp: large_form_def split: list.splits)
  with p show False by (auto dest: int_in_range_no_comma)
qed

lemma large_form_not_two: "large_form s \<Longrightarrow> length (Split s CHR '','') = 1"
  using large_form_no_comma[of s] by (simp add: Split_length)

lemma cat_standard: "(categorizeCommunity s = ''standard'') = standard_form s"
  by (simp add: categorizeCommunity_def standard_form_def int_in_range_def Let_def split: list.splits option.splits)

lemma cat_large: "(categorizeCommunity s = ''large'') = large_form s"
proof (cases "length (Split s CHR '','') = 2")
  case True
  then have "\<not> large_form s" using large_form_not_two[of s] by auto
  moreover have "categorizeCommunity s \<noteq> ''large''" using True
    by (simp add: categorizeCommunity_def Let_def split: option.splits)
  ultimately show ?thesis by simp
next
  case False
  then show ?thesis
    by (simp add: categorizeCommunity_def large_form_def int_in_range_def Let_def split: list.splits option.splits)
qed

lemma cat_values: "categorizeCommunity s = ''standard'' \<or> categorizeCommunity s = ''large'' \<or> categorizeCommunity s = ''''"
  by (simp add: categorizeCommunity_def Let_def split: option.splits)

text \<open>
  Claim C1. Classification answers \<open>standard\<close> exactly for the tokens whose split at the
  comma has two components that are integers of 0 to 65535, \<open>large\<close> exactly for the tokens
  whose split at the colon has three components that are integers of 0 to 4294967295, and
  the empty string (invalid) in every other case.
\<close>

theorem categorizeCommunity_spec:
  "(categorizeCommunity s = ''standard'') = standard_form s \<and>
   (categorizeCommunity s = ''large'') = large_form s \<and>
   (categorizeCommunity s = '''') = (\<not> standard_form s \<and> \<not> large_form s)"
  using cat_standard[of s] cat_large[of s] cat_values[of s] by auto

section \<open>Properties of the steps of the loader\<close>

lemma ex_bool [simp]: "\<exists>y::bool. y" "Ex Not"
  by auto

subsection \<open>Outcomes\<close>

lemma and_then_simps [simp]:
  "and_then (Ok x) f = f x"
  "and_then (Err m) f = Err m"
  "and_then (Fatal m) f = Fatal m"
  "and_then Panic f = Panic"
  by (simp_all add: and_then_def)

lemma and_then_Ok_iff: "(and_then m f = Ok y) = (\<exists>x. m = Ok x \<and> f x = Ok y)"
  by (cases m) simp_all

lemma and_then_Err_iff: "(and_then m f = Err msg) = (m = Err msg \<or> (\<exists>x. m = Ok x \<and> f x = Err msg))"
  by (cases m) auto

subsection \<open>Fields\<close>

lemma field_value_copy_field:
  "field_value (copy_field t f p) k n =
     (if field_kind f = k \<and> field_name f = n then field_value t k n else field_value p k n)"
  by (cases k; cases "field_kind f") (auto simp add: field_value_def copy_field_def Let_def)

lemma field_value_merge_field:
  "field_value (merge_field t f p) k n =
     (if field_kind f = k \<and> field_name f = n \<and> n \<noteq> ''Template'' \<and> field_value p k n = None
      then field_value t k n else field_value p k n)"
  by (auto simp: merge_field_def IsNil_def field_value_copy_field Let_def)

lemma field_value_merge_fields:
  "field_value (merge_fields fs t p) k n =
     (if n \<noteq> ''Template'' \<and> field_value p k n = None \<and> (\<exists>f\<in>set fs. field_kind f = k \<and> field_name f = n)
      then field_value t k n else field_value p k n)"
proof (induction fs arbitrary: p)
  case Nil
  show ?case by simp
next
  case (Cons g gs)
  let ?S = "\<lambda>f. field_kind f = k \<and> field_name f = n"
  have step: "field_value (merge_fields (g # gs) t p) k n =
      (if n \<noteq> ''Template'' \<and> field_value (merge_field t g p) k n = None \<and> (\<exists>f\<in>set gs. ?S f)
       then field_value t k n else field_value (merge_field t g p) k n)"
    by (simp only: merge_fields.simps Cons.IH)
  have ex: "(\<exists>f\<in>set (g # gs). ?S f) = (?S g \<or> (\<exists>f\<in>set gs. ?S f))"
    by simp
  show ?case
  proof (cases "field_kind g = k \<and> field_name g = n \<and> n \<noteq> ''Template'' \<and> field_value p k n = None")
    case True
    then have m: "field_value (merge_field t g p) k n = field_value t k n"
      by (simp add: field_value_merge_field)
    show ?thesis unfolding step ex m using True by simp
  next
    case False
    then have m: "field_value (merge_field t g p) k n = field_value p k n"
      by (simp only: field_value_merge_field if_False)
    show ?thesis unfolding step ex m using False by auto
  qed
qed

lemma field_value_updates [simp]:
  "field_value (p\<lparr>strings := ms\<rparr>) k n = (if k = KString then map_option VString (ms n) else field_value p k n)"
  "field_value (p\<lparr>ints := mi\<rparr>) k n = (if k = KInt then map_option VInt (mi n) else field_value p k n)"
  "field_value (p\<lparr>bools := mb\<rparr>) k n = (if k = KBool then map_option VBool (mb n) else field_value p k n)"
  "field_value (p\<lparr>slices := ml\<rparr>) k n = (if k = KSlice then map_option VSlice (ml n) else field_value p k n)"
  "field_value (p\<lparr>maps := mm\<rparr>) k n = (if k = KMap then map_option VMap (mm n) else field_value p k n)"
  by (cases k; simp add: field_value_def)+

lemma field_value_simps:
  "field_value p KString n = map_option VString (strings p n)"
  "field_value p KInt n = map_option VInt (ints p n)"
  "field_value p KBool n = map_option VBool (bools p n)"
  "field_value p KSlice n = map_option VSlice (slices p n)"
  "field_value p KMap n = map_option VMap (maps p n)"
  by (simp_all add: field_value_def)

lemma set_default_cases [consumes 1, case_names skip string int bool option]:
  assumes "set_default f p = Ok p'"
  obtains "p' = p" "\<not> has_default f \<or> ((\<not> IsNil p f \<or> field_kind f = KSlice) \<and> field_kind f \<noteq> KBool) \<or> (IsNil p f \<and> field_kind f = KSlice)"
  | "has_default f" "IsNil p f" "field_kind f = KString"
    "p' = p\<lparr>strings := (strings p)(field_name f \<mapsto> default_tag f)\<rparr>"
  | v where "has_default f" "IsNil p f" "field_kind f = KInt"
    "p' = p\<lparr>ints := (ints p)(field_name f \<mapsto> v)\<rparr>"
  | v where "has_default f" "IsNil p f" "field_kind f = KBool"
    "p' = p\<lparr>bools := (bools p)(field_name f \<mapsto> v)\<rparr>"
  | opts where "has_default f" "\<not> IsNil p f" "field_kind f = KBool"
    "slices p ''BooleanOptions'' = Some opts"
    "p' = p\<lparr>slices := (slices p)(''BooleanOptions'' \<mapsto> opts @ [yaml_tag f])\<rparr>"
  using assms
  by (auto simp: set_default_def has_default_def Let_def split: if_splits kind.splits option.splits)

lemma set_default_frame:
  assumes "set_default f p = Ok p'" and "field_value p k n \<noteq> None"
    and "\<not> (k = KSlice \<and> n = ''BooleanOptions'')"
  shows "field_value p' k n = field_value p k n"
  using assms by (cases rule: set_default_cases) (auto simp: IsNil_def field_value_simps)

lemma set_default_keeps:
  assumes "set_default f p = Ok p'" and "field_value p k n \<noteq> None"
  shows "field_value p' k n \<noteq> None"
  using assms by (cases rule: set_default_cases) (auto simp: IsNil_def field_value_simps)

lemma set_default_other:
  assumes "set_default f p = Ok p'" and "\<not> (field_kind f = k \<and> field_name f = n)"
    and "\<not> (k = KSlice \<and> n = ''BooleanOptions'')"
  shows "field_value p' k n = field_value p k n"
  using assms by (cases rule: set_default_cases) (auto simp: IsNil_def field_value_simps)

lemma set_default_no_default:
  assumes "set_default f p = Ok p'" and "\<not> has_default f"
  shows "p' = p"
  using assms by (cases rule: set_default_cases) auto

lemma set_default_sets:
  assumes "set_default f p = Ok p'" and "has_default f" and "field_kind f \<noteq> KSlice"
  shows "field_value p' (field_kind f) (field_name f) \<noteq> None"
  using assms by (cases rule: set_default_cases) (auto simp: IsNil_def field_value_simps)

lemma set_defaults_frame:
  "set_defaults fs p = Ok p' \<Longrightarrow> field_value p k n \<noteq> None \<Longrightarrow>
   \<not> (k = KSlice \<and> n = ''BooleanOptions'') \<Longrightarrow> field_value p' k n = field_value p k n"
proof (induction fs arbitrary: p)
  case Nil
  then show ?case by simp
next
  case (Cons g gs)
  from Cons.prems(1) obtain p1 where s: "set_default g p = Ok p1" and r: "set_defaults gs p1 = Ok p'"
    by (auto simp: and_then_Ok_iff)
  have e: "field_value p1 k n = field_value p k n"
    using set_default_frame[OF s Cons.prems(2) Cons.prems(3)] .
  with Cons.prems(2) have "field_value p1 k n \<noteq> None" by simp
  from Cons.IH[OF r this Cons.prems(3)] e show ?case by simp
qed

lemma set_defaults_keeps:
  "set_defaults fs p = Ok p' \<Longrightarrow> field_value p k n \<noteq> None \<Longrightarrow> field_value p' k n \<noteq> None"
proof (induction fs arbitrary: p)
  case Nil
  then show ?case by simp
next
  case (Cons g gs)
  from Cons.prems(1) obtain p1 where s: "set_default g p = Ok p1" and r: "set_defaults gs p1 = Ok p'"
    by (auto simp: and_then_Ok_iff)
  from Cons.IH[OF r set_default_keeps[OF s Cons.prems(2)]] show ?case .
qed

lemma set_defaults_sets:
  "set_defaults fs p = Ok p' \<Longrightarrow> f \<in> set fs \<Longrightarrow> has_default f \<Longrightarrow> field_kind f \<noteq> KSlice \<Longrightarrow>
   field_value p' (field_kind f) (field_name f) \<noteq> None"
proof (induction fs arbitrary: p)
  case Nil
  then show ?case by simp
next
  case (Cons g gs)
  from Cons.prems(1) obtain p1 where s: "set_default g p = Ok p1" and r: "set_defaults gs p1 = Ok p'"
    by (auto simp: and_then_Ok_iff)
  show ?case
  proof (cases "f = g")
    case True
    with set_default_sets[OF s] Cons.prems have "field_value p1 (field_kind f) (field_name f) \<noteq> None"
      by simp
    from set_defaults_keeps[OF r this] show ?thesis .
  next
    case False
    with Cons.prems(2) have "f \<in> set gs" by simp
    from Cons.IH[OF r this Cons.prems(3) Cons.prems(4)] show ?thesis .
  qed
qed

lemma set_defaults_untouched:
  "set_defaults fs p = Ok p' \<Longrightarrow>
   (\<forall>f\<in>set fs. field_kind f = k \<and> field_name f = n \<longrightarrow> \<not> has_default f) \<Longrightarrow>
   \<not> (k = KSlice \<and> n = ''BooleanOptions'') \<Longrightarrow> field_value p' k n = field_value p k n"
proof (induction fs arbitrary: p)
  case Nil
  then show ?case by simp
next
  case (Cons g gs)
  from Cons.prems(1) obtain p1 where s: "set_default g p = Ok p1" and r: "set_defaults gs p1 = Ok p'"
    by (auto simp: and_then_Ok_iff)
  have e: "field_value p1 k n = field_value p k n"
  proof (cases "field_kind g = k \<and> field_name g = n")
    case True
    with Cons.prems(2) have "\<not> has_default g" by simp
    with set_default_no_default[OF s] show ?thesis by simp
  next
    case False
    from set_default_other[OF s False Cons.prems(3)] show ?thesis .
  qed
  from Cons.prems(2) have "\<forall>f\<in>set gs. field_kind f = k \<and> field_name f = n \<longrightarrow> \<not> has_default f"
    by simp
  from Cons.IH[OF r this Cons.prems(3)] e show ?case by simp
qed

lemma set_default_succeeds:
  assumes "default_ok f" and "slices p ''BooleanOptions'' \<noteq> None"
  shows "\<exists>p'. set_default f p = Ok p' \<and> slices p' ''BooleanOptions'' \<noteq> None"
  using assms
  by (auto simp: set_default_def default_ok_def Let_def split: if_splits kind.splits)

lemma set_defaults_succeeds:
  "list_all default_ok fs \<Longrightarrow> slices p ''BooleanOptions'' \<noteq> None \<Longrightarrow> \<exists>p'. set_defaults fs p = Ok p'"
proof (induction fs arbitrary: p)
  case Nil
  then show ?case by simp
next
  case (Cons g gs)
  from Cons.prems have "default_ok g" by simp
  from set_default_succeeds[OF this Cons.prems(2)] obtain p1
    where s: "set_default g p = Ok p1" and b: "slices p1 ''BooleanOptions'' \<noteq> None" by blast
  from Cons.prems have "list_all default_ok gs" by simp
  from Cons.IH[OF this b] s show ?case by simp
qed

lemma set_default_never_Err: "set_default f p \<noteq> Err msg"
  by (simp add: set_default_def Let_def split: kind.splits option.splits)

lemma set_default_Panic: "set_default f p = Panic \<Longrightarrow> slices p ''BooleanOptions'' = None"
  by (simp add: set_default_def Let_def split: kind.splits option.splits if_splits)

lemma set_default_keeps_options:
  assumes "set_default f p = Ok p'" and "slices p ''BooleanOptions'' \<noteq> None"
  shows "slices p' ''BooleanOptions'' \<noteq> None"
  using set_default_keeps[OF assms(1), of KSlice "''BooleanOptions''"] assms(2)
  by (simp add: field_value_simps)

lemma set_defaults_tagless:
  "f \<in> set fs \<Longrightarrow> default_tag f = '''' \<Longrightarrow> slices p ''BooleanOptions'' \<noteq> None \<Longrightarrow>
   \<exists>msg. set_defaults fs p = Fatal msg"
proof (induction fs arbitrary: p)
  case Nil
  then show ?case by simp
next
  case (Cons g gs)
  show ?case
  proof (cases "set_default g p")
    case (Ok p1)
    then have "default_tag g \<noteq> ''''" by (auto simp: set_default_def Let_def)
    with Cons.prems have "f \<in> set gs" by auto
    from Cons.IH[OF this Cons.prems(2) set_default_keeps_options[OF Ok Cons.prems(3)]] Ok
    show ?thesis by simp
  next
    case (Err m)
    with set_default_never_Err show ?thesis by blast
  next
    case (Fatal m)
    then show ?thesis by simp
  next
    case Panic
    from set_default_Panic[OF this] Cons.prems(3) show ?thesis by simp
  qed
qed

subsection \<open>The first pass over a peer\<close>

lemma assign_template_cases [consumes 1, case_names none template]:
  assumes "assign_template ts p = Ok p'"
  obtains "strings p ''Template'' = None \<or> strings p ''Template'' = Some ''''" "p' = p"
  | name t where "strings p ''Template'' = Some name" "name \<noteq> ''''"
      "map_of ts name = Some (Some t)" "p' = merge_fields peer_fields t p"
  using assms
  by (auto simp: assign_template_def split: option.splits if_splits)

lemma assign_template_outcome:
  "(\<exists>p'. assign_template ts p = Ok p') \<or> (\<exists>msg. assign_template ts p = Fatal msg)"
  by (auto simp: assign_template_def split: option.splits)

lemma first_pass_Ok:
  assumes "first_pass e ts n p = Ok p1"
  obtains ips p3 where "slices p ''NeighborIPs'' = Some ips" "ips \<noteq> []"
    "assign_template ts (prepared e n p) = Ok p3" "set_defaults peer_fields p3 = Ok p1"
proof -
  from assms have nb: "\<not> (case slices p ''NeighborIPs'' of None \<Rightarrow> True | Some ips \<Rightarrow> length ips < 1)"
    by (auto simp: first_pass_def Let_def split: if_splits)
  then obtain ips where ips: "slices p ''NeighborIPs'' = Some ips" "ips \<noteq> []"
    by (cases "slices p ''NeighborIPs''") auto
  from assms nb have "and_then (assign_template ts (prepared e n p)) (set_defaults peer_fields) = Ok p1"
    by (simp add: first_pass_def Let_def prepared_def)
  then obtain p3 where "assign_template ts (prepared e n p) = Ok p3" "set_defaults peer_fields p3 = Ok p1"
    by (auto simp: and_then_Ok_iff)
  with ips that show ?thesis by blast
qed

lemma field_value_prepared:
  "\<not> (k = KString \<and> n = ''ProtocolName'') \<Longrightarrow> \<not> (k = KSlice \<and> n = ''BooleanOptions'') \<Longrightarrow>
   field_value (prepared e name p) k n = field_value p k n"
  by (cases k) (auto simp: prepared_def field_value_simps)

lemma first_pass_no_neighbors:
  "slices p ''NeighborIPs'' = None \<or> slices p ''NeighborIPs'' = Some [] \<Longrightarrow>
   first_pass e ts n p = Fatal (''['' @ n @ ''] has no neighbors defined'')"
  by (auto simp: first_pass_def Let_def)

lemma first_pass_never_Err: "first_pass e ts n p \<noteq> Err msg"
proof -
  have a: "\<And>q. set_defaults fs q \<noteq> Err msg" for fs
  proof (induction fs)
    case Nil
    show ?case by simp
  next
    case (Cons g gs)
    show ?case using Cons set_default_never_Err[of g q msg]
      by (cases "set_default g q") auto
  qed
  show ?thesis
    using assign_template_outcome[of ts "prepared e n p"] a[of peer_fields]
    by (auto simp: first_pass_def Let_def prepared_def and_then_Err_iff)
qed

subsection \<open>The second pass over a peer\<close>

lemma appended_step: "appended (Some ((case old of None \<Rightarrow> [] | Some xs \<Rightarrow> xs) @ [x])) ys = appended old (x # ys)"
  by (simp add: appended_def)

lemma appended_Nil [simp]: "appended old [] = old"
  by (simp add: appended_def)

lemma append_slice_fields [simp]:
  "strings (append_slice fld x p) = strings p"
  "ints (append_slice fld x p) = ints p"
  "bools (append_slice fld x p) = bools p"
  "maps (append_slice fld x p) = maps p"
  "slices (append_slice fld x p) n =
     (if n = fld then Some ((case slices p fld of None \<Rightarrow> [] | Some xs \<Rightarrow> xs) @ [x]) else slices p n)"
  by (simp_all add: append_slice_def)

lemma prefix_sets_Ok:
  "prefix_sets e xs p = Ok p' \<Longrightarrow>
     list_all (\<lambda>x. ParseCIDR e x \<noteq> None) xs \<and>
     strings p' = strings p \<and> ints p' = ints p \<and> bools p' = bools p \<and> maps p' = maps p \<and>
     (\<forall>n. slices p' n =
        (if n = ''PrefixSet4'' then appended (slices p n) (filter (is_v4 e) xs)
         else if n = ''PrefixSet6'' then appended (slices p n) (filter (is_v6 e) xs)
         else slices p n))"
proof (induction xs arbitrary: p)
  case Nil
  then show ?case by simp
next
  case (Cons x xs)
  from Cons.prems obtain has4 where h: "ParseCIDR e x = Some has4"
    by (cases "ParseCIDR e x") auto
  show ?case
  proof (cases has4)
    case True
    with h Cons.prems have r: "prefix_sets e xs (append_slice ''PrefixSet4'' x p) = Ok p'" by simp
    from h True have v: "is_v4 e x" "\<not> is_v6 e x" by (simp_all add: is_v4_def is_v6_def)
    from Cons.IH[OF r] h v show ?thesis
      by (simp add: appended_step)
  next
    case False
    with h Cons.prems have r: "prefix_sets e xs (append_slice ''PrefixSet6'' x p) = Ok p'" by simp
    from h False have v: "\<not> is_v4 e x" "is_v6 e x" by (simp_all add: is_v4_def is_v6_def)
    from Cons.IH[OF r] h v show ?thesis
      by (simp add: appended_step)
  qed
qed

lemma prefix_sets_Err:
  "prefix_sets e xs p = Err msg \<Longrightarrow>
   \<exists>ys x zs. xs = ys @ x # zs \<and> list_all (\<lambda>y. ParseCIDR e y \<noteq> None) ys \<and> ParseCIDR e x = None \<and>
     msg = ''Invalid prefix: '' @ x"
proof (induction xs arbitrary: p)
  case Nil
  then show ?case by simp
next
  case (Cons a xs)
  show ?case
  proof (cases "ParseCIDR e a")
    case None
    with Cons.prems have "msg = ''Invalid prefix: '' @ a" by simp
    with None have "a # xs = [] @ a # xs \<and> list_all (\<lambda>y. ParseCIDR e y \<noteq> None) [] \<and> ParseCIDR e a = None \<and> msg = ''Invalid prefix: '' @ a"
      by simp
    then show ?thesis by blast
  next
    case (Some has4)
    with Cons.prems obtain p1 where "prefix_sets e xs p1 = Err msg"
      by (cases has4) auto
    from Cons.IH[OF this] obtain ys x zs where
      "xs = ys @ x # zs" "list_all (\<lambda>y. ParseCIDR e y \<noteq> None) ys" "ParseCIDR e x = None" "msg = ''Invalid prefix: '' @ x"
      by blast
    with Some have "a # xs = (a # ys) @ x # zs \<and> list_all (\<lambda>y. ParseCIDR e y \<noteq> None) (a # ys) \<and> ParseCIDR e x = None \<and> msg = ''Invalid prefix: '' @ x"
      by simp
    then show ?thesis by blast
  qed
qed

lemma prefix_sets_outcome:
  "(\<exists>p'. prefix_sets e xs p = Ok p') \<or> (\<exists>msg. prefix_sets e xs p = Err msg)"
  by (induction xs arbitrary: p) (auto split: option.splits)

lemma prefix_sets_succeeds:
  "list_all (\<lambda>x. ParseCIDR e x \<noteq> None) xs \<Longrightarrow> \<exists>p'. prefix_sets e xs p = Ok p'"
  by (induction xs arbitrary: p) (auto split: option.splits)

lemma categorize_communities_Ok:
  "categorize_communities what std lrg xs p = Ok p' \<Longrightarrow> std \<noteq> lrg \<Longrightarrow>
     list_all (\<lambda>x. is_standard x \<or> is_large x) xs \<and>
     strings p' = strings p \<and> ints p' = ints p \<and> bools p' = bools p \<and> maps p' = maps p \<and>
     (\<forall>n. slices p' n =
        (if n = std then appended (slices p n) (filter is_standard xs)
         else if n = lrg then appended (slices p n) (map rewritten (filter is_large xs))
         else slices p n))"
proof (induction xs arbitrary: p)
  case Nil
  then show ?case by simp
next
  case (Cons x xs)
  show ?case
  proof (cases "categorizeCommunity x = ''standard''")
    case True
    with Cons.prems have r: "categorize_communities what std lrg xs (append_slice std x p) = Ok p'"
      by (simp add: Let_def)
    from True have v: "is_standard x" "\<not> is_large x" by (simp_all add: is_standard_def is_large_def)
    from Cons.IH[OF r Cons.prems(2)] v Cons.prems(2) show ?thesis
      by (simp add: appended_step)
  next
    case False
    show ?thesis
    proof (cases "categorizeCommunity x = ''large''")
      case True
      with False Cons.prems
      have r: "categorize_communities what std lrg xs (append_slice lrg (rewritten x) p) = Ok p'"
        by (simp add: Let_def rewritten_def)
      from True have v: "\<not> is_standard x" "is_large x" by (simp_all add: is_standard_def is_large_def)
      from Cons.IH[OF r Cons.prems(2)] v Cons.prems(2) show ?thesis
        by (simp add: appended_step)
    next
      case nl: False
      with False Cons.prems show ?thesis by (simp add: Let_def)
    qed
  qed
qed

lemma categorize_communities_Err:
  "categorize_communities what std lrg xs p = Err msg \<Longrightarrow>
   \<exists>ys x zs. xs = ys @ x # zs \<and> list_all (\<lambda>y. is_standard y \<or> is_large y) ys \<and>
     \<not> is_standard x \<and> \<not> is_large x \<and> msg = ''Invalid '' @ what @ '' community: '' @ x"
proof (induction xs arbitrary: p)
  case Nil
  then show ?case by simp
next
  case (Cons a xs)
  show ?case
  proof (cases "is_standard a \<or> is_large a")
    case True
    with Cons.prems obtain p1 where "categorize_communities what std lrg xs p1 = Err msg"
      by (auto simp: Let_def is_standard_def is_large_def split: if_splits)
    from Cons.IH[OF this] obtain ys x zs where
      "xs = ys @ x # zs" "list_all (\<lambda>y. is_standard y \<or> is_large y) ys"
      "\<not> is_standard x" "\<not> is_large x" "msg = ''Invalid '' @ what @ '' community: '' @ x"
      by blast
    with True have "a # xs = (a # ys) @ x # zs \<and> list_all (\<lambda>y. is_standard y \<or> is_large y) (a # ys) \<and>
       \<not> is_standard x \<and> \<not> is_large x \<and> msg = ''Invalid '' @ what @ '' community: '' @ x"
      by simp
    then show ?thesis by blast
  next
    case False
    with Cons.prems have "msg = ''Invalid '' @ what @ '' community: '' @ a"
      by (simp add: Let_def is_standard_def is_large_def)
    with False have "a # xs = [] @ a # xs \<and> list_all (\<lambda>y. is_standard y \<or> is_large y) [] \<and>
       \<not> is_standard a \<and> \<not> is_large a \<and> msg = ''Invalid '' @ what @ '' community: '' @ a"
      by simp
    then show ?thesis by blast
  qed
qed

lemma categorize_communities_outcome:
  "(\<exists>p'. categorize_communities what std lrg xs p = Ok p') \<or>
   (\<exists>msg. categorize_communities what std lrg xs p = Err msg)"
  by (induction xs arbitrary: p) (auto simp: Let_def)

lemma categorize_communities_succeeds:
  "list_all (\<lambda>x. is_standard x \<or> is_large x) xs \<Longrightarrow> \<exists>p'. categorize_communities what std lrg xs p = Ok p'"
  by (induction xs arbitrary: p) (auto simp: Let_def is_standard_def is_large_def)

lemma community_field_Ok:
  assumes "community_field what src std lrg p = Ok p'" and "std \<noteq> lrg"
  shows "list_all (\<lambda>x. is_standard x \<or> is_large x) (elements p src) \<and>
     strings p' = strings p \<and> ints p' = ints p \<and> bools p' = bools p \<and> maps p' = maps p \<and>
     (\<forall>n. slices p' n =
        (if n = std then appended (slices p n) (filter is_standard (elements p src))
         else if n = lrg then appended (slices p n) (map rewritten (filter is_large (elements p src)))
         else slices p n))"
proof (cases "slices p src")
  case None
  with assms show ?thesis by (simp add: community_field_def elements_def)
next
  case (Some xs)
  with assms have "categorize_communities what std lrg xs p = Ok p'"
    by (simp add: community_field_def)
  from categorize_communities_Ok[OF this assms(2)] Some show ?thesis
    by (simp add: elements_def)
qed

lemma prefix_field_Ok:
  assumes "(case slices p ''Prefixes'' of None \<Rightarrow> Ok p | Some prefixes \<Rightarrow> prefix_sets e prefixes p) = Ok p'"
  shows "list_all (\<lambda>x. ParseCIDR e x \<noteq> None) (elements p ''Prefixes'') \<and>
     strings p' = strings p \<and> ints p' = ints p \<and> bools p' = bools p \<and> maps p' = maps p \<and>
     (\<forall>n. slices p' n =
        (if n = ''PrefixSet4'' then appended (slices p n) (filter (is_v4 e) (elements p ''Prefixes''))
         else if n = ''PrefixSet6'' then appended (slices p n) (filter (is_v6 e) (elements p ''Prefixes''))
         else slices p n))"
proof (cases "slices p ''Prefixes''")
  case None
  with assms show ?thesis by (simp add: elements_def)
next
  case (Some xs)
  with assms have "prefix_sets e xs p = Ok p'" by simp
  from prefix_sets_Ok[OF this] Some show ?thesis
    by (simp add: elements_def)
qed

lemma check_originated_Ok:
  assumes "check_originated b p = Ok p'"
  shows "strings p' = strings p \<and> ints p' = ints p \<and> slices p' = slices p \<and> maps p' = maps p \<and>
     (\<forall>n. bools p' n = (if b \<and> n = ''AnnounceOriginated'' then Some False else bools p n)) \<and>
     (b \<longrightarrow> bools p ''AnnounceOriginated'' \<noteq> None)"
  using assms
  by (auto simp: check_originated_def split: if_splits option.splits)

lemma second_pass_Ok:
  assumes "second_pass e b p = Ok p'"
  shows "lists_ok e p \<and> strings p' = strings p \<and> ints p' = ints p \<and> maps p' = maps p \<and>
     (\<forall>n. slices p' n = resolved_slice e p n) \<and>
     (\<forall>n. bools p' n = (if b \<and> n = ''AnnounceOriginated'' then Some False else bools p n)) \<and>
     (b \<longrightarrow> bools p ''AnnounceOriginated'' \<noteq> None)"
proof -
  from assms obtain p1 p2 p3 p4 p5 where
    s1: "(case slices p ''Prefixes'' of None \<Rightarrow> Ok p | Some prefixes \<Rightarrow> prefix_sets e prefixes p) = Ok p1" and
    s2: "community_field ''import'' ''ImportCommunities'' ''ImportStandardCommunities'' ''ImportLargeCommunities'' p1 = Ok p2" and
    s3: "community_field ''export'' ''ExportCommunities'' ''ExportStandardCommunities'' ''ExportLargeCommunities'' p2 = Ok p3" and
    s4: "community_field ''announce'' ''AnnounceCommunities'' ''AnnounceStandardCommunities'' ''AnnounceLargeCommunities'' p3 = Ok p4" and
    s5: "community_field ''remove'' ''RemoveCommunities'' ''RemoveStandardCommunities'' ''RemoveLargeCommunities'' p4 = Ok p5" and
    s6: "check_originated b p5 = Ok p'"
    unfolding second_pass_def and_then_Ok_iff by blast
  note r1 = prefix_field_Ok[OF s1]
  have r2: "list_all (\<lambda>x. is_standard x \<or> is_large x) (elements p1 ''ImportCommunities'') \<and>
     strings p2 = strings p1 \<and> ints p2 = ints p1 \<and> bools p2 = bools p1 \<and> maps p2 = maps p1 \<and>
     (\<forall>n. slices p2 n =
        (if n = ''ImportStandardCommunities'' then appended (slices p1 n) (filter is_standard (elements p1 ''ImportCommunities''))
         else if n = ''ImportLargeCommunities'' then appended (slices p1 n) (map rewritten (filter is_large (elements p1 ''ImportCommunities'')))
         else slices p1 n))"
    by (rule community_field_Ok[OF s2]) simp
  have r3: "list_all (\<lambda>x. is_standard x \<or> is_large x) (elements p2 ''ExportCommunities'') \<and>
     strings p3 = strings p2 \<and> ints p3 = ints p2 \<and> bools p3 = bools p2 \<and> maps p3 = maps p2 \<and>
     (\<forall>n. slices p3 n =
        (if n = ''ExportStandardCommunities'' then appended (slices p2 n) (filter is_standard (elements p2 ''ExportCommunities''))
         else if n = ''ExportLargeCommunities'' then appended (slices p2 n) (map rewritten (filter is_large (elements p2 ''ExportCommunities'')))
         else slices p2 n))"
    by (rule community_field_Ok[OF s3]) simp
  have r4: "list_all (\<lambda>x. is_standard x \<or> is_large x) (elements p3 ''AnnounceCommunities'') \<and>
     strings p4 = strings p3 \<and> ints p4 = ints p3 \<and> bools p4 = bools p3 \<and> maps p4 = maps p3 \<and>
     (\<forall>n. slices p4 n =
        (if n = ''AnnounceStandardCommunities'' then appended (slices p3 n) (filter is_standard (elements p3 ''AnnounceCommunities''))
         else if n = ''AnnounceLargeCommunities'' then appended (slices p3 n) (map rewritten (filter is_large (elements p3 ''AnnounceCommunities'')))
         else slices p3 n))"
    by (rule community_field_Ok[OF s4]) simp
  have r5: "list_all (\<lambda>x. is_standard x \<or> is_large x) (elements p4 ''RemoveCommunities'') \<and>
     strings p5 = strings p4 \<and> ints p5 = ints p4 \<and> bools p5 = bools p4 \<and> maps p5 = maps p4 \<and>
     (\<forall>n. slices p5 n =
        (if n = ''RemoveStandardCommunities'' then appended (slices p4 n) (filter is_standard (elements p4 ''RemoveCommunities''))
         else if n = ''RemoveLargeCommunities'' then appended (slices p4 n) (map rewritten (filter is_large (elements p4 ''RemoveCommunities'')))
         else slices p4 n))"
    by (rule community_field_Ok[OF s5]) simp
  note r6 = check_originated_Ok[OF s6]
  have e1: "elements p1 ''ImportCommunities'' = elements p ''ImportCommunities''"
    using r1 by (simp add: elements_def)
  have e2: "elements p2 ''ExportCommunities'' = elements p ''ExportCommunities''"
    using r1 r2 by (simp add: elements_def)
  have e3: "elements p3 ''AnnounceCommunities'' = elements p ''AnnounceCommunities''"
    using r1 r2 r3 by (simp add: elements_def)
  have e4: "elements p4 ''RemoveCommunities'' = elements p ''RemoveCommunities''"
    using r1 r2 r3 r4 by (simp add: elements_def)
  have ok: "lists_ok e p"
    using r1 r2 r3 r4 r5 e1 e2 e3 e4 by (simp add: lists_ok_def)
  have sl: "\<forall>n. slices p' n = resolved_slice e p n"
  proof
    fix n
    have "slices p' n = slices p5 n" using r6 by simp
    also have "slices p5 n = resolved_slice e p n"
      unfolding resolved_slice_def
      using r1 r2 r3 r4 r5 e1 e2 e3 e4 by simp
    finally show "slices p' n = resolved_slice e p n" .
  qed
  have others: "strings p' = strings p \<and> ints p' = ints p \<and> maps p' = maps p"
    using r1 r2 r3 r4 r5 r6 by simp
  have bl: "\<forall>n. bools p' n = (if b \<and> n = ''AnnounceOriginated'' then Some False else bools p n)"
    using r1 r2 r3 r4 r5 r6 by simp
  have ao: "b \<longrightarrow> bools p ''AnnounceOriginated'' \<noteq> None"
    using r1 r2 r3 r4 r5 r6 by simp
  from ok sl others bl ao show ?thesis by blast
qed

lemma second_pass_succeeds:
  assumes "lists_ok e p" and "b \<longrightarrow> bools p ''AnnounceOriginated'' \<noteq> None"
  shows "\<exists>p'. second_pass e b p = Ok p'"
proof -
  from assms(1) have l0: "list_all (\<lambda>x. ParseCIDR e x \<noteq> None) (elements p ''Prefixes'')"
    and l1: "list_all (\<lambda>x. is_standard x \<or> is_large x) (elements p ''ImportCommunities'')"
    and l2: "list_all (\<lambda>x. is_standard x \<or> is_large x) (elements p ''ExportCommunities'')"
    and l3: "list_all (\<lambda>x. is_standard x \<or> is_large x) (elements p ''AnnounceCommunities'')"
    and l4: "list_all (\<lambda>x. is_standard x \<or> is_large x) (elements p ''RemoveCommunities'')"
    by (simp_all add: lists_ok_def)
  have cf: "\<exists>q'. community_field what src std lrg q = Ok q'"
    if "list_all (\<lambda>x. is_standard x \<or> is_large x) (elements q src)" for what src std lrg q
    using that categorize_communities_succeeds[of "elements q src" what std lrg q]
    by (cases "slices q src") (auto simp: community_field_def elements_def)
  have "\<exists>p1. (case slices p ''Prefixes'' of None \<Rightarrow> Ok p | Some prefixes \<Rightarrow> prefix_sets e prefixes p) = Ok p1"
    using l0 prefix_sets_succeeds[of e "elements p ''Prefixes''" p]
    by (cases "slices p ''Prefixes''") (auto simp: elements_def)
  then obtain p1 where
    s1: "(case slices p ''Prefixes'' of None \<Rightarrow> Ok p | Some prefixes \<Rightarrow> prefix_sets e prefixes p) = Ok p1"
    by blast
  note r1 = prefix_field_Ok[OF s1]
  have "elements p1 ''ImportCommunities'' = elements p ''ImportCommunities''"
    using r1 by (simp add: elements_def)
  with l1 have "list_all (\<lambda>x. is_standard x \<or> is_large x) (elements p1 ''ImportCommunities'')" by simp
  from cf[OF this, of "''import''" "''ImportStandardCommunities''" "''ImportLargeCommunities''"] obtain p2 where
    s2: "community_field ''import'' ''ImportCommunities'' ''ImportStandardCommunities'' ''ImportLargeCommunities'' p1 = Ok p2"
    by blast
  have r2: "bools p2 = bools p1 \<and> (\<forall>n. slices p2 n =
        (if n = ''ImportStandardCommunities'' then appended (slices p1 n) (filter is_standard (elements p1 ''ImportCommunities''))
         else if n = ''ImportLargeCommunities'' then appended (slices p1 n) (map rewritten (filter is_large (elements p1 ''ImportCommunities'')))
         else slices p1 n))"
    using community_field_Ok[OF s2] by simp
  have "elements p2 ''ExportCommunities'' = elements p ''ExportCommunities''"
    using r1 r2 by (simp add: elements_def)
  with l2 have "list_all (\<lambda>x. is_standard x \<or> is_large x) (elements p2 ''ExportCommunities'')" by simp
  from cf[OF this, of "''export''" "''ExportStandardCommunities''" "''ExportLargeCommunities''"] obtain p3 where
    s3: "community_field ''export'' ''ExportCommunities'' ''ExportStandardCommunities'' ''ExportLargeCommunities'' p2 = Ok p3"
    by blast
  have r3: "bools p3 = bools p2 \<and> (\<forall>n. slices p3 n =
        (if n = ''ExportStandardCommunities'' then appended (slices p2 n) (filter is_standard (elements p2 ''ExportCommunities''))
         else if n = ''ExportLargeCommunities'' then appended (slices p2 n) (map rewritten (filter is_large (elements p2 ''ExportCommunities'')))
         else slices p2 n))"
    using community_field_Ok[OF s3] by simp
  have "elements p3 ''AnnounceCommunities'' = elements p ''AnnounceCommunities''"
    using r1 r2 r3 by (simp add: elements_def)
  with l3 have "list_all (\<lambda>x. is_standard x \<or> is_large x) (elements p3 ''AnnounceCommunities'')" by simp
  from cf[OF this, of "''announce''" "''AnnounceStandardCommunities''" "''AnnounceLargeCommunities''"] obtain p4 where
    s4: "community_field ''announce'' ''AnnounceCommunities'' ''AnnounceStandardCommunities'' ''AnnounceLargeCommunities'' p3 = Ok p4"
    by blast
  have r4: "bools p4 = bools p3 \<and> (\<forall>n. slices p4 n =
        (if n = ''AnnounceStandardCommunities'' then appended (slices p3 n) (filter is_standard (elements p3 ''AnnounceCommunities''))
         else if n = ''AnnounceLargeCommunities'' then appended (slices p3 n) (map rewritten (filter is_large (elements p3 ''AnnounceCommunities'')))
         else slices p3 n))"
    using community_field_Ok[OF s4] by simp
  have "elements p4 ''RemoveCommunities'' = elements p ''RemoveCommunities''"
    using r1 r2 r3 r4 by (simp add: elements_def)
  with l4 have "list_all (\<lambda>x. is_standard x \<or> is_large x) (elements p4 ''RemoveCommunities'')" by simp
  from cf[OF this, of "''remove''" "''RemoveStandardCommunities''" "''RemoveLargeCommunities''"] obtain p5 where
    s5: "community_field ''remove'' ''RemoveCommunities'' ''RemoveStandardCommunities'' ''RemoveLargeCommunities'' p4 = Ok p5"
    by blast
  have r5: "bools p5 = bools p4"
    using community_field_Ok[OF s5] by simp
  have "bools p5 = bools p" using r1 r2 r3 r4 r5 by simp
  with assms(2) have "\<exists>p'. check_originated b p5 = Ok p'"
    by (auto simp: check_originated_def)
  then obtain p' where s6: "check_originated b p5 = Ok p'" by blast
  have "second_pass e b p = Ok p'"
    unfolding second_pass_def using s1 s2 s3 s4 s5 s6 by simp
  then show ?thesis by blast
qed

lemma prefix_sets_never_Fatal: "prefix_sets e xs q \<noteq> Fatal msg"
  using prefix_sets_outcome[of e xs q] by auto

lemma categorize_communities_never_Fatal: "categorize_communities what std lrg xs q \<noteq> Fatal msg"
  using categorize_communities_outcome[of what std lrg xs q] by auto

lemma second_pass_never_Fatal: "second_pass e b p \<noteq> Fatal msg"
proof -
  have a: "and_then m f \<noteq> Fatal msg" if "m \<noteq> Fatal msg" "\<And>x. f x \<noteq> Fatal msg" for m :: "Peer res" and f :: "Peer \<Rightarrow> Peer res"
    using that by (cases m) auto
  have pf: "(case slices q ''Prefixes'' of None \<Rightarrow> Ok q | Some prefixes \<Rightarrow> prefix_sets e prefixes q) \<noteq> Fatal msg" for q
    using prefix_sets_never_Fatal by (cases "slices q ''Prefixes''") auto
  have cf: "community_field what src std lrg q \<noteq> Fatal msg" for what src std lrg q
    using categorize_communities_never_Fatal
    by (cases "slices q src") (auto simp: community_field_def)
  have co: "check_originated b q \<noteq> Fatal msg" for q
    by (simp add: check_originated_def split: option.splits)
  show ?thesis
    unfolding second_pass_def
    by (intro a pf cf co)
qed

subsection \<open>The loops over the peers\<close>

lemma first_loop_Ok:
  "first_loop e ts ps q = Ok (ps', q') \<Longrightarrow>
   list_all2 (first_rel e ts) ps ps' \<and> q' = (q \<or> list_ex sets_nvrs ps)"
proof (induction ps arbitrary: q ps' q')
  case Nil
  then show ?case by simp
next
  case (Cons a rest)
  obtain n po where a: "a = (n, po)" by (cases a)
  from Cons.prems a obtain p where po: "po = Some p" by (cases po) auto
  from Cons.prems a po obtain p1 rest' where
    f: "first_pass e ts n p = Ok p1" and
    r: "first_loop e ts rest (if bools p ''FilterNeverViaRouteServers'' \<noteq> None then True else q) = Ok (rest', q')" and
    ps': "ps' = (n, Some p1) # rest'"
    by (auto simp: and_then_Ok_iff)
  from Cons.IH[OF r] have ih: "list_all2 (first_rel e ts) rest rest'"
    "q' = ((if bools p ''FilterNeverViaRouteServers'' \<noteq> None then True else q) \<or> list_ex sets_nvrs rest)"
    by simp_all
  have "first_rel e ts a (n, Some p1)" using a po f by (simp add: first_rel_def)
  moreover have "q' = (q \<or> list_ex sets_nvrs (a # rest))"
    using ih(2) a po by (auto simp: sets_nvrs_def)
  ultimately show ?case using ih(1) ps' by simp
qed

lemma first_loop_succeeds:
  "list_all (\<lambda>a. \<exists>p p1. snd a = Some p \<and> first_pass e ts (fst a) p = Ok p1) ps \<Longrightarrow>
   \<exists>ps' q'. first_loop e ts ps q = Ok (ps', q')"
proof (induction ps arbitrary: q)
  case Nil
  then show ?case by simp
next
  case (Cons a rest)
  obtain n po where a: "a = (n, po)" by (cases a)
  from Cons.prems a obtain p p1 where p: "po = Some p" "first_pass e ts n p = Ok p1" by auto
  from Cons.prems have "list_all (\<lambda>a. \<exists>p p1. snd a = Some p \<and> first_pass e ts (fst a) p = Ok p1) rest"
    by simp
  from Cons.IH[OF this, of "if bools p ''FilterNeverViaRouteServers'' \<noteq> None then True else q"]
  obtain rest' q' where "first_loop e ts rest (if bools p ''FilterNeverViaRouteServers'' \<noteq> None then True else q) = Ok (rest', q')"
    by blast
  with a p show ?case by simp
qed

lemma first_loop_outcome:
  "(\<exists>r. first_loop e ts ps q = Ok r) \<or> (\<exists>msg. first_loop e ts ps q = Fatal msg) \<or> first_loop e ts ps q = Panic"
proof (cases "first_loop e ts ps q")
  case (Err msg)
  have "first_loop e ts ps q \<noteq> Err msg"
  proof (induction ps arbitrary: q)
    case Nil
    show ?case by simp
  next
    case (Cons a rest)
    obtain n po where a: "a = (n, po)" by (cases a)
    show ?case
    proof (cases po)
      case None
      with a show ?thesis by simp
    next
      case (Some p)
      show ?thesis
      proof (cases "first_pass e ts n p")
        case (Ok p1)
        have "first_loop e ts rest (if bools p ''FilterNeverViaRouteServers'' \<noteq> None then True else q) \<noteq> Err msg"
          by (rule Cons.IH)
        with a Some Ok show ?thesis
          by (cases "first_loop e ts rest (if bools p ''FilterNeverViaRouteServers'' \<noteq> None then True else q)") auto
      next
        case (Err m)
        with first_pass_never_Err show ?thesis by blast
      next
        case (Fatal m)
        with a Some show ?thesis by simp
      next
        case Panic
        with a Some show ?thesis by simp
      qed
    qed
  qed
  with Err show ?thesis by simp
qed auto

lemma first_loop_fails:
  "a \<in> set ps \<Longrightarrow> \<not> (\<exists>p p1. snd a = Some p \<and> first_pass e ts (fst a) p = Ok p1) \<Longrightarrow>
   first_loop e ts ps q \<noteq> Ok r"
proof
  assume a: "a \<in> set ps" and n: "\<not> (\<exists>p p1. snd a = Some p \<and> first_pass e ts (fst a) p = Ok p1)"
    and ok: "first_loop e ts ps q = Ok r"
  obtain ps' q' where r: "r = (ps', q')" by (cases r)
  from first_loop_Ok[OF ok[unfolded r]] have l: "list_all2 (first_rel e ts) ps ps'" by simp
  from a obtain i where i: "i < length ps" "ps ! i = a" by (auto simp: in_set_conv_nth)
  from list_all2_nthD[OF l i(1)] i(2) have "first_rel e ts a (ps' ! i)" by simp
  with n show False by (auto simp: first_rel_def)
qed

lemma second_loop_Ok:
  "second_loop e b ps = Ok ps' \<Longrightarrow> list_all2 (second_rel e b) ps ps'"
proof (induction ps arbitrary: ps')
  case Nil
  then show ?case by simp
next
  case (Cons a rest)
  obtain n po where a: "a = (n, po)" by (cases a)
  from Cons.prems a obtain p where po: "po = Some p" by (cases po) auto
  from Cons.prems a po obtain p1 rest' where
    f: "second_pass e b p = Ok p1" and r: "second_loop e b rest = Ok rest'" and ps': "ps' = (n, Some p1) # rest'"
    by (auto simp: and_then_Ok_iff)
  have "second_rel e b a (n, Some p1)" using a po f by (simp add: second_rel_def)
  with Cons.IH[OF r] ps' show ?case by simp
qed

lemma second_loop_succeeds:
  "list_all (\<lambda>a. \<exists>p p1. snd a = Some p \<and> second_pass e b p = Ok p1) ps \<Longrightarrow>
   \<exists>ps'. second_loop e b ps = Ok ps'"
proof (induction ps)
  case Nil
  then show ?case by simp
next
  case (Cons a rest)
  obtain n po where a: "a = (n, po)" by (cases a)
  from Cons.prems a obtain p p1 where p: "po = Some p" "second_pass e b p = Ok p1" by auto
  from Cons.prems have "list_all (\<lambda>a. \<exists>p p1. snd a = Some p \<and> second_pass e b p = Ok p1) rest" by simp
  from Cons.IH[OF this] obtain rest' where "second_loop e b rest = Ok rest'" by blast
  with a p show ?case by simp
qed

lemma second_loop_never_Fatal: "second_loop e b ps \<noteq> Fatal msg"
proof (induction ps)
  case Nil
  show ?case by simp
next
  case (Cons a rest)
  obtain n po where a: "a = (n, po)" by (cases a)
  show ?case
  proof (cases po)
    case None
    with a show ?thesis by simp
  next
    case (Some p)
    show ?thesis
    proof (cases "second_pass e b p")
      case (Ok p1)
      with a Some Cons.IH show ?thesis by (cases "second_loop e b rest") auto
    next
      case (Fatal m)
      with second_pass_never_Fatal show ?thesis by blast
    qed (use a Some in auto)
  qed
qed

subsection \<open>The global lists\<close>

lemma is_ok_iff: "is_ok r = (\<exists>x. r = Ok x)"
  by (cases r) (simp_all add: is_ok_def)

lemma rtr_server_Ok:
  "rtr_server c = Ok c' \<Longrightarrow>
   Peers c' = Peers c \<and> Templates c' = Templates c \<and> Prefixes c' = Prefixes c \<and>
   QueryNVRS c' = QueryNVRS c \<and> Prefixes4 c' = Prefixes4 c \<and> Prefixes6 c' = Prefixes6 c \<and>
   Augments c' = Augments c \<and> Hostname c' = Hostname c"
  by (auto simp: rtr_server_def Let_def split: if_splits option.splits)

lemma rtr_server_succeeds:
  "RTRServer c = '''' \<or>
     (length (Split (RTRServer c) CHR '':'') = 2 \<and> Atoi (Split (RTRServer c) CHR '':'' ! 1) \<noteq> None) \<Longrightarrow>
   \<exists>c'. rtr_server c = Ok c'"
  by (auto simp: rtr_server_def Let_def)

lemma resolve_globals_Ok:
  assumes "resolve_globals e c = Ok c'"
  shows "Peers c' = Peers c \<and> Templates c' = Templates c \<and> Prefixes c' = Prefixes c \<and>
     QueryNVRS c' = QueryNVRS c \<and> Hostname c' = Hostname c \<and>
     split_families e ''Invalid origin prefix: '' (Prefixes c) (Prefixes4 c, Prefixes6 c) =
       Ok (Prefixes4 c', Prefixes6 c') \<and>
     srd_communities (SRDCommunities (Augments c))
       (SRDStandardCommunities (Augments c), SRDLargeCommunities (Augments c)) =
       Ok (SRDStandardCommunities (Augments c'), SRDLargeCommunities (Augments c'))"
proof -
  from assms obtain fam where
    s1: "split_families e ''Invalid origin prefix: '' (Prefixes c) (Prefixes4 c, Prefixes6 c) = Ok fam"
    unfolding resolve_globals_def and_then_Ok_iff by blast
  obtain p4 p6 where fam: "fam = (p4, p6)" by (cases fam)
  define c1 where "c1 = c\<lparr>Prefixes4 := p4, Prefixes6 := p6\<rparr>"
  define a1 where "a1 = (Augments c1)\<lparr>Statics4 := Map.empty, Statics6 := Map.empty\<rparr>"
  from assms s1 fam obtain sl where
    s2: "srd_communities (SRDCommunities a1) (SRDStandardCommunities a1, SRDLargeCommunities a1) = Ok sl"
    and t2: "(case sl of (std, lrg) \<Rightarrow>
       let a2 = a1\<lparr>SRDStandardCommunities := std, SRDLargeCommunities := lrg\<rparr>
       in and_then (static_routes e (Statics a2) (Statics4 a2, Statics6 a2))
         (\<lambda>(s4, s6).
       let c2 = c1\<lparr>Augments := a2\<lparr>Statics4 := s4, Statics6 := s6\<rparr>\<rparr>
       in and_then (bfd_loop e (BFDInstances c2))
         (\<lambda>bfds. and_then (vrrp_loop e (VRRPInstances c2))
         (\<lambda>vrrps. rtr_server (c2\<lparr>BFDInstances := bfds, VRRPInstances := vrrps\<rparr>))))) = Ok c'"
    unfolding resolve_globals_def c1_def a1_def
    by (auto simp: and_then_Ok_iff Let_def)
  obtain std lrg where sl: "sl = (std, lrg)" by (cases sl)
  define a2 where "a2 = a1\<lparr>SRDStandardCommunities := std, SRDLargeCommunities := lrg\<rparr>"
  from t2 sl obtain st where
    t3: "(case st of (s4, s6) \<Rightarrow>
       let c2 = c1\<lparr>Augments := a2\<lparr>Statics4 := s4, Statics6 := s6\<rparr>\<rparr>
       in and_then (bfd_loop e (BFDInstances c2))
         (\<lambda>bfds. and_then (vrrp_loop e (VRRPInstances c2))
         (\<lambda>vrrps. rtr_server (c2\<lparr>BFDInstances := bfds, VRRPInstances := vrrps\<rparr>)))) = Ok c'"
    unfolding a2_def by (auto simp: and_then_Ok_iff Let_def)
  obtain s4 s6 where st: "st = (s4, s6)" by (cases st)
  define c2 where "c2 = c1\<lparr>Augments := a2\<lparr>Statics4 := s4, Statics6 := s6\<rparr>\<rparr>"
  from t3 st obtain bfds vrrps where
    s6: "rtr_server (c2\<lparr>BFDInstances := bfds, VRRPInstances := vrrps\<rparr>) = Ok c'"
    unfolding c2_def by (auto simp: and_then_Ok_iff Let_def)
  from rtr_server_Ok[OF s6] have
    "Peers c' = Peers c" "Templates c' = Templates c" "Prefixes c' = Prefixes c"
    "QueryNVRS c' = QueryNVRS c" "Hostname c' = Hostname c"
    "Prefixes4 c' = p4" "Prefixes6 c' = p6"
    "SRDStandardCommunities (Augments c') = std" "SRDLargeCommunities (Augments c') = lrg"
    by (simp_all add: c2_def c1_def a2_def)
  moreover have "SRDCommunities a1 = SRDCommunities (Augments c)"
    "SRDStandardCommunities a1 = SRDStandardCommunities (Augments c)"
    "SRDLargeCommunities a1 = SRDLargeCommunities (Augments c)"
    by (simp_all add: a1_def c1_def)
  ultimately show ?thesis using s1 fam s2 sl by simp
qed

lemma resolve_globals_succeeds:
  assumes "globals_ok e c"
  shows "\<exists>c'. resolve_globals e c = Ok c'"
proof -
  from assms obtain p4 p6 std lrg s4 s6 bfds vrrps where
    s1: "split_families e ''Invalid origin prefix: '' (Prefixes c) (Prefixes4 c, Prefixes6 c) = Ok (p4, p6)" and
    s2: "srd_communities (SRDCommunities (Augments c))
           (SRDStandardCommunities (Augments c), SRDLargeCommunities (Augments c)) = Ok (std, lrg)" and
    s3: "static_routes e (Statics (Augments c)) (Map.empty, Map.empty) = Ok (s4, s6)" and
    s4: "bfd_loop e (BFDInstances c) = Ok bfds" and
    s5: "vrrp_loop e (VRRPInstances c) = Ok vrrps"
    unfolding globals_ok_def is_ok_iff by auto
  from assms have rtr: "RTRServer c = '''' \<or>
     (length (Split (RTRServer c) CHR '':'') = 2 \<and> Atoi (Split (RTRServer c) CHR '':'' ! 1) \<noteq> None)"
    by (simp add: globals_ok_def)
  define c3 where "c3 = c\<lparr>Prefixes4 := p4, Prefixes6 := p6,
     Augments := (Augments c)\<lparr>SRDStandardCommunities := std, SRDLargeCommunities := lrg,
        Statics4 := s4, Statics6 := s6\<rparr>,
     BFDInstances := bfds, VRRPInstances := vrrps\<rparr>"
  have "RTRServer c3 = RTRServer c" by (simp add: c3_def)
  with rtr rtr_server_succeeds[of c3] obtain c' where "rtr_server c3 = Ok c'" by auto
  then have "resolve_globals e c = Ok c'"
    unfolding resolve_globals_def c3_def using s1 s2 s3 s4 s5
    by (simp add: Let_def)
  then show ?thesis by blast
qed

lemma globals_ok_update [simp]:
  "globals_ok e (c\<lparr>Peers := ps\<rparr>) = globals_ok e c"
  "globals_ok e (c\<lparr>QueryNVRS := q\<rparr>) = globals_ok e c"
  "globals_ok e (c\<lparr>Hostname := h\<rparr>) = globals_ok e c"
  by (simp_all add: globals_ok_def)

subsection \<open>The schema of a peer\<close>

lemma peer_fields_default_ok: "list_all default_ok peer_fields"
  by (simp add: peer_fields_def default_ok_def Atoi_def ParseBool_def is_digit_def Let_def)

lemma peer_fields_slices: "list_all (\<lambda>f. field_kind f \<noteq> KSlice \<or> \<not> has_default f) peer_fields"
  by (simp add: peer_fields_def has_default_def)

lemma peer_fields_distinct: "distinct (map field_name peer_fields)"
  by (simp add: peer_fields_def)

lemma peer_fields_yaml:
  "list_all (\<lambda>f. yaml_tag f = ''-'' \<or>
      field_name f \<notin> set [''ProtocolName'', ''BooleanOptions'', ''PrefixSet4'', ''PrefixSet6'',
        ''ImportStandardCommunities'', ''ImportLargeCommunities'', ''ExportStandardCommunities'',
        ''ExportLargeCommunities'', ''AnnounceStandardCommunities'', ''AnnounceLargeCommunities'',
        ''RemoveStandardCommunities'', ''RemoveLargeCommunities'']) peer_fields"
  by (simp add: peer_fields_def)

lemma slice_no_default:
  "f \<in> set peer_fields \<Longrightarrow> field_kind f = KSlice \<Longrightarrow> \<not> has_default f"
  using peer_fields_slices by (auto simp: list_all_iff)

subsection \<open>The first pass in one equation\<close>

lemma assign_template_eq:
  "assign_template ts p =
     (if names_template p \<and> template_of ts p = None
      then Fatal (''Template '' @ the (strings p ''Template'') @ '' not found'')
      else Ok (merged ts p))"
  by (auto simp: assign_template_def names_template_def template_of_def merged_def
      split: option.splits)

lemma prepared_template [simp]:
  "names_template (prepared e n p) = names_template p"
  "template_of ts (prepared e n p) = template_of ts p"
  "strings (prepared e n p) ''Template'' = strings p ''Template''"
  by (simp_all add: names_template_def template_of_def prepared_def)

lemma first_pass_eq:
  "first_pass e ts n p =
     (if \<not> has_neighbors p then Fatal (''['' @ n @ ''] has no neighbors defined'')
      else if names_template p \<and> template_of ts p = None
      then Fatal (''Template '' @ the (strings p ''Template'') @ '' not found'')
      else set_defaults peer_fields (merged ts (prepared e n p)))"
proof -
  have nb: "(case slices (p\<lparr>strings := (strings p)(''ProtocolName'' \<mapsto> Sanitize e n)\<rparr>) ''NeighborIPs'' of
       None \<Rightarrow> True | Some ips \<Rightarrow> length ips < 1) = (\<not> has_neighbors p)"
    by (simp add: has_neighbors_def split: option.splits)
  have pr: "(p\<lparr>strings := (strings p)(''ProtocolName'' \<mapsto> Sanitize e n)\<rparr>)
      \<lparr>slices := (slices (p\<lparr>strings := (strings p)(''ProtocolName'' \<mapsto> Sanitize e n)\<rparr>))(''BooleanOptions'' \<mapsto> [])\<rparr>
      = prepared e n p"
    by (simp add: prepared_def)
  show ?thesis
    unfolding first_pass_def Let_def nb pr
    by (simp add: assign_template_eq)
qed

lemma map_option_VSlice_eq: "(map_option VSlice a = map_option VSlice b) = (a = b)"
  by (cases a; cases b) simp_all

lemma slices_merge_fields:
  "slices (merge_fields fs t p) n =
     (if n \<noteq> ''Template'' \<and> slices p n = None \<and> (\<exists>f\<in>set fs. field_kind f = KSlice \<and> field_name f = n)
      then slices t n else slices p n)"
proof (cases "n \<noteq> ''Template'' \<and> slices p n = None \<and> (\<exists>f\<in>set fs. field_kind f = KSlice \<and> field_name f = n)")
  case True
  then have c: "n \<noteq> ''Template'' \<and> field_value p KSlice n = None \<and> (\<exists>f\<in>set fs. field_kind f = KSlice \<and> field_name f = n)"
    by (simp add: field_value_simps)
  have "field_value (merge_fields fs t p) KSlice n = field_value t KSlice n"
    by (subst field_value_merge_fields) (rule if_P[OF c])
  then have "slices (merge_fields fs t p) n = slices t n"
    by (simp only: field_value_simps map_option_VSlice_eq)
  also have "slices t n = (if n \<noteq> ''Template'' \<and> slices p n = None \<and> (\<exists>f\<in>set fs. field_kind f = KSlice \<and> field_name f = n)
      then slices t n else slices p n)"
    by (rule if_P[OF True, symmetric])
  finally show ?thesis .
next
  case False
  then have c: "\<not> (n \<noteq> ''Template'' \<and> field_value p KSlice n = None \<and> (\<exists>f\<in>set fs. field_kind f = KSlice \<and> field_name f = n))"
    by (simp add: field_value_simps)
  have "field_value (merge_fields fs t p) KSlice n = field_value p KSlice n"
    by (subst field_value_merge_fields) (rule if_not_P[OF c])
  then have "slices (merge_fields fs t p) n = slices p n"
    by (simp only: field_value_simps map_option_VSlice_eq)
  also have "slices p n = (if n \<noteq> ''Template'' \<and> slices p n = None \<and> (\<exists>f\<in>set fs. field_kind f = KSlice \<and> field_name f = n)
      then slices t n else slices p n)"
    by (rule if_not_P[OF False, symmetric])
  finally show ?thesis .
qed

lemma slices_merged:
  "slices (merged ts p) n =
     (case template_of ts p of
        None \<Rightarrow> slices p n
      | Some t \<Rightarrow>
          if n \<noteq> ''Template'' \<and> slices p n = None \<and> (\<exists>f\<in>set peer_fields. field_kind f = KSlice \<and> field_name f = n)
          then slices t n else slices p n)"
  by (cases "template_of ts p") (simp_all only: merged_def option.case slices_merge_fields)

lemma field_value_merged:
  "field_value (merged ts p) k n =
     (case template_of ts p of
        None \<Rightarrow> field_value p k n
      | Some t \<Rightarrow>
          if n \<noteq> ''Template'' \<and> field_value p k n = None \<and> (\<exists>f\<in>set peer_fields. field_kind f = k \<and> field_name f = n)
          then field_value t k n else field_value p k n)"
  by (cases "template_of ts p") (simp_all only: merged_def option.case field_value_merge_fields)

lemma field_value_merged_prepared:
  assumes "\<not> (k = KString \<and> n = ''ProtocolName'')" and "\<not> (k = KSlice \<and> n = ''BooleanOptions'')"
  shows "field_value (merged ts (prepared e name p)) k n = field_value (merged ts p) k n"
  unfolding field_value_merged prepared_template field_value_prepared[OF assms] ..

lemma options_merged_prepared: "slices (merged ts (prepared e name p)) ''BooleanOptions'' \<noteq> None"
proof -
  have "slices (prepared e name p) ''BooleanOptions'' = Some []" by (simp add: prepared_def)
  then show ?thesis
    by (cases "template_of ts p") (simp_all add: slices_merged)
qed

lemma first_pass_Ok_iff:
  "(\<exists>p1. first_pass e ts n p = Ok p1) =
     (has_neighbors p \<and> (if names_template p then template_of ts p \<noteq> None else True))"
proof -
  have "\<exists>p1. set_defaults peer_fields (merged ts (prepared e n p)) = Ok p1"
    by (rule set_defaults_succeeds[OF peer_fields_default_ok options_merged_prepared])
  then show ?thesis
    by (auto simp: first_pass_eq)
qed

lemma first_pass_defaults:
  assumes "first_pass e ts n p = Ok p1"
  shows "set_defaults peer_fields (merged ts (prepared e n p)) = Ok p1"
  using assms by (simp add: first_pass_eq split: if_splits)

lemma first_pass_keeps:
  assumes "first_pass e ts n p = Ok p1"
    and "\<not> (k = KString \<and> nm = ''ProtocolName'')" and "\<not> (k = KSlice \<and> nm = ''BooleanOptions'')"
    and "field_value (merged ts p) k nm \<noteq> None"
  shows "field_value p1 k nm = field_value (merged ts p) k nm"
proof -
  note m = field_value_merged_prepared[OF assms(2) assms(3), of ts e n p]
  from assms(4) m have "field_value (merged ts (prepared e n p)) k nm \<noteq> None" by simp
  from set_defaults_frame[OF first_pass_defaults[OF assms(1)] this assms(3)] m show ?thesis by simp
qed

lemma first_pass_defaulted:
  assumes "first_pass e ts n p = Ok p1" and "f \<in> set peer_fields" and "has_default f"
  shows "value_of p1 f \<noteq> None"
proof -
  from slice_no_default[OF assms(2)] assms(3) have "field_kind f \<noteq> KSlice" by blast
  from set_defaults_sets[OF first_pass_defaults[OF assms(1)] assms(2) assms(3) this]
  show ?thesis by (simp add: value_of_def)
qed

lemma peer_fields_unique:
  assumes "f \<in> set peer_fields" and "g \<in> set peer_fields" and "field_name g = field_name f"
  shows "g = f"
proof -
  from peer_fields_distinct have "inj_on field_name (set peer_fields)"
    by (simp add: distinct_map)
  from inj_onD[OF this assms(3) assms(2) assms(1)] show ?thesis .
qed

lemma first_pass_no_default:
  assumes "first_pass e ts n p = Ok p1" and "f \<in> set peer_fields" and "\<not> has_default f"
    and "field_name f \<noteq> ''ProtocolName''" and "field_name f \<noteq> ''BooleanOptions''"
  shows "value_of p1 f = value_of (merged ts p) f"
proof -
  have u: "\<forall>g\<in>set peer_fields. field_kind g = field_kind f \<and> field_name g = field_name f \<longrightarrow> \<not> has_default g"
    using peer_fields_unique[OF assms(2)] assms(3) by blast
  have a: "\<not> (field_kind f = KString \<and> field_name f = ''ProtocolName'')" using assms(4) by simp
  have b: "\<not> (field_kind f = KSlice \<and> field_name f = ''BooleanOptions'')" using assms(5) by simp
  from set_defaults_untouched[OF first_pass_defaults[OF assms(1)] u b]
    field_value_merged_prepared[OF a b, of ts e n p]
  show ?thesis by (simp add: value_of_def)
qed

lemma first_pass_slices:
  assumes "first_pass e ts n p = Ok p1" and "fld \<noteq> ''BooleanOptions''"
  shows "slices p1 fld = slices (merged ts p) fld"
proof -
  have u: "\<forall>g\<in>set peer_fields. field_kind g = KSlice \<and> field_name g = fld \<longrightarrow> \<not> has_default g"
    using slice_no_default by blast
  have a: "\<not> (KSlice = KString \<and> fld = ''ProtocolName'')" by simp
  have b: "\<not> (KSlice = KSlice \<and> fld = ''BooleanOptions'')" using assms(2) by simp
  from set_defaults_untouched[OF first_pass_defaults[OF assms(1)] u b]
    field_value_merged_prepared[OF a b, of ts e n p]
  have "field_value p1 KSlice fld = field_value (merged ts p) KSlice fld" by simp
  then show ?thesis by (simp only: field_value_simps map_option_VSlice_eq)
qed

lemma first_pass_lists_ok:
  assumes "first_pass e ts n p = Ok p1"
  shows "lists_ok e p1 = lists_ok e (merged ts p)"
proof -
  have "elements p1 fld = elements (merged ts p) fld" if "fld \<noteq> ''BooleanOptions''" for fld
    using first_pass_slices[OF assms that] by (simp add: elements_def)
  then show ?thesis by (simp add: lists_ok_def)
qed

lemma first_pass_bools:
  assumes "first_pass e ts n p = Ok p1"
  shows "bools p1 ''AnnounceOriginated'' \<noteq> None"
proof -
  have "Field ''AnnounceOriginated'' KBool ''announce-originated'' ''true'' \<in> set peer_fields"
    by (simp add: peer_fields_def)
  from first_pass_defaulted[OF assms this] show ?thesis
    by (simp add: has_default_def value_of_def field_value_simps)
qed

subsection \<open>Load\<close>

lemma set_hostname_Ok:
  "set_hostname e c = Ok c1 \<Longrightarrow> hostname_ok e c \<and> (\<exists>h. c1 = c\<lparr>Hostname := h\<rparr>)"
proof -
  assume a: "set_hostname e c = Ok c1"
  show ?thesis
  proof (cases "Hostname c = ''''")
    case True
    with a show ?thesis
      by (cases "OsHostname e") (auto simp: set_hostname_def hostname_ok_def)
  next
    case False
    with a have "c1 = c" by (simp add: set_hostname_def)
    then have "c1 = c\<lparr>Hostname := Hostname c\<rparr>" by simp
    then have "\<exists>h. c1 = c\<lparr>Hostname := h\<rparr>" by (rule exI)
    moreover have "hostname_ok e c" using False by (simp add: hostname_ok_def)
    ultimately show ?thesis by (rule conjI[rotated])
  qed
qed

lemma set_hostname_succeeds:
  "hostname_ok e c \<Longrightarrow> \<exists>h. set_hostname e c = Ok (c\<lparr>Hostname := h\<rparr>)"
proof -
  assume a: "hostname_ok e c"
  show ?thesis
  proof (cases "Hostname c = ''''")
    case True
    with a show ?thesis
      by (cases "OsHostname e") (auto simp: set_hostname_def hostname_ok_def)
  next
    case False
    then have "set_hostname e c = Ok (c\<lparr>Hostname := Hostname c\<rparr>)" by (simp add: set_hostname_def)
    then show ?thesis by blast
  qed
qed

lemma resolve_globals_needs:
  assumes "resolve_globals e c = Ok c'"
  shows "globals_ok e c"
proof -
  from assms obtain fam where
    s1: "split_families e ''Invalid origin prefix: '' (Prefixes c) (Prefixes4 c, Prefixes6 c) = Ok fam"
    unfolding resolve_globals_def and_then_Ok_iff by blast
  obtain p4 p6 where fam: "fam = (p4, p6)" by (cases fam)
  define c1 where "c1 = c\<lparr>Prefixes4 := p4, Prefixes6 := p6\<rparr>"
  define a1 where "a1 = (Augments c1)\<lparr>Statics4 := Map.empty, Statics6 := Map.empty\<rparr>"
  from assms s1 fam obtain sl where
    s2: "srd_communities (SRDCommunities a1) (SRDStandardCommunities a1, SRDLargeCommunities a1) = Ok sl"
    and t2: "(case sl of (std, lrg) \<Rightarrow>
       let a2 = a1\<lparr>SRDStandardCommunities := std, SRDLargeCommunities := lrg\<rparr>
       in and_then (static_routes e (Statics a2) (Statics4 a2, Statics6 a2))
         (\<lambda>(s4, s6).
       let c2 = c1\<lparr>Augments := a2\<lparr>Statics4 := s4, Statics6 := s6\<rparr>\<rparr>
       in and_then (bfd_loop e (BFDInstances c2))
         (\<lambda>bfds. and_then (vrrp_loop e (VRRPInstances c2))
         (\<lambda>vrrps. rtr_server (c2\<lparr>BFDInstances := bfds, VRRPInstances := vrrps\<rparr>))))) = Ok c'"
    unfolding resolve_globals_def c1_def a1_def
    by (auto simp: and_then_Ok_iff Let_def)
  obtain std lrg where sl: "sl = (std, lrg)" by (cases sl)
  define a2 where "a2 = a1\<lparr>SRDStandardCommunities := std, SRDLargeCommunities := lrg\<rparr>"
  from t2 sl obtain st where
    s3: "static_routes e (Statics a2) (Statics4 a2, Statics6 a2) = Ok st" and
    t3: "(case st of (s4, s6) \<Rightarrow>
       let c2 = c1\<lparr>Augments := a2\<lparr>Statics4 := s4, Statics6 := s6\<rparr>\<rparr>
       in and_then (bfd_loop e (BFDInstances c2))
         (\<lambda>bfds. and_then (vrrp_loop e (VRRPInstances c2))
         (\<lambda>vrrps. rtr_server (c2\<lparr>BFDInstances := bfds, VRRPInstances := vrrps\<rparr>)))) = Ok c'"
    unfolding a2_def by (auto simp: and_then_Ok_iff Let_def)
  obtain s4 s6 where st: "st = (s4, s6)" by (cases st)
  define c2 where "c2 = c1\<lparr>Augments := a2\<lparr>Statics4 := s4, Statics6 := s6\<rparr>\<rparr>"
  from t3 st obtain bfds vrrps where
    s4: "bfd_loop e (BFDInstances c2) = Ok bfds" and
    s5: "vrrp_loop e (VRRPInstances c2) = Ok vrrps" and
    s6: "rtr_server (c2\<lparr>BFDInstances := bfds, VRRPInstances := vrrps\<rparr>) = Ok c'"
    unfolding c2_def by (auto simp: and_then_Ok_iff Let_def)
  have rtr: "RTRServer c = '''' \<or>
     (length (Split (RTRServer c) CHR '':'') = 2 \<and> Atoi (Split (RTRServer c) CHR '':'' ! 1) \<noteq> None)"
    using s6 by (auto simp: rtr_server_def Let_def c2_def c1_def split: if_splits option.splits)
  have "is_ok (split_families e ''Invalid origin prefix: '' (Prefixes c) (Prefixes4 c, Prefixes6 c))"
    using s1 by (simp add: is_ok_def)
  moreover have "is_ok (srd_communities (SRDCommunities (Augments c))
               (SRDStandardCommunities (Augments c), SRDLargeCommunities (Augments c)))"
    using s2 by (simp add: is_ok_def a1_def c1_def)
  moreover have "is_ok (static_routes e (Statics (Augments c)) (Map.empty, Map.empty))"
    using s3 by (simp add: is_ok_def a2_def a1_def c1_def)
  moreover have "is_ok (bfd_loop e (BFDInstances c))"
    using s4 by (simp add: is_ok_def c2_def c1_def)
  moreover have "is_ok (vrrp_loop e (VRRPInstances c))"
    using s5 by (simp add: is_ok_def c2_def c1_def)
  ultimately show ?thesis using rtr unfolding globals_ok_def by blast
qed

lemma resolve_Ok:
  assumes "resolve e c = Ok c'"
  shows "\<exists>ps1. check_templates (Templates c) = Ok () \<and> hostname_ok e c \<and>
     first_loop e (Templates c) (Peers c) (QueryNVRS c) = Ok (ps1, QueryNVRS c') \<and>
     globals_ok e c \<and>
     second_loop e (length (Prefixes c) < 1) ps1 = Ok (Peers c') \<and>
     Templates c' = written_templates (length (Prefixes c) < 1) (Peers c) (Templates c) \<and>
     Prefixes c' = Prefixes c \<and>
     split_families e ''Invalid origin prefix: '' (Prefixes c) (Prefixes4 c, Prefixes6 c) =
       Ok (Prefixes4 c', Prefixes6 c') \<and>
     srd_communities (SRDCommunities (Augments c))
       (SRDStandardCommunities (Augments c), SRDLargeCommunities (Augments c)) =
       Ok (SRDStandardCommunities (Augments c'), SRDLargeCommunities (Augments c'))"
proof -
  from assms obtain c1 c2 c3 where
    t: "check_templates (Templates c) = Ok ()" and
    h: "set_hostname e c = Ok c1" and
    p: "resolve_peers e c1 = Ok c2" and
    g: "resolve_globals e c2 = Ok c3" and
    f: "finish_peers e (Peers c) c3 = Ok c'"
    unfolding resolve_def and_then_Ok_iff by auto
  from set_hostname_Ok[OF h] obtain hn where hok: "hostname_ok e c" and c1: "c1 = c\<lparr>Hostname := hn\<rparr>"
    by blast
  from p obtain ps1 q where
    fl: "first_loop e (Templates c1) (Peers c1) (QueryNVRS c1) = Ok (ps1, q)" and
    c2: "c2 = c1\<lparr>Peers := ps1, QueryNVRS := q\<rparr>"
    unfolding resolve_peers_def and_then_Ok_iff by auto
  note gf = resolve_globals_Ok[OF g]
  from f obtain ps2 where
    sl: "second_loop e (length (Prefixes c3) < 1) (Peers c3) = Ok ps2" and
    c': "c' = c3\<lparr>Peers := ps2,
       Templates := written_templates (length (Prefixes c3) < 1) (Peers c) (Templates c3)\<rparr>"
    unfolding finish_peers_def and_then_Ok_iff by auto
  have gok: "globals_ok e c"
    using resolve_globals_needs[OF g] by (simp add: c2 c1)
  have "first_loop e (Templates c) (Peers c) (QueryNVRS c) = Ok (ps1, QueryNVRS c')"
    using fl gf by (simp add: c1 c2 c')
  moreover have "second_loop e (length (Prefixes c) < 1) ps1 = Ok (Peers c')"
    using sl gf by (simp add: c1 c2 c')
  moreover have "Templates c' = written_templates (length (Prefixes c) < 1) (Peers c) (Templates c) \<and>
     Prefixes c' = Prefixes c"
    using gf by (simp add: c1 c2 c')
  moreover have "split_families e ''Invalid origin prefix: '' (Prefixes c) (Prefixes4 c, Prefixes6 c) =
       Ok (Prefixes4 c', Prefixes6 c')"
    using gf by (simp add: c1 c2 c')
  moreover have "srd_communities (SRDCommunities (Augments c))
       (SRDStandardCommunities (Augments c), SRDLargeCommunities (Augments c)) =
       Ok (SRDStandardCommunities (Augments c'), SRDLargeCommunities (Augments c'))"
    using gf by (simp add: c1 c2 c')
  ultimately show ?thesis using t hok gok by blast
qed

lemma resolve_succeeds:
  assumes "check_templates (Templates c) = Ok ()" and "hostname_ok e c"
    and "first_loop e (Templates c) (Peers c) (QueryNVRS c) = Ok (ps1, q)"
    and "globals_ok e c"
    and "second_loop e (length (Prefixes c) < 1) ps1 = Ok ps2"
  shows "\<exists>c'. resolve e c = Ok c'"
proof -
  from set_hostname_succeeds[OF assms(2)] obtain hn where h: "set_hostname e c = Ok (c\<lparr>Hostname := hn\<rparr>)"
    by blast
  define c1 where "c1 = c\<lparr>Hostname := hn\<rparr>"
  define c2 where "c2 = c1\<lparr>Peers := ps1, QueryNVRS := q\<rparr>"
  have p: "resolve_peers e c1 = Ok c2"
    using assms(3) by (simp add: resolve_peers_def c1_def c2_def)
  have "globals_ok e c2" using assms(4) by (simp add: c2_def c1_def)
  from resolve_globals_succeeds[OF this] obtain c3 where g: "resolve_globals e c2 = Ok c3" by blast
  note gf = resolve_globals_Ok[OF g]
  have "second_loop e (length (Prefixes c3) < 1) (Peers c3) = Ok ps2"
    using assms(5) gf by (simp add: c2_def c1_def)
  then have f: "finish_peers e (Peers c) c3 = Ok (c3\<lparr>Peers := ps2,
      Templates := written_templates (length (Prefixes c3) < 1) (Peers c) (Templates c3)\<rparr>)"
    by (simp add: finish_peers_def)
  have "resolve e c = Ok (c3\<lparr>Peers := ps2,
      Templates := written_templates (length (Prefixes c3) < 1) (Peers c) (Templates c3)\<rparr>)"
    unfolding resolve_def using assms(1) h p g f by (simp add: c1_def)
  then show ?thesis by blast
qed

lemma loaded_iff:
  "(loaded (Load e blob) = Some c') =
     (\<exists>c. Unmarshal e blob = Inr c \<and> Validate e c = None \<and> resolve e c = Ok c')"
  by (auto simp: loaded_def Load_def split: sum.splits option.splits res.splits)

lemma resolve_peer:
  assumes "resolve e c = Ok c'" and "i < length (Peers c)" and "Peers c ! i = (n, po)"
  shows "\<exists>p p1 p2. po = Some p \<and> first_pass e (Templates c) n p = Ok p1 \<and>
     second_pass e (length (Prefixes c) < 1) p1 = Ok p2 \<and> Peers c' ! i = (n, Some p2)"
proof -
  from resolve_Ok[OF assms(1)] obtain ps1 where
    fl: "first_loop e (Templates c) (Peers c) (QueryNVRS c) = Ok (ps1, QueryNVRS c')" and
    sl: "second_loop e (length (Prefixes c) < 1) ps1 = Ok (Peers c')"
    by blast
  from first_loop_Ok[OF fl] have l1: "list_all2 (first_rel e (Templates c)) (Peers c) ps1" by simp
  note l2 = second_loop_Ok[OF sl]
  from list_all2_lengthD[OF l1] assms(2) have i1: "i < length ps1" by simp
  from list_all2_nthD[OF l1 assms(2)] assms(3) obtain p p1 where
    a: "po = Some p" "fst (ps1 ! i) = n" "snd (ps1 ! i) = Some p1" "first_pass e (Templates c) n p = Ok p1"
    by (auto simp: first_rel_def)
  from list_all2_nthD[OF l2 i1] a obtain p2 where
    b: "fst (Peers c' ! i) = n" "snd (Peers c' ! i) = Some p2" "second_pass e (length (Prefixes c) < 1) p1 = Ok p2"
    by (auto simp: second_rel_def)
  from b have "Peers c' ! i = (n, Some p2)" by (cases "Peers c' ! i") simp
  with a b show ?thesis by blast
qed

lemma resolve_length:
  assumes "resolve e c = Ok c'"
  shows "length (Peers c') = length (Peers c)"
proof -
  from resolve_Ok[OF assms(1)] obtain ps1 where
    fl: "first_loop e (Templates c) (Peers c) (QueryNVRS c) = Ok (ps1, QueryNVRS c')" and
    sl: "second_loop e (length (Prefixes c) < 1) ps1 = Ok (Peers c')"
    by blast
  from first_loop_Ok[OF fl] have l1: "list_all2 (first_rel e (Templates c)) (Peers c) ps1" by simp
  note l2 = second_loop_Ok[OF sl]
  from list_all2_lengthD[OF l1] list_all2_lengthD[OF l2] show ?thesis by simp
qed

lemma resolve_entry_ok:
  assumes "resolve e c = Ok c'"
  shows "list_all (entry_ok e (Templates c)) (Peers c)"
proof -
  have "entry_ok e (Templates c) (Peers c ! i)" if i: "i < length (Peers c)" for i
  proof -
    obtain n po where a: "Peers c ! i = (n, po)" by (cases "Peers c ! i")
    from resolve_peer[OF assms i a] obtain p p1 p2 where
      b: "po = Some p" "first_pass e (Templates c) n p = Ok p1"
         "second_pass e (length (Prefixes c) < 1) p1 = Ok p2"
      by blast
    from b(2) have "\<exists>p1. first_pass e (Templates c) n p = Ok p1" by blast
    then have c1: "has_neighbors p \<and> (if names_template p then template_of (Templates c) p \<noteq> None else True)"
      by (rule iffD1[OF first_pass_Ok_iff])
    from second_pass_Ok[OF b(3)] have "lists_ok e p1" by simp
    with first_pass_lists_ok[OF b(2)] have "lists_ok e (merged (Templates c) p)" by simp
    with c1 a b(1) show ?thesis by (simp add: entry_ok_def)
  qed
  then show ?thesis by (simp add: list_all_length)
qed

lemma entries_resolve:
  assumes "list_all (entry_ok e ts) ps"
  shows "\<exists>ps1 q1 ps2. first_loop e ts ps q = Ok (ps1, q1) \<and> second_loop e b ps1 = Ok ps2"
proof -
  have f: "list_all (\<lambda>a. \<exists>p p1. snd a = Some p \<and> first_pass e ts (fst a) p = Ok p1) ps"
    unfolding list_all_iff
  proof
    fix a assume "a \<in> set ps"
    with assms have ok: "entry_ok e ts a" by (simp add: list_all_iff)
    then obtain p where p: "snd a = Some p" by (cases "snd a") (auto simp: entry_ok_def)
    with ok have "has_neighbors p \<and> (if names_template p then template_of ts p \<noteq> None else True)"
      by (simp add: entry_ok_def)
    then have "\<exists>p1. first_pass e ts (fst a) p = Ok p1" by (rule iffD2[OF first_pass_Ok_iff])
    with p show "\<exists>p p1. snd a = Some p \<and> first_pass e ts (fst a) p = Ok p1" by blast
  qed
  from first_loop_succeeds[OF f] obtain ps1 q1 where fl: "first_loop e ts ps q = Ok (ps1, q1)" by blast
  from first_loop_Ok[OF fl] have l1: "list_all2 (first_rel e ts) ps ps1" by simp
  have s: "list_all (\<lambda>a. \<exists>p p1. snd a = Some p \<and> second_pass e b p = Ok p1) ps1"
    unfolding list_all_length
  proof (intro allI impI)
    fix i assume i: "i < length ps1"
    with list_all2_lengthD[OF l1] have i0: "i < length ps" by simp
    from list_all2_nthD[OF l1 i0] obtain p p1 where
      a: "snd (ps ! i) = Some p" "snd (ps1 ! i) = Some p1" "first_pass e ts (fst (ps ! i)) p = Ok p1"
      by (auto simp: first_rel_def)
    from assms i0 have "entry_ok e ts (ps ! i)" by (simp add: list_all_length)
    with a(1) have "lists_ok e (merged ts p)" by (simp add: entry_ok_def)
    with first_pass_lists_ok[OF a(3)] have lo: "lists_ok e p1" by simp
    have "b \<longrightarrow> bools p1 ''AnnounceOriginated'' \<noteq> None"
      using first_pass_bools[OF a(3)] by simp
    from second_pass_succeeds[OF lo this] a(2)
    show "\<exists>p p1. snd (ps1 ! i) = Some p \<and> second_pass e b p = Ok p1" by blast
  qed
  from second_loop_succeeds[OF s] fl show ?thesis by blast
qed

lemma resolve_Ok_iff:
  "(\<exists>c'. resolve e c = Ok c') =
     (check_templates (Templates c) = Ok () \<and> hostname_ok e c \<and>
      list_all (entry_ok e (Templates c)) (Peers c) \<and> globals_ok e c)"
proof
  assume "\<exists>c'. resolve e c = Ok c'"
  then obtain c' where r: "resolve e c = Ok c'" by blast
  from resolve_Ok[OF r] resolve_entry_ok[OF r]
  show "check_templates (Templates c) = Ok () \<and> hostname_ok e c \<and>
      list_all (entry_ok e (Templates c)) (Peers c) \<and> globals_ok e c"
    by blast
next
  assume a: "check_templates (Templates c) = Ok () \<and> hostname_ok e c \<and>
      list_all (entry_ok e (Templates c)) (Peers c) \<and> globals_ok e c"
  then have en: "list_all (entry_ok e (Templates c)) (Peers c)" by simp
  from entries_resolve[OF en, of "QueryNVRS c" "length (Prefixes c) < 1"] obtain ps1 q1 ps2 where
    "first_loop e (Templates c) (Peers c) (QueryNVRS c) = Ok (ps1, q1)"
    "second_loop e (length (Prefixes c) < 1) ps1 = Ok ps2"
    by blast
  with a resolve_succeeds[of c e ps1 q1 ps2] show "\<exists>c'. resolve e c = Ok c'" by blast
qed

lemma Load_succeeds_iff:
  assumes "Unmarshal e blob = Inr c" and "Validate e c = None"
  shows "(\<exists>c'. loaded (Load e blob) = Some c') =
     (check_templates (Templates c) = Ok () \<and> hostname_ok e c \<and>
      list_all (entry_ok e (Templates c)) (Peers c) \<and> globals_ok e c)"
  unfolding loaded_iff resolve_Ok_iff[symmetric] using assms by auto

lemma appended_keeps: "old \<noteq> None \<Longrightarrow> appended old new \<noteq> None"
  by (simp add: appended_def)

lemma resolved_slice_eq: "resolved_slice e p n = appended (slices p n) (additions e p n)"
  by (simp add: resolved_slice_def additions_def)

lemma resolved_slice_keeps:
  assumes "slices p n \<noteq> None"
  shows "resolved_slice e p n \<noteq> None"
  unfolding resolved_slice_eq using assms by (rule appended_keeps)

lemma resolved_slice_other:
  assumes "n \<notin> set [''PrefixSet4'', ''PrefixSet6'',
        ''ImportStandardCommunities'', ''ImportLargeCommunities'', ''ExportStandardCommunities'',
        ''ExportLargeCommunities'', ''AnnounceStandardCommunities'', ''AnnounceLargeCommunities'',
        ''RemoveStandardCommunities'', ''RemoveLargeCommunities'']"
  shows "resolved_slice e p n = slices p n"
proof -
  from assms have "additions e p n = []" by (simp add: additions_def)
  then show ?thesis by (simp add: resolved_slice_eq)
qed

lemma second_pass_parts:
  assumes "second_pass e b p = Ok p'"
  shows "strings p' = strings p" "ints p' = ints p" "maps p' = maps p"
    "slices p' n = resolved_slice e p n"
    "bools p' n = (if b \<and> n = ''AnnounceOriginated'' then Some False else bools p n)"
    "lists_ok e p"
  using second_pass_Ok[OF assms] by simp_all

lemma second_pass_keeps:
  assumes "second_pass e b p = Ok p'" and "field_value p k n \<noteq> None"
  shows "field_value p' k n \<noteq> None"
proof (cases k)
  case KString
  with assms(2) second_pass_parts(1)[OF assms(1)] show ?thesis by (simp add: field_value_simps)
next
  case KInt
  with assms(2) second_pass_parts(2)[OF assms(1)] show ?thesis by (simp add: field_value_simps)
next
  case KBool
  with assms(2) second_pass_parts(5)[OF assms(1), of n] show ?thesis by (simp add: field_value_simps)
next
  case KSlice
  with assms(2) have "slices p n \<noteq> None" by (simp add: field_value_simps)
  from resolved_slice_keeps[OF this, of e] second_pass_parts(4)[OF assms(1), of n] KSlice show ?thesis
    by (simp add: field_value_simps)
next
  case KMap
  with assms(2) second_pass_parts(3)[OF assms(1)] show ?thesis by (simp add: field_value_simps)
qed

lemma second_pass_frame:
  assumes "second_pass e b p = Ok p'"
    and "n \<notin> set [''PrefixSet4'', ''PrefixSet6'',
        ''ImportStandardCommunities'', ''ImportLargeCommunities'', ''ExportStandardCommunities'',
        ''ExportLargeCommunities'', ''AnnounceStandardCommunities'', ''AnnounceLargeCommunities'',
        ''RemoveStandardCommunities'', ''RemoveLargeCommunities'']"
    and "\<not> (b \<and> n = ''AnnounceOriginated'')"
  shows "field_value p' k n = field_value p k n"
proof (cases k)
  case KString
  with second_pass_parts(1)[OF assms(1)] show ?thesis by (simp add: field_value_simps)
next
  case KInt
  with second_pass_parts(2)[OF assms(1)] show ?thesis by (simp add: field_value_simps)
next
  case KBool
  with assms(3) second_pass_parts(5)[OF assms(1), of n] show ?thesis by (auto simp: field_value_simps)
next
  case KSlice
  from resolved_slice_other[OF assms(2), of e p] second_pass_parts(4)[OF assms(1), of n] KSlice show ?thesis
    by (simp add: field_value_simps)
next
  case KMap
  with second_pass_parts(3)[OF assms(1)] show ?thesis by (simp add: field_value_simps)
qed

lemma yaml_field_names:
  assumes "f \<in> set peer_fields" and "yaml_tag f \<noteq> ''-''"
  shows "field_name f \<notin> set [''ProtocolName'', ''BooleanOptions'', ''PrefixSet4'', ''PrefixSet6'',
        ''ImportStandardCommunities'', ''ImportLargeCommunities'', ''ExportStandardCommunities'',
        ''ExportLargeCommunities'', ''AnnounceStandardCommunities'', ''AnnounceLargeCommunities'',
        ''RemoveStandardCommunities'', ''RemoveLargeCommunities'']"
  using peer_fields_yaml assms unfolding list_all_iff by blast

subsection \<open>Errors of the second loop\<close>

lemma and_then_ErrE:
  assumes "and_then m f = Err msg"
  obtains "m = Err msg" | x where "m = Ok x" "f x = Err msg"
  using assms by (cases m) auto

lemma and_then_PanicE:
  assumes "and_then m f = Panic"
  obtains "m = Panic" | x where "m = Ok x" "f x = Panic"
  using assms by (cases m) auto

lemma categorize_communities_first_bad:
  "list_all (\<lambda>y. is_standard y \<or> is_large y) ys \<Longrightarrow> \<not> is_standard x \<Longrightarrow> \<not> is_large x \<Longrightarrow>
   categorize_communities what std lrg (ys @ x # zs) p = Err (''Invalid '' @ what @ '' community: '' @ x)"
  by (induction ys arbitrary: p) (auto simp: Let_def is_standard_def is_large_def)

lemma prefix_sets_first_bad:
  "list_all (\<lambda>y. ParseCIDR e y \<noteq> None) ys \<Longrightarrow> ParseCIDR e x = None \<Longrightarrow>
   prefix_sets e (ys @ x # zs) p = Err (''Invalid prefix: '' @ x)"
  by (induction ys arbitrary: p) auto

lemma community_field_Err:
  assumes "community_field what src std lrg q = Err m"
  shows "\<exists>ys x zs. elements q src = ys @ x # zs \<and> list_all (\<lambda>y. is_standard y \<or> is_large y) ys \<and>
     \<not> is_standard x \<and> \<not> is_large x \<and> m = ''Invalid '' @ what @ '' community: '' @ x"
proof (cases "slices q src")
  case None
  with assms show ?thesis by (simp add: community_field_def)
next
  case (Some xs)
  with assms have "categorize_communities what std lrg xs q = Err m" by (simp add: community_field_def)
  from categorize_communities_Err[OF this] Some show ?thesis
    by (simp add: elements_def)
qed

lemma prefix_field_Err:
  assumes "(case slices p ''Prefixes'' of None \<Rightarrow> Ok p | Some prefixes \<Rightarrow> prefix_sets e prefixes p) = Err m"
  shows "\<exists>ys x zs. elements p ''Prefixes'' = ys @ x # zs \<and> list_all (\<lambda>y. ParseCIDR e y \<noteq> None) ys \<and>
     ParseCIDR e x = None \<and> m = ''Invalid prefix: '' @ x"
proof (cases "slices p ''Prefixes''")
  case None
  with assms show ?thesis by simp
next
  case (Some xs)
  with assms have "prefix_sets e xs p = Err m" by simp
  from prefix_sets_Err[OF this] Some show ?thesis
    by (simp add: elements_def)
qed

lemma community_field_not_Panic: "community_field what src std lrg q \<noteq> Panic"
proof (cases "slices q src")
  case None
  then show ?thesis by (simp add: community_field_def)
next
  case (Some xs)
  with categorize_communities_outcome[of what std lrg xs q] show ?thesis
    by (auto simp: community_field_def)
qed

lemma prefix_field_not_Panic:
  "(case slices p ''Prefixes'' of None \<Rightarrow> Ok p | Some prefixes \<Rightarrow> prefix_sets e prefixes p) \<noteq> Panic"
proof (cases "slices p ''Prefixes''")
  case None
  then show ?thesis by simp
next
  case (Some xs)
  with prefix_sets_outcome[of e xs p] show ?thesis by auto
qed

lemma check_originated_not_Err: "check_originated b q \<noteq> Err msg"
  by (simp add: check_originated_def split: option.splits)

lemma second_pass_Err:
  assumes "second_pass e b p = Err msg"
  shows "(\<exists>ys x zs. elements p ''Prefixes'' = ys @ x # zs \<and> list_all (\<lambda>y. ParseCIDR e y \<noteq> None) ys \<and>
            ParseCIDR e x = None \<and> msg = ''Invalid prefix: '' @ x) \<or>
         (\<exists>what src std lrg ys x zs. (what, src, std, lrg) \<in> set community_fields \<and>
            elements p src = ys @ x # zs \<and> list_all (\<lambda>y. is_standard y \<or> is_large y) ys \<and>
            \<not> is_standard x \<and> \<not> is_large x \<and> msg = ''Invalid '' @ what @ '' community: '' @ x)"
proof -
  have found: ?thesis
    if "(what, src, std, lrg) \<in> set community_fields" and "community_field what src std lrg q = Err msg"
      and "elements q src = elements p src" for what src std lrg q
  proof -
    from community_field_Err[OF that(2)] that(3) obtain ys x zs where
      "elements p src = ys @ x # zs" "list_all (\<lambda>y. is_standard y \<or> is_large y) ys"
      "\<not> is_standard x" "\<not> is_large x" "msg = ''Invalid '' @ what @ '' community: '' @ x"
      by auto
    with that(1) have "\<exists>what src std lrg ys x zs. (what, src, std, lrg) \<in> set community_fields \<and>
            elements p src = ys @ x # zs \<and> list_all (\<lambda>y. is_standard y \<or> is_large y) ys \<and>
            \<not> is_standard x \<and> \<not> is_large x \<and> msg = ''Invalid '' @ what @ '' community: '' @ x"
      by blast
    then show ?thesis by (rule disjI2)
  qed
  have kept: "elements q' s = elements q s"
    if "community_field what src std lrg q = Ok q'" and "std \<noteq> lrg" and "s \<noteq> std" and "s \<noteq> lrg"
    for what src std lrg q q' s
    using community_field_Ok[OF that(1,2)] that(3,4) by (simp add: elements_def)
  from assms have a: "and_then (case slices p ''Prefixes'' of None \<Rightarrow> Ok p | Some prefixes \<Rightarrow> prefix_sets e prefixes p)
       (\<lambda>p1.
     and_then (community_field ''import'' ''ImportCommunities''
                 ''ImportStandardCommunities'' ''ImportLargeCommunities'' p1)
       (\<lambda>p2.
     and_then (community_field ''export'' ''ExportCommunities''
                 ''ExportStandardCommunities'' ''ExportLargeCommunities'' p2)
       (\<lambda>p3.
     and_then (community_field ''announce'' ''AnnounceCommunities''
                 ''AnnounceStandardCommunities'' ''AnnounceLargeCommunities'' p3)
       (\<lambda>p4.
     and_then (community_field ''remove'' ''RemoveCommunities''
                 ''RemoveStandardCommunities'' ''RemoveLargeCommunities'' p4)
       (check_originated b))))) = Err msg"
    by (simp only: second_pass_def)
  from a show ?thesis
  proof (cases rule: and_then_ErrE)
    case 1
    from prefix_field_Err[OF 1] show ?thesis by blast
  next
    case (2 p1)
    from prefix_field_Ok[OF 2(1)] have e1:
      "elements p1 ''ImportCommunities'' = elements p ''ImportCommunities''"
      "elements p1 ''ExportCommunities'' = elements p ''ExportCommunities''"
      "elements p1 ''AnnounceCommunities'' = elements p ''AnnounceCommunities''"
      "elements p1 ''RemoveCommunities'' = elements p ''RemoveCommunities''"
      by (simp_all add: elements_def)
    from 2(2) show ?thesis
    proof (cases rule: and_then_ErrE)
      case 1
      show ?thesis by (rule found[OF _ 1 e1(1)]) (simp add: community_fields_def)
    next
      case (2 p2)
      have e2:
        "elements p2 ''ExportCommunities'' = elements p ''ExportCommunities''"
        "elements p2 ''AnnounceCommunities'' = elements p ''AnnounceCommunities''"
        "elements p2 ''RemoveCommunities'' = elements p ''RemoveCommunities''"
        using kept[OF 2(1)] e1 by simp_all
      from 2(2) show ?thesis
      proof (cases rule: and_then_ErrE)
        case 1
        show ?thesis by (rule found[OF _ 1 e2(1)]) (simp add: community_fields_def)
      next
        case (2 p3)
        have e3:
          "elements p3 ''AnnounceCommunities'' = elements p ''AnnounceCommunities''"
          "elements p3 ''RemoveCommunities'' = elements p ''RemoveCommunities''"
          using kept[OF 2(1)] e2 by simp_all
        from 2(2) show ?thesis
        proof (cases rule: and_then_ErrE)
          case 1
          show ?thesis by (rule found[OF _ 1 e3(1)]) (simp add: community_fields_def)
        next
          case (2 p4)
          have e4: "elements p4 ''RemoveCommunities'' = elements p ''RemoveCommunities''"
            using kept[OF 2(1)] e3 by simp
          from 2(2) show ?thesis
          proof (cases rule: and_then_ErrE)
            case 1
            show ?thesis by (rule found[OF _ 1 e4]) (simp add: community_fields_def)
          next
            case (2 p5)
            with check_originated_not_Err show ?thesis by blast
          qed
        qed
      qed
    qed
  qed
qed

lemma second_pass_not_Panic:
  assumes "bools p ''AnnounceOriginated'' \<noteq> None"
  shows "second_pass e b p \<noteq> Panic"
proof
  assume "second_pass e b p = Panic"
  then have a: "and_then (case slices p ''Prefixes'' of None \<Rightarrow> Ok p | Some prefixes \<Rightarrow> prefix_sets e prefixes p)
       (\<lambda>p1.
     and_then (community_field ''import'' ''ImportCommunities''
                 ''ImportStandardCommunities'' ''ImportLargeCommunities'' p1)
       (\<lambda>p2.
     and_then (community_field ''export'' ''ExportCommunities''
                 ''ExportStandardCommunities'' ''ExportLargeCommunities'' p2)
       (\<lambda>p3.
     and_then (community_field ''announce'' ''AnnounceCommunities''
                 ''AnnounceStandardCommunities'' ''AnnounceLargeCommunities'' p3)
       (\<lambda>p4.
     and_then (community_field ''remove'' ''RemoveCommunities''
                 ''RemoveStandardCommunities'' ''RemoveLargeCommunities'' p4)
       (check_originated b))))) = Panic"
    by (simp only: second_pass_def)
  have kept: "bools q' = bools q"
    if "community_field what src std lrg q = Ok q'" and "std \<noteq> lrg" for what src std lrg q q'
    using community_field_Ok[OF that] by simp
  from a show False
  proof (cases rule: and_then_PanicE)
    case 1
    with prefix_field_not_Panic show False by blast
  next
    case (2 p1)
    from prefix_field_Ok[OF 2(1)] have b1: "bools p1 = bools p" by simp
    from 2(2) show False
    proof (cases rule: and_then_PanicE)
      case 1
      with community_field_not_Panic show False by blast
    next
      case (2 p2)
      from kept[OF 2(1)] b1 have b2: "bools p2 = bools p" by simp
      from 2(2) show False
      proof (cases rule: and_then_PanicE)
        case 1
        with community_field_not_Panic show False by blast
      next
        case (2 p3)
        from kept[OF 2(1)] b2 have b3: "bools p3 = bools p" by simp
        from 2(2) show False
        proof (cases rule: and_then_PanicE)
          case 1
          with community_field_not_Panic show False by blast
        next
          case (2 p4)
          from kept[OF 2(1)] b3 have b4: "bools p4 = bools p" by simp
          from 2(2) show False
          proof (cases rule: and_then_PanicE)
            case 1
            with community_field_not_Panic show False by blast
          next
            case (2 p5)
            from kept[OF 2(1)] b4 have "bools p5 = bools p" by simp
            with 2(2) assms show False
              by (auto simp: check_originated_def split: if_splits option.splits)
          qed
        qed
      qed
    qed
  qed
qed

lemma second_loop_Err:
  "second_loop e b ps = Err msg \<Longrightarrow>
   \<exists>i n p. i < length ps \<and> ps ! i = (n, Some p) \<and> second_pass e b p = Err msg"
proof (induction ps)
  case Nil
  then show ?case by simp
next
  case (Cons a rest)
  obtain n po where a: "a = (n, po)" by (cases a)
  from Cons.prems a obtain p where po: "po = Some p" by (cases po) auto
  from Cons.prems a po have t: "and_then (second_pass e b p) (\<lambda>p'.
          and_then (second_loop e b rest) (\<lambda>done. Ok ((n, Some p') # done))) = Err msg"
    by simp
  from t show ?case
  proof (cases rule: and_then_ErrE)
    case 1
    with a po have "0 < length (a # rest) \<and> (a # rest) ! 0 = (n, Some p) \<and> second_pass e b p = Err msg"
      by simp
    then show ?thesis by blast
  next
    case (2 p')
    from 2(2) have "second_loop e b rest = Err msg"
      by (cases rule: and_then_ErrE) simp_all
    from Cons.IH[OF this] obtain i m q where
      "i < length rest" "rest ! i = (m, Some q)" "second_pass e b q = Err msg" by blast
    then have "Suc i < length (a # rest) \<and> (a # rest) ! Suc i = (m, Some q) \<and> second_pass e b q = Err msg"
      by simp
    then show ?thesis by blast
  qed
qed

lemma second_loop_not_Panic:
  "list_all (\<lambda>a. \<exists>p. snd a = Some p \<and> bools p ''AnnounceOriginated'' \<noteq> None) ps \<Longrightarrow>
   second_loop e b ps \<noteq> Panic"
proof (induction ps)
  case Nil
  show ?case by simp
next
  case (Cons a rest)
  obtain n po where a: "a = (n, po)" by (cases a)
  from Cons.prems a obtain p where po: "po = Some p" and bp: "bools p ''AnnounceOriginated'' \<noteq> None"
    by auto
  from Cons have ih: "second_loop e b rest \<noteq> Panic" by simp
  show ?case
  proof
    assume "second_loop e b (a # rest) = Panic"
    with a po have t: "and_then (second_pass e b p) (\<lambda>p'.
          and_then (second_loop e b rest) (\<lambda>done. Ok ((n, Some p') # done))) = Panic"
      by simp
    from t show False
    proof (cases rule: and_then_PanicE)
      case 1
      with second_pass_not_Panic[OF bp] show False by blast
    next
      case (2 p')
      from 2(2) have "second_loop e b rest = Panic"
        by (cases rule: and_then_PanicE) simp_all
      with ih show False by simp
    qed
  qed
qed


section \<open>The sample inputs are accepted\<close>

lemma sample_communities:
  "categorizeCommunity ''100,200'' = ''standard''"
  "categorizeCommunity ''100:200:300'' = ''large''"
  "categorizeCommunity ''65535,0'' = ''standard''"
  "categorizeCommunity ''65536,0'' = ''''"
  by (simp_all add: categorizeCommunity_def Atoi_def is_digit_def Let_def)

lemma sample_env [simp]:
  "Unmarshal (env_of c) blob = Inr c"
  "Validate (env_of c) = required_fields"
  "OsHostname (env_of c) = Inr ''localhost''"
  "Sanitize (env_of c) = (\<lambda>s. s)"
  "ParseCIDR (env_of c) = sample_cidr"
  "ParseIP (env_of c) = sample_ip"
  by (simp_all add: env_of_def)

lemma sample_config_fields [simp]:
  "Prefixes sample_config = [''192.0.2.0/24'', ''2001:db8::/32'', ''192.0.2.0/24'']"
  "Templates sample_config = [(''upstream'', Some sample_template)]"
  "Peers sample_config = [(''Peer1'', Some sample_peer1), (''Peer2'', Some sample_peer2)]"
  "Prefixes4 sample_config = []" "Prefixes6 sample_config = []" "QueryNVRS sample_config = False"
  "Hostname sample_config = ''router1''"
  "VRRPInstances sample_config = []" "BFDInstances sample_config = []"
  "Augments sample_config = \<lparr>Statics = [], SRDCommunities = [], SRDStandardCommunities = [],
                  SRDLargeCommunities = [], Statics4 = Map.empty, Statics6 = Map.empty\<rparr>"
  "RTRServer sample_config = ''rtr.rpki.cloudflare.com:8282''"
  "required_fields sample_config = None"
  by (simp_all add: sample_config_def no_config_def required_fields_def)

lemma sample_templates_ok: "check_templates (Templates sample_config) = Ok ()"
  by (simp add: sample_template_def no_peer_def)

lemma sample_globals_ok: "globals_ok (env_of sample_config) sample_config"
  by (simp add: globals_ok_def is_ok_def sample_cidr_def Atoi_def is_digit_def Let_def)

lemma in_schema_iff: "in_schema k n = (\<exists>f\<in>set peer_fields. field_kind f = k \<and> field_name f = n)"
  by (simp add: in_schema_def list_ex_iff)

lemma slices_merged_schema:
  "slices (merged ts p) n =
     (case template_of ts p of
        None \<Rightarrow> slices p n
      | Some t \<Rightarrow>
          if n \<noteq> ''Template'' \<and> slices p n = None \<and> in_schema KSlice n then slices t n else slices p n)"
  by (simp only: slices_merged in_schema_iff)

lemma source_fields:
  "in_schema KSlice ''Prefixes''"
  "in_schema KSlice ''ImportCommunities''"
  "in_schema KSlice ''ExportCommunities''"
  "in_schema KSlice ''AnnounceCommunities''"
  "in_schema KSlice ''RemoveCommunities''"
  "in_schema KSlice ''NeighborIPs''"
  by (simp_all add: in_schema_def peer_fields_def)

lemma sample_peer1_template:
  "template_of [(''upstream'', Some sample_template)] sample_peer1 = Some sample_template"
  "names_template sample_peer1"
  by (simp_all add: template_of_def names_template_def sample_peer1_def no_peer_def)

lemma sample_peer1_ok:
  "entry_ok (env_of sample_config) [(''upstream'', Some sample_template)] (''Peer1'', Some sample_peer1)"
proof -
  have n: "has_neighbors sample_peer1"
    by (simp add: has_neighbors_def sample_peer1_def no_peer_def)
  have m: "slices (merged [(''upstream'', Some sample_template)] sample_peer1) fld =
      (if fld \<noteq> ''Template'' \<and> slices sample_peer1 fld = None \<and> in_schema KSlice fld
       then slices sample_template fld else slices sample_peer1 fld)" for fld
    by (simp add: slices_merged_schema sample_peer1_template)
  have l: "lists_ok (env_of sample_config) (merged [(''upstream'', Some sample_template)] sample_peer1)"
    unfolding lists_ok_def elements_def m
    by (simp add: source_fields sample_peer1_def sample_template_def no_peer_def
        sample_cidr_def is_standard_def is_large_def sample_communities)
  from n l show ?thesis by (simp add: entry_ok_def sample_peer1_template)
qed

lemma sample_peer2_ok:
  "entry_ok (env_of sample_config) [(''upstream'', Some sample_template)] (''Peer2'', Some sample_peer2)"
  by (simp add: entry_ok_def has_neighbors_def names_template_def template_of_def lists_ok_def
      elements_def slices_merged_schema source_fields sample_peer2_def no_peer_def)

lemma sample_entries_ok:
  "list_all (entry_ok (env_of sample_config) (Templates sample_config)) (Peers sample_config)"
  using sample_peer1_ok sample_peer2_ok by simp

lemma sample_loads: "\<exists>c'. loaded (Load (env_of sample_config) blob) = Some c'"
proof -
  have h: "hostname_ok (env_of sample_config) sample_config" by (simp add: hostname_ok_def)
  have u: "Unmarshal (env_of sample_config) blob = Inr sample_config" by simp
  have v: "Validate (env_of sample_config) sample_config = None" by simp
  from iffD2[OF Load_succeeds_iff[OF u v]] sample_templates_ok h sample_entries_ok sample_globals_ok
  show ?thesis by blast
qed


section \<open>The claims of the specification\<close>

lemma loaded_peer:
  assumes "Unmarshal e blob = Inr c" and "loaded (Load e blob) = Some c'" and "i < length (Peers c')"
  obtains n p p1 p2 where "i < length (Peers c)" "Peers c ! i = (n, Some p)"
    "first_pass e (Templates c) n p = Ok p1"
    "second_pass e (length (Prefixes c) < 1) p1 = Ok p2" "Peers c' ! i = (n, Some p2)"
proof -
  from assms(1,2) have r: "resolve e c = Ok c'" by (auto simp: loaded_iff)
  from resolve_length[OF r] assms(3) have i: "i < length (Peers c)" by simp
  obtain n po where a: "Peers c ! i = (n, po)" by (cases "Peers c ! i")
  from resolve_peer[OF r i a] a i that show ?thesis by blast
qed

lemma decoded_sample: "decoded sample_config"
  by (simp add: decoded_def internal_unset_def IsNil_def field_value_simps peer_fields_def
      sample_peer1_def sample_peer2_def sample_template_def no_peer_def)

text \<open>
  Claim C10. The flag \<^verbatim>\<open>QueryNVRS\<close> of a configuration that was loaded is true exactly
  when some peer of the document sets the field \<^verbatim>\<open>filter-never-via-route-servers\<close>, to
  either value: the peers are taken as the decoder gives them, before templates and
  defaults, so a value that comes from a template or from the default does not count.
\<close>

theorem QueryNVRS_iff_field_present:
  assumes "Unmarshal e blob = Inr c" and "decoded c" and "loaded (Load e blob) = Some c'"
  shows "QueryNVRS c' = list_ex sets_nvrs (Peers c)"
proof -
  from assms(1,3) have r: "resolve e c = Ok c'" by (auto simp: loaded_iff)
  from resolve_Ok[OF r] obtain ps1 where
    "first_loop e (Templates c) (Peers c) (QueryNVRS c) = Ok (ps1, QueryNVRS c')" by blast
  from first_loop_Ok[OF this] have "QueryNVRS c' = (QueryNVRS c \<or> list_ex sets_nvrs (Peers c))" by simp
  with assms(2) show ?thesis by (simp add: decoded_def)
qed

theorem QueryNVRS_iff_field_present_witness:
  "decoded sample_config \<and>
   bools sample_peer1 ''FilterNeverViaRouteServers'' = Some False \<and>
   (\<exists>c'. loaded (Load (env_of sample_config) ''peers: ...'') = Some c' \<and> QueryNVRS c')"
proof -
  obtain c' where l: "loaded (Load (env_of sample_config) ''peers: ...'') = Some c'"
    using sample_loads by blast
  have u: "Unmarshal (env_of sample_config) ''peers: ...'' = Inr sample_config" by simp
  have f: "bools sample_peer1 ''FilterNeverViaRouteServers'' = Some False"
    by (simp add: sample_peer1_def no_peer_def)
  then have "list_ex sets_nvrs (Peers sample_config)" by (simp add: sets_nvrs_def)
  with QueryNVRS_iff_field_present[OF u decoded_sample l] have "QueryNVRS c'" by simp
  with l f decoded_sample show ?thesis by blast
qed

lemma check_templates_outcome:
  "check_templates ts = Ok () \<or>
   (\<exists>n t r. check_templates ts = Fatal (''Templates must not have a template field set, but '' @ n @ '' does'') \<and>
      (n, Some t) \<in> set ts \<and> strings t ''Template'' = Some r \<and> r \<noteq> '''') \<or>
   (check_templates ts = Panic \<and> (\<exists>n. (n, None) \<in> set ts))"
proof (induction ts)
  case Nil
  show ?case by simp
next
  case (Cons a ts)
  obtain n po where a: "a = (n, po)" by (cases a)
  show ?case
  proof (cases po)
    case None
    with a show ?thesis by auto
  next
    case (Some t)
    show ?thesis
    proof (cases "strings t ''Template''")
      case None
      with a Some Cons.IH show ?thesis by auto
    next
      case r: (Some r)
      show ?thesis
      proof (cases "r = ''''")
        case True
        with a Some r Cons.IH show ?thesis by auto
      next
        case False
        with a Some r show ?thesis by auto
      qed
    qed
  qed
qed

lemma check_templates_Ok:
  "check_templates ts = Ok () \<Longrightarrow> (n, Some t) \<in> set ts \<Longrightarrow> strings t ''Template'' = Some r \<Longrightarrow> r = ''''"
proof (induction ts)
  case Nil
  then show ?case by simp
next
  case (Cons a ts)
  obtain m po where a: "a = (m, po)" by (cases a)
  from Cons.prems(1) a obtain u where u: "po = Some u" by (cases po) auto
  from Cons.prems(1) a u have ok: "check_templates ts = Ok ()" and
    h: "strings u ''Template'' = None \<or> strings u ''Template'' = Some ''''"
    by (auto split: option.splits if_splits)
  show ?case
  proof (cases "(n, Some t) = a")
    case True
    with a u have "u = t" by simp
    with h Cons.prems(3) show ?thesis by auto
  next
    case False
    with Cons.prems(2) have "(n, Some t) \<in> set ts" by simp
    from Cons.IH[OF ok this Cons.prems(3)] show ?thesis .
  qed
qed

lemma Load_templates_rejected:
  assumes "Unmarshal e blob = Inr c" and "Validate e c = None" and "check_templates (Templates c) \<noteq> Ok ()"
  shows "Load e blob = (case check_templates (Templates c) of Fatal msg \<Rightarrow> Exit msg | _ \<Rightarrow> Panicked)"
proof -
  from check_templates_outcome[of "Templates c"] assms(3)
  have "(\<exists>msg. check_templates (Templates c) = Fatal msg) \<or> check_templates (Templates c) = Panic"
    by blast
  then show ?thesis
  proof
    assume "\<exists>msg. check_templates (Templates c) = Fatal msg"
    then obtain msg where f: "check_templates (Templates c) = Fatal msg" by blast
    then have "resolve e c = Fatal msg" by (simp add: resolve_def)
    with assms(1,2) f show ?thesis by (simp add: Load_def)
  next
    assume p: "check_templates (Templates c) = Panic"
    then have "resolve e c = Panic" by (simp add: resolve_def)
    with assms(1,2) p show ?thesis by (simp add: Load_def)
  qed
qed

text \<open>
  Claim C7. When a template of the configuration names a template, \<^verbatim>\<open>Load\<close> ends at the
  check of lines 307 to 312: the process exits with the message that names such a template
  (or panics on a \<open>nil\<close> entry of the templates that the loop reaches first). No
  configuration is returned, and the outcome is the same for every configuration with these
  templates that passes decoding and validation, whatever its peers are: no peer is looked
  at.
\<close>

theorem nested_template_rejected:
  assumes "Unmarshal e blob = Inr c" and "Validate e c = None"
    and "(name, Some t) \<in> set (Templates c)" and "strings t ''Template'' = Some r" and "r \<noteq> ''''"
  shows "loaded (Load e blob) = None \<and>
    ((\<exists>n t' r'. Load e blob = Exit (''Templates must not have a template field set, but '' @ n @ '' does'') \<and>
        (n, Some t') \<in> set (Templates c) \<and> strings t' ''Template'' = Some r' \<and> r' \<noteq> '''') \<or>
     (Load e blob = Panicked \<and> (\<exists>n. (n, None) \<in> set (Templates c)))) \<and>
    (\<forall>e' blob' c2. Unmarshal e' blob' = Inr c2 \<and> Validate e' c2 = None \<and> Templates c2 = Templates c
        \<longrightarrow> Load e' blob' = Load e blob)"
proof -
  have bad: "check_templates (Templates c) \<noteq> Ok ()"
    using check_templates_Ok[OF _ assms(3) assms(4)] assms(5) by blast
  note l = Load_templates_rejected[OF assms(1) assms(2) bad]
  have 1: "loaded (Load e blob) = None"
    unfolding l by (simp add: loaded_def split: res.splits)
  have 2: "(\<exists>n t' r'. Load e blob = Exit (''Templates must not have a template field set, but '' @ n @ '' does'') \<and>
        (n, Some t') \<in> set (Templates c) \<and> strings t' ''Template'' = Some r' \<and> r' \<noteq> '''') \<or>
     (Load e blob = Panicked \<and> (\<exists>n. (n, None) \<in> set (Templates c)))"
  proof -
    from check_templates_outcome[of "Templates c"] bad
    consider (fatal) n t' r' where
        "check_templates (Templates c) = Fatal (''Templates must not have a template field set, but '' @ n @ '' does'')"
        "(n, Some t') \<in> set (Templates c)" "strings t' ''Template'' = Some r'" "r' \<noteq> ''''"
      | (panic) n where "check_templates (Templates c) = Panic" "(n, None) \<in> set (Templates c)"
      by blast
    then show ?thesis
    proof cases
      case fatal
      from fatal(1) have "Load e blob = Exit (''Templates must not have a template field set, but '' @ n @ '' does'')"
        unfolding l by simp
      with fatal show ?thesis by blast
    next
      case panic
      from panic(1) have "Load e blob = Panicked" unfolding l by simp
      with panic show ?thesis by blast
    qed
  qed
  have 3: "Load e' blob' = Load e blob"
    if "Unmarshal e' blob' = Inr c2 \<and> Validate e' c2 = None \<and> Templates c2 = Templates c" for e' blob' c2
  proof -
    from that bad have "check_templates (Templates c2) \<noteq> Ok ()" by simp
    from Load_templates_rejected[OF _ _ this, of e' blob'] that l show ?thesis by simp
  qed
  from 1 2 3 show ?thesis by blast
qed

lemma sample_nested_fields [simp]:
  "Templates sample_nested = [(''upstream'', Some (sample_template\<lparr>strings := [''Template'' \<mapsto> ''base'']\<rparr>))]"
  "required_fields sample_nested = None"
  by (simp_all add: sample_nested_def sample_config_def no_config_def required_fields_def)

lemma sample_nested_exits:
  "Load (env_of sample_nested) blob =
     Exit ''Templates must not have a template field set, but upstream does''"
proof -
  have "check_templates (Templates sample_nested) =
      Fatal ''Templates must not have a template field set, but upstream does''"
    by simp
  then have "resolve (env_of sample_nested) sample_nested =
      Fatal ''Templates must not have a template field set, but upstream does''"
    by (simp add: resolve_def)
  then show ?thesis by (simp add: Load_def)
qed

theorem nested_template_rejected_witness:
  "Load (env_of sample_nested) ''templates: ...'' =
     Exit ''Templates must not have a template field set, but upstream does'' \<and>
   loaded (Load (env_of sample_nested) ''templates: ...'') = None"
proof -
  have u: "Unmarshal (env_of sample_nested) ''templates: ...'' = Inr sample_nested" by simp
  have v: "Validate (env_of sample_nested) sample_nested = None" by simp
  have m: "(''upstream'', Some (sample_template\<lparr>strings := [''Template'' \<mapsto> ''base'']\<rparr>)) \<in> set (Templates sample_nested)"
    by simp
  have s: "strings (sample_template\<lparr>strings := [''Template'' \<mapsto> ''base'']\<rparr>) ''Template'' = Some ''base''"
    by simp
  have r: "''base'' \<noteq> ''''" by simp
  from nested_template_rejected[OF u v m s r]
  have n: "loaded (Load (env_of sample_nested) ''templates: ...'') = None" by blast
  with sample_nested_exits show ?thesis by simp
qed

lemma set_hostname_outcome:
  "(\<exists>c1. set_hostname e c = Ok c1) \<or> (\<exists>msg. set_hostname e c = Fatal msg)"
  by (cases "OsHostname e") (auto simp: set_hostname_def)

lemma resolve_no_neighbors:
  assumes "i < length (Peers c)" and "Peers c ! i = (n, Some p)" and "\<not> has_neighbors p"
  shows "(\<exists>msg. resolve e c = Fatal msg) \<or> resolve e c = Panic"
proof -
  from check_templates_outcome[of "Templates c"]
  consider (ok) "check_templates (Templates c) = Ok ()"
    | (fatal) msg where "check_templates (Templates c) = Fatal msg"
    | (panic) "check_templates (Templates c) = Panic"
    by blast
  then show ?thesis
  proof cases
    case fatal
    then show ?thesis by (simp add: resolve_def)
  next
    case panic
    then show ?thesis by (simp add: resolve_def)
  next
    case ok
    from set_hostname_outcome[of e c] show ?thesis
    proof
      assume "\<exists>msg. set_hostname e c = Fatal msg"
      with ok show ?thesis by (auto simp: resolve_def)
    next
      assume "\<exists>c1. set_hostname e c = Ok c1"
      then obtain c1 where h: "set_hostname e c = Ok c1" by blast
      from set_hostname_Ok[OF h] obtain hn where c1: "c1 = c\<lparr>Hostname := hn\<rparr>" by blast
      have mem: "(n, Some p) \<in> set (Peers c)" using assms(1,2) by (metis nth_mem)
      have "\<not> (\<exists>q q1. snd (n, Some p) = Some q \<and> first_pass e (Templates c) (fst (n, Some p)) q = Ok q1)"
        using assms(3) by (simp add: first_pass_eq)
      from first_loop_fails[OF mem this]
      have nok: "first_loop e (Templates c) (Peers c) (QueryNVRS c) \<noteq> Ok r" for r .
      from first_loop_outcome[of e "Templates c" "Peers c" "QueryNVRS c"] nok
      have "(\<exists>msg. first_loop e (Templates c) (Peers c) (QueryNVRS c) = Fatal msg) \<or>
            first_loop e (Templates c) (Peers c) (QueryNVRS c) = Panic"
        by blast
      then have "(\<exists>msg. resolve_peers e c1 = Fatal msg) \<or> resolve_peers e c1 = Panic"
        by (auto simp: resolve_peers_def c1)
      with ok h show ?thesis by (auto simp: resolve_def)
    qed
  qed
qed

lemma resolve_first_peer_no_neighbors:
  assumes "check_templates (Templates c) = Ok ()" and "hostname_ok e c"
    and "Peers c = (n, Some p) # rest" and "\<not> has_neighbors p"
  shows "resolve e c = Fatal (''['' @ n @ ''] has no neighbors defined'')"
proof -
  from set_hostname_succeeds[OF assms(2)] obtain hn where h: "set_hostname e c = Ok (c\<lparr>Hostname := hn\<rparr>)"
    by blast
  have "first_loop e (Templates c) (Peers c) (QueryNVRS c) = Fatal (''['' @ n @ ''] has no neighbors defined'')"
    using assms(3,4) by (simp add: first_pass_eq)
  then have "resolve_peers e (c\<lparr>Hostname := hn\<rparr>) = Fatal (''['' @ n @ ''] has no neighbors defined'')"
    by (simp add: resolve_peers_def)
  with assms(1) h show ?thesis by (simp add: resolve_def)
qed

text \<open>
  Claim C6, as amended. The check for neighbors (lines 332 to 334) reads the peer as the
  decoder left it and comes before the template of the peer is looked up (line 339). A peer
  whose own list of neighbors is unset or empty therefore ends the load, whatever its
  template sets: \<^verbatim>\<open>Load\<close> returns no configuration, the process exits or panics, and when
  nothing before that peer fails the message is the one of line 333.
\<close>

theorem neighbors_checked_before_template:
  assumes "Unmarshal e blob = Inr c" and "Validate e c = None"
    and "i < length (Peers c)" and "Peers c ! i = (n, Some p)" and "\<not> has_neighbors p"
  shows "loaded (Load e blob) = None \<and>
     ((\<exists>msg. Load e blob = Exit msg) \<or> Load e blob = Panicked) \<and>
     (check_templates (Templates c) = Ok () \<and> hostname_ok e c \<and> i = 0 \<longrightarrow>
        Load e blob = Exit (''['' @ n @ ''] has no neighbors defined''))"
proof -
  from resolve_no_neighbors[OF assms(3,4,5), of e]
  have a: "(\<exists>msg. Load e blob = Exit msg) \<or> Load e blob = Panicked"
    using assms(1,2) by (auto simp: Load_def)
  then have b: "loaded (Load e blob) = None" by (auto simp: loaded_def)
  have c: "Load e blob = Exit (''['' @ n @ ''] has no neighbors defined'')"
    if t: "check_templates (Templates c) = Ok ()" and h: "hostname_ok e c" and i: "i = 0"
  proof -
    from assms(3,4) i have "Peers c = (n, Some p) # tl (Peers c)"
      by (cases "Peers c") simp_all
    from resolve_first_peer_no_neighbors[OF t h this assms(5)] assms(1,2)
    show ?thesis by (simp add: Load_def)
  qed
  from a b c show ?thesis by blast
qed

lemma sample_orphan_fields [simp]:
  "Templates sample_orphan = [(''upstream'', Some sample_template)]"
  "Peers sample_orphan = [(''Peer3'', Some (no_peer\<lparr>strings := [''Template'' \<mapsto> ''upstream''],
                                                      ints := [''ASN'' \<mapsto> 65510]\<rparr>))]"
  "required_fields sample_orphan = None"
  "Hostname sample_orphan = ''router1''"
  by (simp_all add: sample_orphan_def sample_config_def no_config_def required_fields_def)

lemma sample_orphan_template:
  "template_of (Templates sample_orphan)
     (no_peer\<lparr>strings := [''Template'' \<mapsto> ''upstream''], ints := [''ASN'' \<mapsto> 65510]\<rparr>) = Some sample_template"
  "slices sample_template ''NeighborIPs'' = Some [''192.0.2.9'']"
  "\<not> has_neighbors (no_peer\<lparr>strings := [''Template'' \<mapsto> ''upstream''], ints := [''ASN'' \<mapsto> 65510]\<rparr>)"
  by (simp_all add: template_of_def sample_template_def no_peer_def has_neighbors_def)

theorem neighbors_checked_before_template_witness:
  "Load (env_of sample_orphan) ''peers: ...'' = Exit ''[Peer3] has no neighbors defined'' \<and>
   loaded (Load (env_of sample_orphan) ''peers: ...'') = None"
proof -
  have u: "Unmarshal (env_of sample_orphan) ''peers: ...'' = Inr sample_orphan" by simp
  have v: "Validate (env_of sample_orphan) sample_orphan = None" by simp
  have i: "0 < length (Peers sample_orphan)" by simp
  have p: "Peers sample_orphan ! 0 = (''Peer3'', Some (no_peer\<lparr>strings := [''Template'' \<mapsto> ''upstream''],
                                                      ints := [''ASN'' \<mapsto> 65510]\<rparr>))" by simp
  have t: "check_templates (Templates sample_orphan) = Ok ()"
    by (simp add: sample_template_def no_peer_def)
  have h: "hostname_ok (env_of sample_orphan) sample_orphan" by (simp add: hostname_ok_def)
  note th = neighbors_checked_before_template[OF u v i p sample_orphan_template(3)]
  from th have a: "loaded (Load (env_of sample_orphan) ''peers: ...'') = None" by blast
  from th t h have b: "Load (env_of sample_orphan) ''peers: ...'' =
      Exit (''['' @ ''Peer3'' @ ''] has no neighbors defined'')" by blast
  from a b show ?thesis by simp
qed

theorem template_neighbors_counterexample:
  "template_of (Templates sample_orphan)
     (no_peer\<lparr>strings := [''Template'' \<mapsto> ''upstream''], ints := [''ASN'' \<mapsto> 65510]\<rparr>) = Some sample_template \<and>
   slices sample_template ''NeighborIPs'' = Some [''192.0.2.9''] \<and>
   Validate (env_of sample_orphan) sample_orphan = None \<and>
   Load (env_of sample_orphan) ''peers: ...'' = Exit ''[Peer3] has no neighbors defined'' \<and>
   loaded (Load (env_of sample_orphan) ''peers: ...'') = None"
proof -
  have t: "check_templates (Templates sample_orphan) = Ok ()"
    by (simp add: sample_template_def no_peer_def)
  have h: "hostname_ok (env_of sample_orphan) sample_orphan" by (simp add: hostname_ok_def)
  from resolve_first_peer_no_neighbors[OF t h sample_orphan_fields(2) sample_orphan_template(3)]
  have "Load (env_of sample_orphan) ''peers: ...'' = Exit ''[Peer3] has no neighbors defined''"
    by (simp add: Load_def)
  then show ?thesis using sample_orphan_template by (simp add: loaded_def)
qed

lemma entry_ok_bools:
  "entry_ok e ts (n, Some (p\<lparr>bools := b\<rparr>)) = entry_ok e ts (n, Some p)"
proof -
  have t: "template_of ts (p\<lparr>bools := b\<rparr>) = template_of ts p"
    by (simp add: template_of_def)
  have "slices (merged ts (p\<lparr>bools := b\<rparr>)) fld = slices (merged ts p) fld" for fld
    unfolding slices_merged_schema t by (cases "template_of ts p") simp_all
  then have "lists_ok e (merged ts (p\<lparr>bools := b\<rparr>)) = lists_ok e (merged ts p)"
    by (simp add: lists_ok_def elements_def)
  then show ?thesis
    by (simp add: entry_ok_def has_neighbors_def names_template_def t)
qed

lemma entry_ok_env:
  assumes "ParseCIDR e1 = ParseCIDR e2"
  shows "entry_ok e1 ts a = entry_ok e2 ts a"
proof -
  have "lists_ok e1 q = lists_ok e2 q" for q
    using assms by (simp add: lists_ok_def)
  then show ?thesis
    by (cases "snd a") (simp_all add: entry_ok_def)
qed

lemma entries_ok_with_originated:
  "list_all (entry_ok e ts) (Peers (with_originated g c)) = list_all (entry_ok e ts) (Peers c)"
proof -
  have "entry_ok e ts (n, map_option (\<lambda>p. p\<lparr>bools := (bools p)(''AnnounceOriginated'' := g n)\<rparr>) po) =
        entry_ok e ts (n, po)" for n po
  proof (cases po)
    case None
    then show ?thesis by simp
  next
    case (Some p)
    then show ?thesis by (simp add: entry_ok_bools)
  qed
  then show ?thesis
    by (simp add: with_originated_def list_all_iff split_def)
qed

lemma resolve_with_originated:
  "(\<exists>d'. resolve e (with_originated g c) = Ok d') = (\<exists>c'. resolve e c = Ok c')"
proof -
  have "Templates (with_originated g c) = Templates c" by (simp add: with_originated_def)
  moreover have "hostname_ok e (with_originated g c) = hostname_ok e c"
    by (simp add: with_originated_def hostname_ok_def)
  moreover have "globals_ok e (with_originated g c) = globals_ok e c"
    by (simp add: with_originated_def)
  ultimately show ?thesis
    by (simp only: resolve_Ok_iff entries_ok_with_originated)
qed

text \<open>
  Claim C8. When the list of origin prefixes of the configuration is empty, every peer of a
  configuration that was loaded has its announce-originated flag set to false, whether the
  flag came from the document, from a template or from the default. The flag does not
  decide whether a configuration is accepted: lines 307 to 627 go through for a
  configuration exactly when they go through for the same configuration with other
  values, or none, in the announce-originated fields of its peers.
\<close>

theorem originated_forced_off:
  assumes "Unmarshal e blob = Inr c" and "Prefixes c = []"
  shows "(\<forall>c' i. loaded (Load e blob) = Some c' \<and> i < length (Peers c') \<longrightarrow>
            (\<exists>n p'. Peers c' ! i = (n, Some p') \<and> bools p' ''AnnounceOriginated'' = Some False)) \<and>
         (\<forall>g. (\<exists>d'. resolve e (with_originated g c) = Ok d') = (\<exists>c'. resolve e c = Ok c'))"
proof -
  have 1: "\<exists>n p'. Peers c' ! i = (n, Some p') \<and> bools p' ''AnnounceOriginated'' = Some False"
    if "loaded (Load e blob) = Some c' \<and> i < length (Peers c')" for c' i
  proof -
    from that have l: "loaded (Load e blob) = Some c'" and i: "i < length (Peers c')" by simp_all
    from loaded_peer[OF assms(1) l i] obtain n p1 p2 where
      s: "second_pass e (length (Prefixes c) < 1) p1 = Ok p2" and r: "Peers c' ! i = (n, Some p2)"
      by blast
    from second_pass_Ok[OF s] assms(2) have "bools p2 ''AnnounceOriginated'' = Some False" by simp
    with r show ?thesis by blast
  qed
  from 1 resolve_with_originated show ?thesis by blast
qed

lemma sample_no_origin_fields [simp]:
  "Prefixes sample_no_origin = []"
  "Templates sample_no_origin = [(''upstream'', Some sample_template)]"
  "Peers sample_no_origin =
     [(''Peer1'', Some (sample_peer1\<lparr>bools := (bools sample_peer1)(''AnnounceOriginated'' \<mapsto> True)\<rparr>)),
      (''Peer2'', Some sample_peer2)]"
  "Prefixes4 sample_no_origin = []" "Prefixes6 sample_no_origin = []" "QueryNVRS sample_no_origin = False"
  "Hostname sample_no_origin = ''router1''"
  "VRRPInstances sample_no_origin = []" "BFDInstances sample_no_origin = []"
  "Augments sample_no_origin = Augments sample_config"
  "RTRServer sample_no_origin = ''rtr.rpki.cloudflare.com:8282''"
  "required_fields sample_no_origin = None"
  by (simp_all add: sample_no_origin_def required_fields_def sample_config_def no_config_def)

lemma sample_no_origin_loads: "\<exists>c'. loaded (Load (env_of sample_no_origin) blob) = Some c'"
proof -
  have h: "hostname_ok (env_of sample_no_origin) sample_no_origin" by (simp add: hostname_ok_def)
  have u: "Unmarshal (env_of sample_no_origin) blob = Inr sample_no_origin" by simp
  have v: "Validate (env_of sample_no_origin) sample_no_origin = None" by simp
  have t: "check_templates (Templates sample_no_origin) = Ok ()"
    by (simp add: sample_template_def no_peer_def)
  have g: "globals_ok (env_of sample_no_origin) sample_no_origin"
    by (simp add: globals_ok_def is_ok_def Atoi_def is_digit_def Let_def)
  have en: "entry_ok (env_of sample_no_origin) ts a = entry_ok (env_of sample_config) ts a" for ts a
    by (rule entry_ok_env) simp
  have p: "list_all (entry_ok (env_of sample_no_origin) (Templates sample_no_origin)) (Peers sample_no_origin)"
    using sample_peer1_ok sample_peer2_ok by (simp add: en entry_ok_bools)
  from iffD2[OF Load_succeeds_iff[OF u v]] t h p g show ?thesis by blast
qed

theorem originated_forced_off_witness:
  "bools (sample_peer1\<lparr>bools := (bools sample_peer1)(''AnnounceOriginated'' \<mapsto> True)\<rparr>) ''AnnounceOriginated'' = Some True \<and>
   (\<exists>c' p'. loaded (Load (env_of sample_no_origin) ''prefixes: []'') = Some c' \<and>
      Peers c' ! 0 = (''Peer1'', Some p') \<and> bools p' ''AnnounceOriginated'' = Some False)"
proof -
  obtain c' where l: "loaded (Load (env_of sample_no_origin) ''prefixes: []'') = Some c'"
    using sample_no_origin_loads by blast
  have u: "Unmarshal (env_of sample_no_origin) ''prefixes: []'' = Inr sample_no_origin" by simp
  have 0: "0 < length (Peers c')"
    using l u resolve_length[of "env_of sample_no_origin" sample_no_origin c'] by (auto simp: loaded_iff)
  from loaded_peer[OF u l 0] obtain n p p2 where
    "Peers sample_no_origin ! 0 = (n, Some p)" "Peers c' ! 0 = (n, Some p2)" by blast
  then have n: "fst (Peers c' ! 0) = ''Peer1''" by simp
  from originated_forced_off[OF u sample_no_origin_fields(1)] l 0
  obtain m p' where "Peers c' ! 0 = (m, Some p')" "bools p' ''AnnounceOriginated'' = Some False"
    by blast
  with n l show ?thesis by auto
qed

lemma resolved_peer:
  assumes "Unmarshal e blob = Inr c" and "loaded (Load e blob) = Some c'"
    and "i < length (Peers c)" and "Peers c ! i = (n, Some p)"
  obtains p1 p2 where "first_pass e (Templates c) n p = Ok p1"
    "second_pass e (length (Prefixes c) < 1) p1 = Ok p2" "Peers c' ! i = (n, Some p2)"
proof -
  from assms(1,2) have r: "resolve e c = Ok c'" by (auto simp: loaded_iff)
  from resolve_peer[OF r assms(3) assms(4)] that show ?thesis by blast
qed

text \<open>
  Claim C3. In a configuration that was loaded, every field of every peer that has a
  declared default (a \<^verbatim>\<open>default\<close> tag other than \<open>-\<close>) holds a value. A field whose tag is
  \<open>-\<close> gets nothing from the defaults: it holds what the document or the template gave,
  and stays unset when they gave nothing. For any list of fields, one field without a
  \<^verbatim>\<open>default\<close> tag makes the loop of lines 369 to 412 end the process (\<^verbatim>\<open>log.Fatalf\<close>), on
  every peer as line 336 leaves it.
\<close>

theorem defaults_applied:
  assumes "Unmarshal e blob = Inr c" and "loaded (Load e blob) = Some c'"
    and "i < length (Peers c)" and "Peers c ! i = (n, Some p)"
  shows "(\<exists>p'. Peers c' ! i = (n, Some p') \<and>
           (\<forall>f\<in>set peer_fields. has_default f \<longrightarrow> value_of p' f \<noteq> None) \<and>
           (\<forall>f\<in>set peer_fields. default_tag f = ''-'' \<and> yaml_tag f \<noteq> ''-'' \<longrightarrow>
               value_of p' f = value_of (merged (Templates c) p) f)) \<and>
         (\<forall>fs f q. f \<in> set fs \<and> default_tag f = '''' \<and> slices q ''BooleanOptions'' \<noteq> None \<longrightarrow>
               (\<exists>msg. set_defaults fs q = Fatal msg))"
proof -
  from resolved_peer[OF assms] obtain p1 p2 where
    f: "first_pass e (Templates c) n p = Ok p1" and
    s: "second_pass e (length (Prefixes c) < 1) p1 = Ok p2" and
    r: "Peers c' ! i = (n, Some p2)"
    by blast
  have a: "value_of p2 f \<noteq> None" if "f \<in> set peer_fields" "has_default f" for f
  proof -
    from first_pass_defaulted[OF f that] have "field_value p1 (field_kind f) (field_name f) \<noteq> None"
      by (simp add: value_of_def)
    from second_pass_keeps[OF s this] show ?thesis by (simp add: value_of_def)
  qed
  have b: "value_of p2 f = value_of (merged (Templates c) p) f"
    if m: "f \<in> set peer_fields" and d: "default_tag f = ''-''" and y: "yaml_tag f \<noteq> ''-''" for f
  proof -
    note nm = yaml_field_names[OF m y]
    from d have nd: "\<not> has_default f" by (simp add: has_default_def)
    from nm have n1: "field_name f \<noteq> ''ProtocolName''" and n2: "field_name f \<noteq> ''BooleanOptions''"
      by simp_all
    from first_pass_no_default[OF f m nd n1 n2]
    have 1: "value_of p1 f = value_of (merged (Templates c) p) f" .
    have "Field ''AnnounceOriginated'' KBool ''announce-originated'' ''true'' \<in> set peer_fields"
      by (simp add: peer_fields_def)
    from peer_fields_unique[OF this m] d have n3: "field_name f \<noteq> ''AnnounceOriginated''"
      by auto
    from nm have n4: "field_name f \<notin> set [''PrefixSet4'', ''PrefixSet6'',
        ''ImportStandardCommunities'', ''ImportLargeCommunities'', ''ExportStandardCommunities'',
        ''ExportLargeCommunities'', ''AnnounceStandardCommunities'', ''AnnounceLargeCommunities'',
        ''RemoveStandardCommunities'', ''RemoveLargeCommunities'']" by simp
    from n3 have n5: "\<not> (length (Prefixes c) < 1 \<and> field_name f = ''AnnounceOriginated'')" by simp
    from second_pass_frame[OF s n4 n5, of "field_kind f"] 1
    show ?thesis by (simp add: value_of_def)
  qed
  have c: "\<exists>msg. set_defaults fs q = Fatal msg"
    if "f \<in> set fs \<and> default_tag f = '''' \<and> slices q ''BooleanOptions'' \<noteq> None" for fs f q
    using set_defaults_tagless[of f fs q] that by blast
  from r a b c show ?thesis by blast
qed

theorem defaults_applied_witness:
  "(\<exists>c' p'. loaded (Load (env_of sample_config) ''peers: ...'') = Some c' \<and>
      Peers c' ! 1 = (''Peer2'', Some p') \<and>
      value_of p' (Field ''LocalPref'' KInt ''local-pref'' ''100'') \<noteq> None \<and>
      value_of p' (Field ''Description'' KString ''description'' ''-'') = None) \<and>
   (\<exists>msg. set_defaults [Field ''Untagged'' KInt ''untagged'' '''']
      (prepared (env_of sample_config) ''Peer2'' sample_peer2) = Fatal msg)"
proof -
  obtain c' where l: "loaded (Load (env_of sample_config) ''peers: ...'') = Some c'"
    using sample_loads by blast
  have u: "Unmarshal (env_of sample_config) ''peers: ...'' = Inr sample_config" by simp
  have i: "1 < length (Peers sample_config)" by simp
  have p: "Peers sample_config ! 1 = (''Peer2'', Some sample_peer2)" by simp
  note th = defaults_applied[OF u l i p]
  from th obtain p' where
    r: "Peers c' ! 1 = (''Peer2'', Some p')" and
    a: "\<forall>f\<in>set peer_fields. has_default f \<longrightarrow> value_of p' f \<noteq> None" and
    b: "\<forall>f\<in>set peer_fields. default_tag f = ''-'' \<and> yaml_tag f \<noteq> ''-'' \<longrightarrow>
               value_of p' f = value_of (merged (Templates sample_config) sample_peer2) f"
    by blast
  have m1: "Field ''LocalPref'' KInt ''local-pref'' ''100'' \<in> set peer_fields"
    by (simp add: peer_fields_def)
  have m2: "Field ''Description'' KString ''description'' ''-'' \<in> set peer_fields"
    by (simp add: peer_fields_def)
  from a m1 have v1: "value_of p' (Field ''LocalPref'' KInt ''local-pref'' ''100'') \<noteq> None"
    by (simp add: has_default_def)
  have t: "template_of (Templates sample_config) sample_peer2 = None"
    by (simp add: template_of_def sample_peer2_def no_peer_def)
  have "value_of (merged (Templates sample_config) sample_peer2) (Field ''Description'' KString ''description'' ''-'') = None"
    unfolding merged_def t by (simp add: value_of_def field_value_simps sample_peer2_def no_peer_def)
  with b m2 have v2: "value_of p' (Field ''Description'' KString ''description'' ''-'') = None"
    by simp
  have o: "slices (prepared (env_of sample_config) ''Peer2'' sample_peer2) ''BooleanOptions'' \<noteq> None"
    by (simp add: prepared_def)
  from th o have v3: "\<exists>msg. set_defaults [Field ''Untagged'' KInt ''untagged'' '''']
      (prepared (env_of sample_config) ''Peer2'' sample_peer2) = Fatal msg"
    by (simp add: set_default_def)
  from l r v1 v2 v3 show ?thesis by blast
qed

lemma template_of_Some:
  assumes "template_of ts p = Some t"
  shows "\<exists>name. strings p ''Template'' = Some name \<and> name \<noteq> '''' \<and> (name, Some t) \<in> set ts"
proof -
  from assms obtain name where n: "strings p ''Template'' = Some name" "name \<noteq> ''''"
    "map_of ts name = Some (Some t)"
    by (auto simp: template_of_def split: option.splits if_splits)
  from map_of_SomeD[OF n(3)] n show ?thesis by blast
qed

lemma internal_unset_value:
  assumes "internal_unset p" and "f \<in> set peer_fields" and "yaml_tag f = ''-''"
  shows "value_of p f = None"
  using assms by (auto simp: internal_unset_def list_all_iff IsNil_def value_of_def)

lemma decoded_peer:
  assumes "decoded c" and "i < length (Peers c)" and "Peers c ! i = (n, Some p)"
  shows "internal_unset p"
proof -
  from assms(2,3) have "(n, Some p) \<in> set (Peers c)" by (metis nth_mem)
  with assms(1) show ?thesis by (auto simp: decoded_def list_all_iff)
qed

lemma decoded_template:
  assumes "decoded c" and "(name, Some t) \<in> set (Templates c)"
  shows "internal_unset t"
  using assms by (auto simp: decoded_def list_all_iff)

text \<open>
  Claim C2, as amended. For a peer that names a template, and for every field of the peer
  other than the template reference: in the configuration that was loaded the field holds
  the template's value when the document left it unset in the peer and set it in the
  template, and it holds the peer's own value when the document set it in the peer,
  whatever the template holds. The one exception is the announce-originated flag when
  the list of origin prefixes is empty: lines 620 to 624 then set it to false.
\<close>

theorem template_merge:
  assumes "Unmarshal e blob = Inr c" and "decoded c" and "loaded (Load e blob) = Some c'"
    and "i < length (Peers c)" and "Peers c ! i = (n, Some p)"
    and "strings p ''Template'' = Some name" and "name \<noteq> ''''"
    and "map_of (Templates c) name = Some (Some t)"
    and "f \<in> set peer_fields" and "field_name f \<noteq> ''Template''"
    and "\<not> (field_name f = ''AnnounceOriginated'' \<and> Prefixes c = [])"
  shows "\<exists>p'. Peers c' ! i = (n, Some p') \<and>
     (value_of p f = None \<and> value_of t f \<noteq> None \<longrightarrow> value_of p' f = value_of t f) \<and>
     (value_of p f \<noteq> None \<longrightarrow> value_of p' f = value_of p f)"
proof -
  from resolved_peer[OF assms(1) assms(3) assms(4) assms(5)] obtain p1 p2 where
    fp: "first_pass e (Templates c) n p = Ok p1" and
    sp: "second_pass e (length (Prefixes c) < 1) p1 = Ok p2" and
    r: "Peers c' ! i = (n, Some p2)"
    by blast
  have t: "template_of (Templates c) p = Some t"
    using assms(6,7,8) by (simp add: template_of_def)
  have ex: "\<exists>g\<in>set peer_fields. field_kind g = field_kind f \<and> field_name g = field_name f"
    using assms(9) by blast
  have m: "value_of (merged (Templates c) p) f =
      (if value_of p f = None then value_of t f else value_of p f)"
    unfolding value_of_def field_value_merged t using assms(10) ex by simp
  have goal: "(value_of p f = None \<and> value_of t f \<noteq> None \<longrightarrow> value_of p2 f = value_of t f) \<and>
     (value_of p f \<noteq> None \<longrightarrow> value_of p2 f = value_of p f)"
  proof (cases "yaml_tag f = ''-''")
    case True
    from map_of_SomeD[OF assms(8)] have "(name, Some t) \<in> set (Templates c)" .
    from internal_unset_value[OF decoded_template[OF assms(2) this] assms(9) True]
      internal_unset_value[OF decoded_peer[OF assms(2) assms(4) assms(5)] assms(9) True]
    show ?thesis by simp
  next
    case False
    note nm = yaml_field_names[OF assms(9) False]
    from nm have a: "\<not> (field_kind f = KString \<and> field_name f = ''ProtocolName'')"
      and b: "\<not> (field_kind f = KSlice \<and> field_name f = ''BooleanOptions'')"
      by simp_all
    from nm have d: "field_name f \<notin> set [''PrefixSet4'', ''PrefixSet6'',
        ''ImportStandardCommunities'', ''ImportLargeCommunities'', ''ExportStandardCommunities'',
        ''ExportLargeCommunities'', ''AnnounceStandardCommunities'', ''AnnounceLargeCommunities'',
        ''RemoveStandardCommunities'', ''RemoveLargeCommunities'']" by simp
    from assms(11) have o: "\<not> (length (Prefixes c) < 1 \<and> field_name f = ''AnnounceOriginated'')"
      by auto
    have second: "value_of p2 f = value_of p1 f"
      using second_pass_frame[OF sp d o, of "field_kind f"] by (simp add: value_of_def)
    have first: "value_of p1 f = value_of (merged (Templates c) p) f"
      if "value_of (merged (Templates c) p) f \<noteq> None"
      using first_pass_keeps[OF fp a b] that by (simp add: value_of_def)
    show ?thesis
    proof (intro conjI impI)
      assume h: "value_of p f = None \<and> value_of t f \<noteq> None"
      with m have "value_of (merged (Templates c) p) f = value_of t f" by simp
      with first h second show "value_of p2 f = value_of t f" by simp
    next
      assume h: "value_of p f \<noteq> None"
      with m have "value_of (merged (Templates c) p) f = value_of p f" by simp
      with first h second show "value_of p2 f = value_of p f" by simp
    qed
  qed
  with r show ?thesis by blast
qed

lemma sample_fields_in_schema:
  "Field ''Prepends'' KInt ''prepends'' ''0'' \<in> set peer_fields"
  "Field ''LocalPref'' KInt ''local-pref'' ''100'' \<in> set peer_fields"
  "Field ''AnnounceOriginated'' KBool ''announce-originated'' ''true'' \<in> set peer_fields"
  by (simp_all add: peer_fields_def)

theorem template_merge_witness:
  "value_of sample_peer1 (Field ''Prepends'' KInt ''prepends'' ''0'') = None \<and>
   value_of sample_template (Field ''Prepends'' KInt ''prepends'' ''0'') = Some (VInt 2) \<and>
   value_of sample_peer1 (Field ''LocalPref'' KInt ''local-pref'' ''100'') = Some (VInt 120) \<and>
   value_of sample_template (Field ''LocalPref'' KInt ''local-pref'' ''100'') = Some (VInt 90) \<and>
   (\<exists>c' p'. loaded (Load (env_of sample_config) ''peers: ...'') = Some c' \<and>
      Peers c' ! 0 = (''Peer1'', Some p') \<and>
      value_of p' (Field ''Prepends'' KInt ''prepends'' ''0'') = Some (VInt 2) \<and>
      value_of p' (Field ''LocalPref'' KInt ''local-pref'' ''100'') = Some (VInt 120))"
proof -
  obtain c' where l: "loaded (Load (env_of sample_config) ''peers: ...'') = Some c'"
    using sample_loads by blast
  have u: "Unmarshal (env_of sample_config) ''peers: ...'' = Inr sample_config" by simp
  have i: "0 < length (Peers sample_config)" by simp
  have p: "Peers sample_config ! 0 = (''Peer1'', Some sample_peer1)" by simp
  have s: "strings sample_peer1 ''Template'' = Some ''upstream''"
    by (simp add: sample_peer1_def no_peer_def)
  have ne: "''upstream'' \<noteq> ''''" by simp
  have t: "map_of (Templates sample_config) ''upstream'' = Some (Some sample_template)" by simp
  have o: "\<not> (field_name f = ''AnnounceOriginated'' \<and> Prefixes sample_config = [])" for f by simp
  have v: "value_of sample_peer1 (Field ''Prepends'' KInt ''prepends'' ''0'') = None"
    "value_of sample_template (Field ''Prepends'' KInt ''prepends'' ''0'') = Some (VInt 2)"
    "value_of sample_peer1 (Field ''LocalPref'' KInt ''local-pref'' ''100'') = Some (VInt 120)"
    "value_of sample_template (Field ''LocalPref'' KInt ''local-pref'' ''100'') = Some (VInt 90)"
    by (simp_all add: value_of_def field_value_simps sample_peer1_def sample_template_def no_peer_def)
  from template_merge[OF u decoded_sample l i p s ne t sample_fields_in_schema(1) _ o] v
  obtain p' where a: "Peers c' ! 0 = (''Peer1'', Some p')"
    "value_of p' (Field ''Prepends'' KInt ''prepends'' ''0'') = Some (VInt 2)"
    by auto
  from template_merge[OF u decoded_sample l i p s ne t sample_fields_in_schema(2) _ o] v
  obtain p'' where b: "Peers c' ! 0 = (''Peer1'', Some p'')"
    "value_of p'' (Field ''LocalPref'' KInt ''local-pref'' ''100'') = Some (VInt 120)"
    by auto
  from a b have "p'' = p'" by simp
  with l a b v show ?thesis by blast
qed

theorem template_merge_counterexample:
  "Prefixes sample_no_origin = [] \<and>
   Peers sample_no_origin ! 0 =
     (''Peer1'', Some (sample_peer1\<lparr>bools := (bools sample_peer1)(''AnnounceOriginated'' \<mapsto> True)\<rparr>)) \<and>
   template_of (Templates sample_no_origin)
     (sample_peer1\<lparr>bools := (bools sample_peer1)(''AnnounceOriginated'' \<mapsto> True)\<rparr>) = Some sample_template \<and>
   value_of (sample_peer1\<lparr>bools := (bools sample_peer1)(''AnnounceOriginated'' \<mapsto> True)\<rparr>)
     (Field ''AnnounceOriginated'' KBool ''announce-originated'' ''true'') = Some (VBool True) \<and>
   (\<exists>c' p'. loaded (Load (env_of sample_no_origin) ''peers: ...'') = Some c' \<and>
      Peers c' ! 0 = (''Peer1'', Some p') \<and>
      value_of p' (Field ''AnnounceOriginated'' KBool ''announce-originated'' ''true'') = Some (VBool False))"
proof -
  obtain c' where l: "loaded (Load (env_of sample_no_origin) ''peers: ...'') = Some c'"
    using sample_no_origin_loads by blast
  have u: "Unmarshal (env_of sample_no_origin) ''peers: ...'' = Inr sample_no_origin" by simp
  have i: "0 < length (Peers sample_no_origin)" by simp
  have p: "Peers sample_no_origin ! 0 =
     (''Peer1'', Some (sample_peer1\<lparr>bools := (bools sample_peer1)(''AnnounceOriginated'' \<mapsto> True)\<rparr>))"
    by simp
  from resolved_peer[OF u l i p] obtain p1 p2 where
    sp: "second_pass (env_of sample_no_origin) (length (Prefixes sample_no_origin) < 1) p1 = Ok p2" and
    r: "Peers c' ! 0 = (''Peer1'', Some p2)"
    by blast
  from second_pass_parts(5)[OF sp, of "''AnnounceOriginated''"]
  have "value_of p2 (Field ''AnnounceOriginated'' KBool ''announce-originated'' ''true'') = Some (VBool False)"
    by (simp add: value_of_def field_value_simps)
  moreover have "template_of (Templates sample_no_origin)
     (sample_peer1\<lparr>bools := (bools sample_peer1)(''AnnounceOriginated'' \<mapsto> True)\<rparr>) = Some sample_template"
    by (simp add: template_of_def sample_peer1_def no_peer_def)
  moreover have "value_of (sample_peer1\<lparr>bools := (bools sample_peer1)(''AnnounceOriginated'' \<mapsto> True)\<rparr>)
     (Field ''AnnounceOriginated'' KBool ''announce-originated'' ''true'') = Some (VBool True)"
    by (simp add: value_of_def field_value_simps)
  ultimately show ?thesis using l r p by auto
qed

subsection \<open>Partitions by address family\<close>

lemma split_families_Ok:
  "split_families e what xs (v4, v6) = Ok (r4, r6) \<Longrightarrow>
   list_all (\<lambda>x. ParseCIDR e x \<noteq> None) xs \<and>
   r4 = v4 @ filter (is_v4 e) xs \<and> r6 = v6 @ filter (is_v6 e) xs"
proof (induction xs arbitrary: v4 v6)
  case Nil
  then show ?case by simp
next
  case (Cons x xs)
  from Cons.prems obtain has4 where h: "ParseCIDR e x = Some has4"
    by (cases "ParseCIDR e x") auto
  show ?case
  proof (cases has4)
    case True
    with h Cons.prems have "split_families e what xs (v4 @ [x], v6) = Ok (r4, r6)" by simp
    from Cons.IH[OF this] h True show ?thesis by (simp add: is_v4_def is_v6_def)
  next
    case False
    with h Cons.prems have "split_families e what xs (v4, v6 @ [x]) = Ok (r4, r6)" by simp
    from Cons.IH[OF this] h False show ?thesis by (simp add: is_v4_def is_v6_def)
  qed
qed

lemma split_families_first_bad:
  "list_all (\<lambda>y. ParseCIDR e y \<noteq> None) ys \<Longrightarrow> ParseCIDR e x = None \<Longrightarrow>
   split_families e what (ys @ x # zs) (v4, v6) = Err (what @ x)"
proof (induction ys arbitrary: v4 v6)
  case Nil
  then show ?case by simp
next
  case (Cons y ys)
  from Cons.prems obtain has4 where h: "ParseCIDR e y = Some has4" by auto
  from Cons.prems have "list_all (\<lambda>y. ParseCIDR e y \<noteq> None) ys" by simp
  note ih = Cons.IH[OF this Cons.prems(2)]
  show ?case using h ih by (cases has4) simp_all
qed

lemma first_bad:
  assumes "x \<in> set xs" and "\<not> P x"
  shows "\<exists>ys y zs. xs = ys @ y # zs \<and> list_all P ys \<and> \<not> P y"
  using assms
proof (induction xs)
  case Nil
  then show ?case by simp
next
  case (Cons a xs)
  show ?case
  proof (cases "P a")
    case False
    then have "a # xs = [] @ a # xs \<and> list_all P [] \<and> \<not> P a" by simp
    then show ?thesis by blast
  next
    case True
    with Cons.prems have "x \<in> set xs" by auto
    from Cons.IH[OF this Cons.prems(2)] obtain ys y zs where
      "xs = ys @ y # zs" "list_all P ys" "\<not> P y" by blast
    with True have "a # xs = (a # ys) @ y # zs \<and> list_all P (a # ys) \<and> \<not> P y" by simp
    then show ?thesis by blast
  qed
qed

lemma family_partition:
  assumes "list_all (\<lambda>x. ParseCIDR e x \<noteq> None) xs"
  shows "mset (filter (is_v4 e) xs) + mset (filter (is_v6 e) xs) = mset xs"
    and "set (filter (is_v4 e) xs) \<inter> set (filter (is_v6 e) xs) = {}"
proof -
  show "mset (filter (is_v4 e) xs) + mset (filter (is_v6 e) xs) = mset xs"
    using assms
  proof (induction xs)
    case Nil
    show ?case by simp
  next
    case (Cons x xs)
    from Cons.prems obtain has4 where "ParseCIDR e x = Some has4" by auto
    then have "is_v4 e x \<noteq> is_v6 e x" by (cases has4) (simp_all add: is_v4_def is_v6_def)
    with Cons show ?case by auto
  qed
  show "set (filter (is_v4 e) xs) \<inter> set (filter (is_v6 e) xs) = {}"
    by (auto simp: is_v4_def is_v6_def)
qed

lemma elements_appended_None: "(case appended None ys of None \<Rightarrow> [] | Some xs \<Rightarrow> xs) = ys"
  by (simp add: appended_def)

subsection \<open>The fields that the loader computes\<close>

lemma computed_fields_in_schema:
  "list_all (\<lambda>fld. Field fld KSlice ''-'' ''-'' \<in> set peer_fields)
     [''PrefixSet4'', ''PrefixSet6'',
      ''ImportStandardCommunities'', ''ImportLargeCommunities'', ''ExportStandardCommunities'',
      ''ExportLargeCommunities'', ''AnnounceStandardCommunities'', ''AnnounceLargeCommunities'',
      ''RemoveStandardCommunities'', ''RemoveLargeCommunities'']"
  by (simp add: peer_fields_def)

lemma internal_unset_slice:
  assumes "internal_unset p"
    and "fld \<in> set [''PrefixSet4'', ''PrefixSet6'',
      ''ImportStandardCommunities'', ''ImportLargeCommunities'', ''ExportStandardCommunities'',
      ''ExportLargeCommunities'', ''AnnounceStandardCommunities'', ''AnnounceLargeCommunities'',
      ''RemoveStandardCommunities'', ''RemoveLargeCommunities'']"
  shows "slices p fld = None"
proof -
  from computed_fields_in_schema assms(2) have "Field fld KSlice ''-'' ''-'' \<in> set peer_fields"
    unfolding list_all_iff by blast
  from internal_unset_value[OF assms(1) this] show ?thesis
    by (simp add: value_of_def field_value_simps)
qed

lemma decoded_merged_slice:
  assumes "decoded c" and "i < length (Peers c)" and "Peers c ! i = (n, Some p)"
    and "fld \<in> set [''PrefixSet4'', ''PrefixSet6'',
      ''ImportStandardCommunities'', ''ImportLargeCommunities'', ''ExportStandardCommunities'',
      ''ExportLargeCommunities'', ''AnnounceStandardCommunities'', ''AnnounceLargeCommunities'',
      ''RemoveStandardCommunities'', ''RemoveLargeCommunities'']"
  shows "slices (merged (Templates c) p) fld = None"
proof -
  note a = internal_unset_slice[OF decoded_peer[OF assms(1,2,3)] assms(4)]
  show ?thesis
  proof (cases "template_of (Templates c) p")
    case None
    with a show ?thesis by (simp add: slices_merged_schema)
  next
    case (Some t)
    from template_of_Some[OF Some] obtain name where "(name, Some t) \<in> set (Templates c)" by blast
    from internal_unset_slice[OF decoded_template[OF assms(1) this] assms(4)] a Some
    show ?thesis by (simp add: slices_merged_schema)
  qed
qed

lemma resolved_peer_slices:
  assumes "Unmarshal e blob = Inr c" and "decoded c" and "loaded (Load e blob) = Some c'"
    and "i < length (Peers c')" and "Peers c' ! i = (n, Some p')"
  shows "lists_ok e p'"
    and "fld \<in> set [''PrefixSet4'', ''PrefixSet6'',
      ''ImportStandardCommunities'', ''ImportLargeCommunities'', ''ExportStandardCommunities'',
      ''ExportLargeCommunities'', ''AnnounceStandardCommunities'', ''AnnounceLargeCommunities'',
      ''RemoveStandardCommunities'', ''RemoveLargeCommunities''] \<Longrightarrow>
      slices p' fld = appended None (additions e p' fld)"
proof -
  from loaded_peer[OF assms(1,3,4)] obtain m p p1 p2 where
    i: "i < length (Peers c)" and pc: "Peers c ! i = (m, Some p)" and
    fp: "first_pass e (Templates c) m p = Ok p1" and
    sp: "second_pass e (length (Prefixes c) < 1) p1 = Ok p2" and
    r: "Peers c' ! i = (m, Some p2)"
    by blast
  from r assms(5) have p2: "p2 = p'" by simp
  have src: "elements p' s = elements p1 s"
    if "s \<in> set [''Prefixes'', ''ImportCommunities'', ''ExportCommunities'', ''AnnounceCommunities'', ''RemoveCommunities'']" for s
  proof -
    from that have "s \<notin> set [''PrefixSet4'', ''PrefixSet6'',
        ''ImportStandardCommunities'', ''ImportLargeCommunities'', ''ExportStandardCommunities'',
        ''ExportLargeCommunities'', ''AnnounceStandardCommunities'', ''AnnounceLargeCommunities'',
        ''RemoveStandardCommunities'', ''RemoveLargeCommunities'']" by auto
    from resolved_slice_other[OF this, of e p1] second_pass_parts(4)[OF sp, of s] p2
    show ?thesis by (simp add: elements_def)
  qed
  from second_pass_parts(6)[OF sp] src show "lists_ok e p'"
    by (simp add: lists_ok_def)
  have add: "additions e p' fld = additions e p1 fld" for fld
    using src by (simp add: additions_def)
  show "slices p' fld = appended None (additions e p' fld)"
    if f: "fld \<in> set [''PrefixSet4'', ''PrefixSet6'',
      ''ImportStandardCommunities'', ''ImportLargeCommunities'', ''ExportStandardCommunities'',
      ''ExportLargeCommunities'', ''AnnounceStandardCommunities'', ''AnnounceLargeCommunities'',
      ''RemoveStandardCommunities'', ''RemoveLargeCommunities'']"
  proof -
    from f have "fld \<noteq> ''BooleanOptions''" by auto
    from first_pass_slices[OF fp this] decoded_merged_slice[OF assms(2) i pc f]
    have "slices p1 fld = None" by simp
    with second_pass_parts(4)[OF sp, of fld] p2 add show ?thesis
      by (simp add: resolved_slice_eq)
  qed
qed

subsection \<open>Errors of the resolution\<close>

lemma first_loop_passes:
  assumes "list_all (entry_passes ts) ps"
  shows "\<exists>ps1 q1. first_loop e ts ps q = Ok (ps1, q1)"
proof -
  have "list_all (\<lambda>a. \<exists>p p1. snd a = Some p \<and> first_pass e ts (fst a) p = Ok p1) ps"
    unfolding list_all_iff
  proof
    fix a assume "a \<in> set ps"
    with assms have ok: "entry_passes ts a" by (simp add: list_all_iff)
    then obtain p where p: "snd a = Some p" by (cases "snd a") (auto simp: entry_passes_def)
    with ok have "has_neighbors p \<and> (if names_template p then template_of ts p \<noteq> None else True)"
      by (simp add: entry_passes_def)
    then have "\<exists>p1. first_pass e ts (fst a) p = Ok p1" by (rule iffD2[OF first_pass_Ok_iff])
    with p show "\<exists>p p1. snd a = Some p \<and> first_pass e ts (fst a) p = Ok p1" by blast
  qed
  from first_loop_succeeds[OF this] show ?thesis .
qed

lemma first_loop_bools:
  assumes "first_loop e ts ps q = Ok (ps1, q1)"
  shows "list_all (\<lambda>a. \<exists>p. snd a = Some p \<and> bools p ''AnnounceOriginated'' \<noteq> None) ps1"
  unfolding list_all_length
proof (intro allI impI)
  fix i assume i: "i < length ps1"
  from first_loop_Ok[OF assms] have l: "list_all2 (first_rel e ts) ps ps1" by simp
  from list_all2_lengthD[OF l] i have "i < length ps" by simp
  from list_all2_nthD[OF l this] obtain p p1 where
    "snd (ps1 ! i) = Some p1" "first_pass e ts (fst (ps ! i)) p = Ok p1"
    by (auto simp: first_rel_def)
  with first_pass_bools show "\<exists>p. snd (ps1 ! i) = Some p \<and> bools p ''AnnounceOriginated'' \<noteq> None"
    by blast
qed

lemma resolve_eq:
  assumes "check_templates (Templates c) = Ok ()" and "hostname_ok e c"
    and "first_loop e (Templates c) (Peers c) (QueryNVRS c) = Ok (ps1, q)"
  shows "\<exists>hn. resolve e c =
     and_then (resolve_globals e (c\<lparr>Hostname := hn, Peers := ps1, QueryNVRS := q\<rparr>)) (finish_peers e (Peers c))"
proof -
  from set_hostname_succeeds[OF assms(2)] obtain hn where h: "set_hostname e c = Ok (c\<lparr>Hostname := hn\<rparr>)"
    by blast
  have p: "resolve_peers e (c\<lparr>Hostname := hn\<rparr>) = Ok (c\<lparr>Hostname := hn, Peers := ps1, QueryNVRS := q\<rparr>)"
    using assms(3) by (simp add: resolve_peers_def)
  have "resolve e c =
     and_then (resolve_globals e (c\<lparr>Hostname := hn, Peers := ps1, QueryNVRS := q\<rparr>)) (finish_peers e (Peers c))"
    unfolding resolve_def using assms(1) h p by simp
  then show ?thesis by blast
qed

lemma resolve_origin_Err:
  assumes "check_templates (Templates c) = Ok ()" and "hostname_ok e c"
    and "list_all (entry_passes (Templates c)) (Peers c)"
    and "Prefixes c = ys @ x # zs" and "list_all (\<lambda>y. ParseCIDR e y \<noteq> None) ys" and "ParseCIDR e x = None"
  shows "resolve e c = Err (''Invalid origin prefix: '' @ x)"
proof -
  from first_loop_passes[OF assms(3)] obtain ps1 q where
    fl: "first_loop e (Templates c) (Peers c) (QueryNVRS c) = Ok (ps1, q)" by blast
  from resolve_eq[OF assms(1,2) fl] obtain hn where
    r: "resolve e c =
     and_then (resolve_globals e (c\<lparr>Hostname := hn, Peers := ps1, QueryNVRS := q\<rparr>)) (finish_peers e (Peers c))"
    by blast
  define c2 where "c2 = c\<lparr>Hostname := hn, Peers := ps1, QueryNVRS := q\<rparr>"
  have "split_families e ''Invalid origin prefix: '' (Prefixes c2) (Prefixes4 c2, Prefixes6 c2) =
      Err (''Invalid origin prefix: '' @ x)"
    using split_families_first_bad[OF assms(5,6)] assms(4) by (simp add: c2_def)
  then have "resolve_globals e c2 = Err (''Invalid origin prefix: '' @ x)"
    by (simp add: resolve_globals_def)
  with r show ?thesis by (simp add: c2_def)
qed

lemma resolve_to_second_loop:
  assumes "check_templates (Templates c) = Ok ()" and "hostname_ok e c"
    and "first_loop e (Templates c) (Peers c) (QueryNVRS c) = Ok (ps1, q)"
    and "globals_ok e c"
  shows "\<exists>f. resolve e c =
     and_then (second_loop e (length (Prefixes c) < 1) ps1) (\<lambda>peers. Ok (f peers))"
proof -
  from resolve_eq[OF assms(1,2,3)] obtain hn where
    r: "resolve e c =
     and_then (resolve_globals e (c\<lparr>Hostname := hn, Peers := ps1, QueryNVRS := q\<rparr>)) (finish_peers e (Peers c))"
    by blast
  define c2 where "c2 = c\<lparr>Hostname := hn, Peers := ps1, QueryNVRS := q\<rparr>"
  from assms(4) have "globals_ok e c2" by (simp add: c2_def)
  from resolve_globals_succeeds[OF this] obtain c3 where g: "resolve_globals e c2 = Ok c3" by blast
  from resolve_globals_Ok[OF g] have "Peers c3 = ps1" "Prefixes c3 = Prefixes c" by (simp_all add: c2_def)
  with r g have "resolve e c =
     and_then (second_loop e (length (Prefixes c) < 1) ps1)
       (\<lambda>peers. Ok (c3\<lparr>Peers := peers,
          Templates := written_templates (length (Prefixes c) < 1) (Peers c) (Templates c3)\<rparr>))"
    by (simp add: c2_def finish_peers_def)
  then show ?thesis
    by (rule exI[of _ "\<lambda>peers. c3\<lparr>Peers := peers,
          Templates := written_templates (length (Prefixes c) < 1) (Peers c) (Templates c3)\<rparr>"])
qed

lemma resolve_Err_peer:
  assumes "resolve e c = Err msg" and "globals_ok e c"
  shows "\<exists>i n p p1. i < length (Peers c) \<and> Peers c ! i = (n, Some p) \<and>
     first_pass e (Templates c) n p = Ok p1 \<and> second_pass e (length (Prefixes c) < 1) p1 = Err msg"
proof -
  from assms(1) have t: "check_templates (Templates c) = Ok ()"
    using check_templates_outcome[of "Templates c"]
    by (auto simp: resolve_def)
  with assms(1) have h1: "and_then (set_hostname e c) (\<lambda>c1.
     and_then (resolve_peers e c1) (\<lambda>c2.
     and_then (resolve_globals e c2) (finish_peers e (Peers c)))) = Err msg"
    by (simp add: resolve_def)
  from h1 set_hostname_outcome[of e c] obtain c1 where h: "set_hostname e c = Ok c1"
    by auto
  from set_hostname_Ok[OF h] obtain hn where hok: "hostname_ok e c" and c1: "c1 = c\<lparr>Hostname := hn\<rparr>"
    by blast
  from h1 h have h2: "and_then (resolve_peers e c1) (\<lambda>c2.
     and_then (resolve_globals e c2) (finish_peers e (Peers c))) = Err msg"
    by simp
  from first_loop_outcome[of e "Templates c" "Peers c" "QueryNVRS c"] h2 c1
  obtain ps1 q where fl: "first_loop e (Templates c) (Peers c) (QueryNVRS c) = Ok (ps1, q)"
    by (auto simp: resolve_peers_def)
  from resolve_to_second_loop[OF t hok fl assms(2)] obtain f where
    "resolve e c =
     and_then (second_loop e (length (Prefixes c) < 1) ps1) (\<lambda>peers. Ok (f peers))"
    by blast
  with assms(1) have "second_loop e (length (Prefixes c) < 1) ps1 = Err msg"
    by (auto elim: and_then_ErrE)
  from second_loop_Err[OF this] obtain i n p1 where
    i: "i < length ps1" and a: "ps1 ! i = (n, Some p1)" and
    s: "second_pass e (length (Prefixes c) < 1) p1 = Err msg"
    by blast
  from first_loop_Ok[OF fl] have l: "list_all2 (first_rel e (Templates c)) (Peers c) ps1" by simp
  from list_all2_lengthD[OF l] i have i0: "i < length (Peers c)" by simp
  from list_all2_nthD[OF l i0] a obtain p where
    "Peers c ! i = (n, Some p)" "first_pass e (Templates c) n p = Ok p1"
    by (cases "Peers c ! i") (auto simp: first_rel_def)
  with i0 s show ?thesis by blast
qed

lemma resolve_fails_Err:
  assumes "check_templates (Templates c) = Ok ()" and "hostname_ok e c"
    and "list_all (entry_passes (Templates c)) (Peers c)" and "globals_ok e c"
    and "\<not> list_all (entry_ok e (Templates c)) (Peers c)"
  shows "\<exists>msg. resolve e c = Err msg"
proof -
  from first_loop_passes[OF assms(3)] obtain ps1 q where
    fl: "first_loop e (Templates c) (Peers c) (QueryNVRS c) = Ok (ps1, q)" by blast
  from resolve_to_second_loop[OF assms(1,2) fl assms(4)] obtain f where
    r: "resolve e c =
     and_then (second_loop e (length (Prefixes c) < 1) ps1) (\<lambda>peers. Ok (f peers))"
    by blast
  show ?thesis
  proof (cases "second_loop e (length (Prefixes c) < 1) ps1")
    case (Ok ps2)
    with r have "\<exists>c'. resolve e c = Ok c'" by simp
    with assms(5) resolve_Ok_iff[of e c] show ?thesis by blast
  next
    case (Err msg)
    with r show ?thesis by simp
  next
    case (Fatal msg)
    with second_loop_never_Fatal show ?thesis by blast
  next
    case Panic
    with second_loop_not_Panic[OF first_loop_bools[OF fl]] show ?thesis by blast
  qed
qed

lemma lists_ok_iff: "lists_ok e p = (prefixes_ok e p \<and> communities_ok p)"
  by (simp add: lists_ok_def prefixes_ok_def communities_ok_def community_fields_def)

lemma community_sources:
  assumes "(what, src, std, lrg) \<in> set community_fields"
  shows "src \<in> set [''ImportCommunities'', ''ExportCommunities'', ''AnnounceCommunities'', ''RemoveCommunities'']"
    and "std \<in> set [''ImportStandardCommunities'', ''ExportStandardCommunities'',
          ''AnnounceStandardCommunities'', ''RemoveStandardCommunities'']"
    and "lrg \<in> set [''ImportLargeCommunities'', ''ExportLargeCommunities'',
          ''AnnounceLargeCommunities'', ''RemoveLargeCommunities'']"
  using assms by (auto simp: community_fields_def)

lemma Load_Err_peer:
  assumes "Unmarshal e blob = Inr c" and "Validate e c = None" and "globals_ok e c"
    and "Load e blob = Return None (Some msg)"
  shows "\<exists>i n p. i < length (Peers c) \<and> Peers c ! i = (n, Some p) \<and>
     ((\<exists>ys x zs. elements (merged (Templates c) p) ''Prefixes'' = ys @ x # zs \<and>
         list_all (\<lambda>y. ParseCIDR e y \<noteq> None) ys \<and> ParseCIDR e x = None \<and>
         msg = ''Invalid prefix: '' @ x) \<or>
      (\<exists>what src std lrg ys x zs. (what, src, std, lrg) \<in> set community_fields \<and>
         elements (merged (Templates c) p) src = ys @ x # zs \<and>
         list_all (\<lambda>y. is_standard y \<or> is_large y) ys \<and>
         \<not> is_standard x \<and> \<not> is_large x \<and> msg = ''Invalid '' @ what @ '' community: '' @ x))"
proof -
  from assms(1,2,4) have "resolve e c = Err msg"
    by (cases "resolve e c") (simp_all add: Load_def)
  from resolve_Err_peer[OF this assms(3)] obtain i n p p1 where
    i: "i < length (Peers c)" and a: "Peers c ! i = (n, Some p)" and
    fp: "first_pass e (Templates c) n p = Ok p1" and
    sp: "second_pass e (length (Prefixes c) < 1) p1 = Err msg"
    by blast
  have el: "elements p1 s = elements (merged (Templates c) p) s" if "s \<noteq> ''BooleanOptions''" for s
    using first_pass_slices[OF fp that] by (simp add: elements_def)
  from second_pass_Err[OF sp]
  have "(\<exists>ys x zs. elements (merged (Templates c) p) ''Prefixes'' = ys @ x # zs \<and>
         list_all (\<lambda>y. ParseCIDR e y \<noteq> None) ys \<and> ParseCIDR e x = None \<and>
         msg = ''Invalid prefix: '' @ x) \<or>
      (\<exists>what src std lrg ys x zs. (what, src, std, lrg) \<in> set community_fields \<and>
         elements (merged (Templates c) p) src = ys @ x # zs \<and>
         list_all (\<lambda>y. is_standard y \<or> is_large y) ys \<and>
         \<not> is_standard x \<and> \<not> is_large x \<and> msg = ''Invalid '' @ what @ '' community: '' @ x)"
  proof
    assume "\<exists>ys x zs. elements p1 ''Prefixes'' = ys @ x # zs \<and> list_all (\<lambda>y. ParseCIDR e y \<noteq> None) ys \<and>
            ParseCIDR e x = None \<and> msg = ''Invalid prefix: '' @ x"
    with el[of "''Prefixes''"] show ?thesis by simp
  next
    assume "\<exists>what src std lrg ys x zs. (what, src, std, lrg) \<in> set community_fields \<and>
            elements p1 src = ys @ x # zs \<and> list_all (\<lambda>y. is_standard y \<or> is_large y) ys \<and>
            \<not> is_standard x \<and> \<not> is_large x \<and> msg = ''Invalid '' @ what @ '' community: '' @ x"
    then obtain what src std lrg ys x zs where
      m: "(what, src, std, lrg) \<in> set community_fields" and
      r: "elements p1 src = ys @ x # zs" "list_all (\<lambda>y. is_standard y \<or> is_large y) ys"
         "\<not> is_standard x" "\<not> is_large x" "msg = ''Invalid '' @ what @ '' community: '' @ x"
      by blast
    from community_sources(1)[OF m] have "src \<noteq> ''BooleanOptions''" by auto
    from el[OF this] r(1) have "elements (merged (Templates c) p) src = ys @ x # zs" by simp
    with m r have "\<exists>what src std lrg ys x zs. (what, src, std, lrg) \<in> set community_fields \<and>
         elements (merged (Templates c) p) src = ys @ x # zs \<and>
         list_all (\<lambda>y. is_standard y \<or> is_large y) ys \<and>
         \<not> is_standard x \<and> \<not> is_large x \<and> msg = ''Invalid '' @ what @ '' community: '' @ x"
      by blast
    then show ?thesis by (rule disjI2)
  qed
  with i a show ?thesis by blast
qed

lemma Load_fails_Err:
  assumes "Unmarshal e blob = Inr c" and "Validate e c = None"
    and "check_templates (Templates c) = Ok ()" and "hostname_ok e c"
    and "list_all (entry_passes (Templates c)) (Peers c)" and "globals_ok e c"
    and "i < length (Peers c)" and "Peers c ! i = (n, Some p)" and "\<not> lists_ok e (merged (Templates c) p)"
  shows "\<exists>msg. Load e blob = Return None (Some msg)"
proof -
  from assms(7,8) have "(n, Some p) \<in> set (Peers c)" by (metis nth_mem)
  moreover from assms(9) have "\<not> entry_ok e (Templates c) (n, Some p)" by (simp add: entry_ok_def)
  ultimately have "\<not> list_all (entry_ok e (Templates c)) (Peers c)"
    unfolding list_all_iff by blast
  from resolve_fails_Err[OF assms(3,4,5,6) this] obtain msg where "resolve e c = Err msg" by blast
  with assms(1,2) have "Load e blob = Return None (Some msg)" by (simp add: Load_def)
  then show ?thesis by blast
qed

lemma Load_fails:
  assumes "Unmarshal e blob = Inr c"
    and "i < length (Peers c)" and "Peers c ! i = (n, Some p)" and "\<not> lists_ok e (merged (Templates c) p)"
  shows "loaded (Load e blob) = None"
proof (cases "loaded (Load e blob)")
  case None
  then show ?thesis .
next
  case (Some c')
  with assms(1) have "resolve e c = Ok c'" by (auto simp: loaded_iff)
  from resolve_entry_ok[OF this] assms(2) have "entry_ok e (Templates c) (Peers c ! i)"
    by (simp add: list_all_length)
  with assms(3,4) show ?thesis by (simp add: entry_ok_def)
qed

lemma resolved_peer_lists:
  assumes "Unmarshal e blob = Inr c" and "decoded c" and "loaded (Load e blob) = Some c'"
    and "i < length (Peers c)" and "Peers c ! i = (n, Some p)"
  obtains p' where "Peers c' ! i = (n, Some p')"
    and "\<And>s. s \<in> set [''Prefixes'', ''ImportCommunities'', ''ExportCommunities'',
            ''AnnounceCommunities'', ''RemoveCommunities''] \<Longrightarrow>
          elements p' s = elements (merged (Templates c) p) s"
    and "lists_ok e p'"
    and "\<And>fld. fld \<in> set [''PrefixSet4'', ''PrefixSet6'',
      ''ImportStandardCommunities'', ''ImportLargeCommunities'', ''ExportStandardCommunities'',
      ''ExportLargeCommunities'', ''AnnounceStandardCommunities'', ''AnnounceLargeCommunities'',
      ''RemoveStandardCommunities'', ''RemoveLargeCommunities''] \<Longrightarrow>
      slices p' fld = appended None (additions e p' fld)"
proof -
  from assms(1,3) have r: "resolve e c = Ok c'" by (auto simp: loaded_iff)
  from resolve_peer[OF r assms(4,5)] obtain p1 p2 where
    fp: "first_pass e (Templates c) n p = Ok p1" and
    sp: "second_pass e (length (Prefixes c) < 1) p1 = Ok p2" and
    pc: "Peers c' ! i = (n, Some p2)"
    by blast
  from resolve_length[OF r] assms(4) have i: "i < length (Peers c')" by simp
  have src: "elements p2 s = elements (merged (Templates c) p) s"
    if "s \<in> set [''Prefixes'', ''ImportCommunities'', ''ExportCommunities'', ''AnnounceCommunities'', ''RemoveCommunities'']" for s
  proof -
    from that have a: "s \<notin> set [''PrefixSet4'', ''PrefixSet6'',
        ''ImportStandardCommunities'', ''ImportLargeCommunities'', ''ExportStandardCommunities'',
        ''ExportLargeCommunities'', ''AnnounceStandardCommunities'', ''AnnounceLargeCommunities'',
        ''RemoveStandardCommunities'', ''RemoveLargeCommunities'']" by auto
    from that have b: "s \<noteq> ''BooleanOptions''" by auto
    from resolved_slice_other[OF a, of e p1] second_pass_parts(4)[OF sp, of s] first_pass_slices[OF fp b]
    show ?thesis by (simp add: elements_def)
  qed
  from resolved_peer_slices[OF assms(1,2,3) i pc] src pc that show ?thesis by blast
qed

subsection \<open>Outcomes of the global part\<close>

lemma globals_ok_iff: "globals_ok e c = (global_lists_ok e c \<and> rtr_ok c)"
  by (simp add: globals_ok_def global_lists_ok_def rtr_ok_def)

lemma split_families_never_Fatal: "split_families e what xs acc \<noteq> Fatal msg"
proof (induction xs arbitrary: acc)
  case Nil
  show ?case by (cases acc) simp
next
  case (Cons x xs)
  obtain v4 v6 where "acc = (v4, v6)" by (cases acc)
  with Cons show ?case by (cases "ParseCIDR e x") auto
qed

lemma srd_communities_never_Fatal: "srd_communities xs acc \<noteq> Fatal msg"
proof (induction xs arbitrary: acc)
  case Nil
  show ?case by (cases acc) simp
next
  case (Cons x xs)
  obtain std lrg where "acc = (std, lrg)" by (cases acc)
  with Cons show ?case by (auto simp: Let_def)
qed

lemma static_routes_never_Fatal: "static_routes e xs acc \<noteq> Fatal msg"
proof (induction xs arbitrary: acc)
  case Nil
  show ?case by (cases acc) simp
next
  case (Cons x xs)
  obtain s4 s6 where a: "acc = (s4, s6)" by (cases acc)
  obtain prefix nexthop where x: "x = (prefix, nexthop)" by (cases x)
  from Cons a x show ?case by (cases "ParseCIDR e prefix") auto
qed

lemma and_then_FatalE:
  assumes "and_then m f = Fatal msg"
  obtains "m = Fatal msg" | x where "m = Ok x" "f x = Fatal msg"
  using assms by (cases m) auto

lemma bfd_loop_never_Fatal: "bfd_loop e xs \<noteq> Fatal msg"
proof (induction xs)
  case Nil
  show ?case by simp
next
  case (Cons x xs)
  obtain n bo where x: "x = (n, bo)" by (cases x)
  show ?case
  proof (cases bo)
    case None
    with x show ?thesis by simp
  next
    case (Some b)
    show ?thesis
    proof (cases "Neighbor b")
      case None
      with x Some show ?thesis by simp
    next
      case (Some nb)
      with x \<open>bo = Some b\<close> Cons show ?thesis
        by (cases "bfd_loop e xs") auto
    qed
  qed
qed

lemma vrrp_instance_never_Fatal: "vrrp_instance e v \<noteq> Fatal msg"
proof
  assume "vrrp_instance e v = Fatal msg"
  then have "and_then (split_families e ''Invalid VIP: '' (VIPs v) (VIPs4 v, VIPs6 v)) (\<lambda>(v4, v6).
       let v' = v\<lparr>VIPs4 := v4, VIPs6 := v6\<rparr>
       in if State v' = ''primary'' then Ok (v'\<lparr>State := ''MASTER''\<rparr>)
          else if State v' = ''backup'' then Ok (v'\<lparr>State := ''BACKUP''\<rparr>)
          else Err (''VRRP state must be '' @ [CHR 0x27] @ ''primary'' @ [CHR 0x27] @ '' or '' @
                    [CHR 0x27] @ ''backup'' @ [CHR 0x27] @ '', unexpected '' @ State v')) = Fatal msg"
    by (simp only: vrrp_instance_def)
  then show False
  proof (cases rule: and_then_FatalE)
    case 1
    with split_families_never_Fatal show False by blast
  next
    case (2 x)
    then show False by (cases x) (auto simp: Let_def split: if_splits)
  qed
qed

lemma vrrp_loop_never_Fatal: "vrrp_loop e xs \<noteq> Fatal msg"
proof (induction xs)
  case Nil
  show ?case by simp
next
  case (Cons x xs)
  obtain n vo where x: "x = (n, vo)" by (cases x)
  show ?case
  proof (cases vo)
    case None
    with x show ?thesis by simp
  next
    case (Some v)
    show ?thesis
    proof (cases "vrrp_instance e v")
      case (Ok v')
      with x Some Cons show ?thesis by (cases "vrrp_loop e xs") auto
    next
      case (Fatal m)
      with vrrp_instance_never_Fatal show ?thesis by blast
    qed (use x Some in auto)
  qed
qed

lemma rtr_server_outcome:
  "(rtr_ok c \<and> (\<exists>c'. rtr_server c = Ok c')) \<or> (\<not> rtr_ok c \<and> (\<exists>msg. rtr_server c = Fatal msg))"
  by (cases "Atoi (Split (RTRServer c) CHR '':'' ! 1)") (auto simp: rtr_server_def rtr_ok_def Let_def)

lemma resolve_globals_lists_ok:
  assumes "global_lists_ok e c"
  shows "\<exists>c3. RTRServer c3 = RTRServer c \<and> resolve_globals e c = rtr_server c3"
proof -
  from assms obtain p4 p6 std lrg s4 s6 bfds vrrps where
    s1: "split_families e ''Invalid origin prefix: '' (Prefixes c) (Prefixes4 c, Prefixes6 c) = Ok (p4, p6)" and
    s2: "srd_communities (SRDCommunities (Augments c))
           (SRDStandardCommunities (Augments c), SRDLargeCommunities (Augments c)) = Ok (std, lrg)" and
    s3: "static_routes e (Statics (Augments c)) (Map.empty, Map.empty) = Ok (s4, s6)" and
    s4: "bfd_loop e (BFDInstances c) = Ok bfds" and
    s5: "vrrp_loop e (VRRPInstances c) = Ok vrrps"
    unfolding global_lists_ok_def is_ok_iff by auto
  define c3 where "c3 = c\<lparr>Prefixes4 := p4, Prefixes6 := p6,
     Augments := (Augments c)\<lparr>SRDStandardCommunities := std, SRDLargeCommunities := lrg,
        Statics4 := s4, Statics6 := s6\<rparr>,
     BFDInstances := bfds, VRRPInstances := vrrps\<rparr>"
  have a: "RTRServer c3 = RTRServer c" by (simp add: c3_def)
  have "resolve_globals e c = rtr_server c3"
    unfolding resolve_globals_def c3_def using s1 s2 s3 s4 s5
    by (simp add: Let_def)
  with a show ?thesis by blast
qed

lemma resolve_globals_rtr:
  assumes "global_lists_ok e c" and "\<not> rtr_ok c"
  shows "\<exists>msg. resolve_globals e c = Fatal msg"
proof -
  from resolve_globals_lists_ok[OF assms(1)] obtain c3 where
    a: "RTRServer c3 = RTRServer c" and r: "resolve_globals e c = rtr_server c3" by blast
  from a assms(2) have "\<not> rtr_ok c3" by (simp add: rtr_ok_def)
  with rtr_server_outcome[of c3] r show ?thesis by auto
qed

lemma and_then_Fatal_iff: "(and_then m f = Fatal msg) = (m = Fatal msg \<or> (\<exists>x. m = Ok x \<and> f x = Fatal msg))"
  by (cases m) auto

lemma resolve_globals_Fatal:
  assumes "resolve_globals e c = Fatal msg"
  shows "global_lists_ok e c"
proof -
  note nf = split_families_never_Fatal srd_communities_never_Fatal static_routes_never_Fatal
    bfd_loop_never_Fatal vrrp_loop_never_Fatal
  from assms obtain fam where
    s1: "split_families e ''Invalid origin prefix: '' (Prefixes c) (Prefixes4 c, Prefixes6 c) = Ok fam"
    unfolding resolve_globals_def and_then_Fatal_iff using nf by blast
  obtain p4 p6 where fam: "fam = (p4, p6)" by (cases fam)
  define c1 where "c1 = c\<lparr>Prefixes4 := p4, Prefixes6 := p6\<rparr>"
  define a1 where "a1 = (Augments c1)\<lparr>Statics4 := Map.empty, Statics6 := Map.empty\<rparr>"
  from assms s1 fam obtain sl where
    s2: "srd_communities (SRDCommunities a1) (SRDStandardCommunities a1, SRDLargeCommunities a1) = Ok sl"
    and t2: "(case sl of (std, lrg) \<Rightarrow>
       let a2 = a1\<lparr>SRDStandardCommunities := std, SRDLargeCommunities := lrg\<rparr>
       in and_then (static_routes e (Statics a2) (Statics4 a2, Statics6 a2))
         (\<lambda>(s4, s6).
       let c2 = c1\<lparr>Augments := a2\<lparr>Statics4 := s4, Statics6 := s6\<rparr>\<rparr>
       in and_then (bfd_loop e (BFDInstances c2))
         (\<lambda>bfds. and_then (vrrp_loop e (VRRPInstances c2))
         (\<lambda>vrrps. rtr_server (c2\<lparr>BFDInstances := bfds, VRRPInstances := vrrps\<rparr>))))) = Fatal msg"
    unfolding resolve_globals_def c1_def a1_def
    by (auto simp: and_then_Fatal_iff Let_def nf)
  obtain std lrg where sl: "sl = (std, lrg)" by (cases sl)
  define a2 where "a2 = a1\<lparr>SRDStandardCommunities := std, SRDLargeCommunities := lrg\<rparr>"
  from t2 sl obtain st where
    s3: "static_routes e (Statics a2) (Statics4 a2, Statics6 a2) = Ok st" and
    t3: "(case st of (s4, s6) \<Rightarrow>
       let c2 = c1\<lparr>Augments := a2\<lparr>Statics4 := s4, Statics6 := s6\<rparr>\<rparr>
       in and_then (bfd_loop e (BFDInstances c2))
         (\<lambda>bfds. and_then (vrrp_loop e (VRRPInstances c2))
         (\<lambda>vrrps. rtr_server (c2\<lparr>BFDInstances := bfds, VRRPInstances := vrrps\<rparr>)))) = Fatal msg"
    unfolding a2_def by (auto simp: and_then_Fatal_iff Let_def nf)
  obtain s4 s6 where st: "st = (s4, s6)" by (cases st)
  define c2 where "c2 = c1\<lparr>Augments := a2\<lparr>Statics4 := s4, Statics6 := s6\<rparr>\<rparr>"
  from t3 st obtain bfds vrrps where
    s4: "bfd_loop e (BFDInstances c2) = Ok bfds" and
    s5: "vrrp_loop e (VRRPInstances c2) = Ok vrrps"
    unfolding c2_def by (auto simp: and_then_Fatal_iff Let_def nf)
  have "is_ok (split_families e ''Invalid origin prefix: '' (Prefixes c) (Prefixes4 c, Prefixes6 c))"
    using s1 by (simp add: is_ok_def)
  moreover have "is_ok (srd_communities (SRDCommunities (Augments c))
               (SRDStandardCommunities (Augments c), SRDLargeCommunities (Augments c)))"
    using s2 by (simp add: is_ok_def a1_def c1_def)
  moreover have "is_ok (static_routes e (Statics (Augments c)) (Map.empty, Map.empty))"
    using s3 by (simp add: is_ok_def a2_def a1_def c1_def)
  moreover have "is_ok (bfd_loop e (BFDInstances c))"
    using s4 by (simp add: is_ok_def c2_def c1_def)
  moreover have "is_ok (vrrp_loop e (VRRPInstances c))"
    using s5 by (simp add: is_ok_def c2_def c1_def)
  ultimately show ?thesis unfolding global_lists_ok_def by blast
qed

lemma resolve_globals_lists_fail:
  assumes "\<not> global_lists_ok e c"
  shows "(\<exists>msg. resolve_globals e c = Err msg) \<or> resolve_globals e c = Panic"
proof (cases "resolve_globals e c")
  case (Ok c')
  from resolve_globals_needs[OF this] assms show ?thesis by (simp add: globals_ok_iff)
next
  case (Fatal msg)
  from resolve_globals_Fatal[OF this] assms show ?thesis by simp
qed simp_all

subsection \<open>Outcomes of the resolution\<close>

lemma first_loop_needs:
  assumes "first_loop e ts ps q = Ok r"
  shows "list_all (entry_passes ts) ps"
proof -
  obtain ps1 q1 where r: "r = (ps1, q1)" by (cases r)
  from first_loop_Ok[OF assms[unfolded r]] have l: "list_all2 (first_rel e ts) ps ps1" by simp
  show ?thesis
    unfolding list_all_length
  proof (intro allI impI)
    fix i assume i: "i < length ps"
    from list_all2_nthD[OF l i] obtain p p1 where
      a: "snd (ps ! i) = Some p" and f: "first_pass e ts (fst (ps ! i)) p = Ok p1"
      by (auto simp: first_rel_def)
    from f have "\<exists>p1. first_pass e ts (fst (ps ! i)) p = Ok p1" by blast
    then have "has_neighbors p \<and> (if names_template p then template_of ts p \<noteq> None else True)"
      by (rule iffD1[OF first_pass_Ok_iff])
    with a show "entry_passes ts (ps ! i)" by (simp add: entry_passes_def)
  qed
qed

lemma resolve_first_loop_fails:
  assumes "check_templates (Templates c) = Ok ()" and "hostname_ok e c"
    and "\<not> list_all (entry_passes (Templates c)) (Peers c)"
  shows "(\<exists>msg. resolve e c = Fatal msg) \<or> resolve e c = Panic"
proof -
  from set_hostname_succeeds[OF assms(2)] obtain hn where h: "set_hostname e c = Ok (c\<lparr>Hostname := hn\<rparr>)"
    by blast
  from first_loop_needs[of e "Templates c" "Peers c" "QueryNVRS c"] assms(3)
  have "first_loop e (Templates c) (Peers c) (QueryNVRS c) \<noteq> Ok r" for r by blast
  with first_loop_outcome[of e "Templates c" "Peers c" "QueryNVRS c"]
  have "(\<exists>msg. first_loop e (Templates c) (Peers c) (QueryNVRS c) = Fatal msg) \<or>
        first_loop e (Templates c) (Peers c) (QueryNVRS c) = Panic"
    by blast
  then have "(\<exists>msg. resolve_peers e (c\<lparr>Hostname := hn\<rparr>) = Fatal msg) \<or>
      resolve_peers e (c\<lparr>Hostname := hn\<rparr>) = Panic"
    by (auto simp: resolve_peers_def)
  with assms(1) h show ?thesis by (auto simp: resolve_def)
qed

lemma resolve_hostname_fails:
  assumes "check_templates (Templates c) = Ok ()" and "\<not> hostname_ok e c"
  shows "\<exists>err. OsHostname e = Inl err \<and>
     resolve e c = Fatal (''Hostname is not defined and unable to get system hostname: '' @ err)"
proof -
  from assms(2) obtain err where a: "Hostname c = ''''" "OsHostname e = Inl err"
    by (cases "OsHostname e") (auto simp: hostname_ok_def split: if_splits)
  then have "set_hostname e c = Fatal (''Hostname is not defined and unable to get system hostname: '' @ err)"
    by (simp add: set_hostname_def)
  with assms(1) a show ?thesis by (simp add: resolve_def)
qed

lemma resolve_globals_fail:
  assumes "check_templates (Templates c) = Ok ()" and "hostname_ok e c"
    and "list_all (entry_passes (Templates c)) (Peers c)"
  shows "\<not> global_lists_ok e c \<Longrightarrow> (\<exists>msg. resolve e c = Err msg) \<or> resolve e c = Panic"
    and "global_lists_ok e c \<Longrightarrow> \<not> rtr_ok c \<Longrightarrow> \<exists>msg. resolve e c = Fatal msg"
proof -
  from first_loop_passes[OF assms(3)] obtain ps1 q where
    fl: "first_loop e (Templates c) (Peers c) (QueryNVRS c) = Ok (ps1, q)" by blast
  from resolve_eq[OF assms(1,2) fl] obtain hn where
    r: "resolve e c =
     and_then (resolve_globals e (c\<lparr>Hostname := hn, Peers := ps1, QueryNVRS := q\<rparr>)) (finish_peers e (Peers c))"
    by blast
  define c2 where "c2 = c\<lparr>Hostname := hn, Peers := ps1, QueryNVRS := q\<rparr>"
  have g: "global_lists_ok e c2 = global_lists_ok e c" by (simp add: c2_def global_lists_ok_def)
  have t: "rtr_ok c2 = rtr_ok c" by (simp add: c2_def rtr_ok_def)
  show "(\<exists>msg. resolve e c = Err msg) \<or> resolve e c = Panic" if "\<not> global_lists_ok e c"
    using resolve_globals_lists_fail[of e c2] that g r by (auto simp: c2_def)
  show "\<exists>msg. resolve e c = Fatal msg" if "global_lists_ok e c" "\<not> rtr_ok c"
    using resolve_globals_rtr[of e c2] that g t r by (auto simp: c2_def)
qed

text \<open>
  Claim C9, as amended. What \<^verbatim>\<open>Load\<close> does is decided by the first of its steps that the
  input fails, and only an input that fails none gets a configuration. The decoder's error
  and the validator's error are returned with a \<open>nil\<close> configuration. After them: a
  template that names a template ends the process (or a \<open>nil\<close> template panics); a
  hostname that is neither set nor known to the system ends the process; a peer without
  neighbors of its own or with a template that is not there ends the process (or a \<open>nil\<close>
  peer panics); an origin prefix, SRD community, static route, BFD neighbor, VIP or VRRP
  state that is not accepted is returned as an error with a \<open>nil\<close> configuration (or a
  \<open>nil\<close> instance panics); a malformed address of the RTR server ends the process; a prefix
  or a community of a peer that is not accepted is returned as an error with a \<open>nil\<close>
  configuration. In no case does a call return a configuration together with an error, or
  neither. (The claim as written says that every failure returns \<open>nil\<close> with an error; the
  failures of lines 310, 318, 333, 342, 508 and 513 end the process instead.)
\<close>

theorem Load_all_or_nothing:
  "(\<forall>err. Unmarshal e blob = Inl err \<longrightarrow> Load e blob = Return None (Some (''YAML unmarshal: '' @ err))) \<and>
   (\<forall>c err. Unmarshal e blob = Inr c \<and> Validate e c = Some err \<longrightarrow>
      Load e blob = Return None (Some (''Validation: '' @ err))) \<and>
   (\<forall>c. Unmarshal e blob = Inr c \<and> Validate e c = None \<longrightarrow>
      (if check_templates (Templates c) \<noteq> Ok () then
         (\<exists>n. Load e blob = Exit (''Templates must not have a template field set, but '' @ n @ '' does'')) \<or>
         Load e blob = Panicked
       else if \<not> hostname_ok e c then
         (\<exists>err. OsHostname e = Inl err \<and>
            Load e blob = Exit (''Hostname is not defined and unable to get system hostname: '' @ err))
       else if \<not> list_all (entry_passes (Templates c)) (Peers c) then
         (\<exists>msg. Load e blob = Exit msg) \<or> Load e blob = Panicked
       else if \<not> global_lists_ok e c then
         (\<exists>msg. Load e blob = Return None (Some msg)) \<or> Load e blob = Panicked
       else if \<not> rtr_ok c then (\<exists>msg. Load e blob = Exit msg)
       else if \<not> list_all (entry_ok e (Templates c)) (Peers c) then
         (\<exists>msg. Load e blob = Return None (Some msg))
       else (\<exists>c'. Load e blob = Return (Some c') None))) \<and>
   (\<forall>c' err. Load e blob \<noteq> Return (Some c') (Some err)) \<and>
   Load e blob \<noteq> Return None None \<and>
   (loaded (Load e blob) = None) = (\<forall>c'. Load e blob \<noteq> Return (Some c') None)"
proof (intro conjI allI impI)
  fix err assume "Unmarshal e blob = Inl err"
  then show "Load e blob = Return None (Some (''YAML unmarshal: '' @ err))" by (simp add: Load_def)
next
  fix c err assume "Unmarshal e blob = Inr c \<and> Validate e c = Some err"
  then show "Load e blob = Return None (Some (''Validation: '' @ err))" by (simp add: Load_def)
next
  fix c assume a: "Unmarshal e blob = Inr c \<and> Validate e c = None"
  then have u: "Unmarshal e blob = Inr c" and v: "Validate e c = None" by simp_all
  have l: "Load e blob = (case resolve e c of Ok c' \<Rightarrow> Return (Some c') None
      | Err msg \<Rightarrow> Return None (Some msg) | Fatal msg \<Rightarrow> Exit msg | Panic \<Rightarrow> Panicked)"
    using u v by (simp add: Load_def)
  consider (t) "check_templates (Templates c) \<noteq> Ok ()"
    | (h) "check_templates (Templates c) = Ok ()" "\<not> hostname_ok e c"
    | (f) "check_templates (Templates c) = Ok ()" "hostname_ok e c"
          "\<not> list_all (entry_passes (Templates c)) (Peers c)"
    | (g) "check_templates (Templates c) = Ok ()" "hostname_ok e c"
          "list_all (entry_passes (Templates c)) (Peers c)" "\<not> global_lists_ok e c"
    | (r) "check_templates (Templates c) = Ok ()" "hostname_ok e c"
          "list_all (entry_passes (Templates c)) (Peers c)" "global_lists_ok e c" "\<not> rtr_ok c"
    | (s) "check_templates (Templates c) = Ok ()" "hostname_ok e c"
          "list_all (entry_passes (Templates c)) (Peers c)" "global_lists_ok e c" "rtr_ok c"
          "\<not> list_all (entry_ok e (Templates c)) (Peers c)"
    | (ok) "check_templates (Templates c) = Ok ()" "hostname_ok e c"
          "list_all (entry_passes (Templates c)) (Peers c)" "global_lists_ok e c" "rtr_ok c"
          "list_all (entry_ok e (Templates c)) (Peers c)"
    by blast
  then show "if check_templates (Templates c) \<noteq> Ok () then
         (\<exists>n. Load e blob = Exit (''Templates must not have a template field set, but '' @ n @ '' does'')) \<or>
         Load e blob = Panicked
       else if \<not> hostname_ok e c then
         (\<exists>err. OsHostname e = Inl err \<and>
            Load e blob = Exit (''Hostname is not defined and unable to get system hostname: '' @ err))
       else if \<not> list_all (entry_passes (Templates c)) (Peers c) then
         (\<exists>msg. Load e blob = Exit msg) \<or> Load e blob = Panicked
       else if \<not> global_lists_ok e c then
         (\<exists>msg. Load e blob = Return None (Some msg)) \<or> Load e blob = Panicked
       else if \<not> rtr_ok c then (\<exists>msg. Load e blob = Exit msg)
       else if \<not> list_all (entry_ok e (Templates c)) (Peers c) then
         (\<exists>msg. Load e blob = Return None (Some msg))
       else (\<exists>c'. Load e blob = Return (Some c') None)"
  proof cases
    case t
    from check_templates_outcome[of "Templates c"] t
    have "(\<exists>n. check_templates (Templates c) =
              Fatal (''Templates must not have a template field set, but '' @ n @ '' does'')) \<or>
          check_templates (Templates c) = Panic"
      by blast
    with Load_templates_rejected[OF u v t]
    have "(\<exists>n. Load e blob = Exit (''Templates must not have a template field set, but '' @ n @ '' does'')) \<or>
         Load e blob = Panicked"
      by auto
    with t show ?thesis by simp
  next
    case h
    from resolve_hostname_fails[OF h] l
    have "\<exists>err. OsHostname e = Inl err \<and>
            Load e blob = Exit (''Hostname is not defined and unable to get system hostname: '' @ err)"
      by auto
    with h show ?thesis by simp
  next
    case f
    from resolve_first_loop_fails[OF f] l
    have "(\<exists>msg. Load e blob = Exit msg) \<or> Load e blob = Panicked" by auto
    with f show ?thesis by simp
  next
    case g
    from resolve_globals_fail(1)[OF g] l
    have "(\<exists>msg. Load e blob = Return None (Some msg)) \<or> Load e blob = Panicked" by auto
    with g show ?thesis by simp
  next
    case r
    from resolve_globals_fail(2)[OF r] l
    have "\<exists>msg. Load e blob = Exit msg" by auto
    with r show ?thesis by simp
  next
    case s
    from s(4,5) have "globals_ok e c" by (simp add: globals_ok_iff)
    from resolve_fails_Err[OF s(1,2,3) this s(6)] l
    have "\<exists>msg. Load e blob = Return None (Some msg)" by auto
    with s show ?thesis by simp
  next
    case ok
    from ok(4,5) have "globals_ok e c" by (simp add: globals_ok_iff)
    with ok(1,2,6) resolve_Ok_iff[of e c] obtain c' where "resolve e c = Ok c'" by blast
    with l have "\<exists>c'. Load e blob = Return (Some c') None" by simp
    with ok show ?thesis by simp
  qed
next
  fix c' err
  show "Load e blob \<noteq> Return (Some c') (Some err)"
    by (simp add: Load_def split: sum.splits option.splits res.splits)
next
  show "Load e blob \<noteq> Return None None"
    by (simp add: Load_def split: sum.splits option.splits res.splits)
next
  show "(loaded (Load e blob) = None) = (\<forall>c'. Load e blob \<noteq> Return (Some c') None)"
    by (cases "Load e blob") (auto simp: loaded_def Load_def split: sum.splits option.splits res.splits)
qed

lemma entry_ok_passes: "entry_ok e ts a \<Longrightarrow> entry_passes ts a"
  by (cases "snd a") (simp_all add: entry_ok_def entry_passes_def)

lemma sample_passes: "list_all (entry_passes (Templates sample_config)) (Peers sample_config)"
  using sample_peer1_ok sample_peer2_ok by (simp add: entry_ok_passes)

lemma sample_globals_any: "globals_ok (env_of c) sample_config"
  by (simp add: globals_ok_def is_ok_def sample_cidr_def Atoi_def is_digit_def Let_def)

lemma sample_hostname_ok: "Hostname c = ''router1'' \<Longrightarrow> hostname_ok (env_of d) c"
  by (simp add: hostname_ok_def)

lemma rejected_communities:
  "categorizeCommunity ''65000,100'' = ''standard''"
  "categorizeCommunity ''65000:100'' = ''''"
  by (simp_all add: categorizeCommunity_def Atoi_def is_digit_def Let_def)

lemma sample_bad_origin_fields [simp]:
  "Templates sample_bad_origin = Templates sample_config"
  "Peers sample_bad_origin = Peers sample_config"
  "Prefixes sample_bad_origin = [''192.0.2.0/24'', ''192.0.2.0/33'', ''2001:db8::/32'']"
  "Prefixes4 sample_bad_origin = []" "Prefixes6 sample_bad_origin = []"
  "Hostname sample_bad_origin = ''router1''"
  "required_fields sample_bad_origin = None"
  by (simp_all add: sample_bad_origin_def sample_config_def no_config_def required_fields_def)

lemma sample_bad_origin_rejected:
  "check_templates (Templates sample_bad_origin) = Ok ()"
  "hostname_ok (env_of sample_bad_origin) sample_bad_origin"
  "list_all (entry_passes (Templates sample_bad_origin)) (Peers sample_bad_origin)"
  "\<not> global_lists_ok (env_of sample_bad_origin) sample_bad_origin"
proof -
  show "check_templates (Templates sample_bad_origin) = Ok ()"
    using sample_templates_ok by simp
  show "hostname_ok (env_of sample_bad_origin) sample_bad_origin"
    by (simp add: sample_hostname_ok)
  show "list_all (entry_passes (Templates sample_bad_origin)) (Peers sample_bad_origin)"
    using sample_passes by simp
  show "\<not> global_lists_ok (env_of sample_bad_origin) sample_bad_origin"
    by (simp add: global_lists_ok_def is_ok_def sample_cidr_def)
qed

lemma sample_bad_community_fields [simp]:
  "Templates sample_bad_community = Templates sample_config"
  "Peers sample_bad_community = [(''Peer2'', Some (sample_peer2\<lparr>slices := (slices sample_peer2)
        (''ExportCommunities'' \<mapsto> [''65000,100'', ''65000:100''])\<rparr>))]"
  "Prefixes sample_bad_community = Prefixes sample_config"
  "Hostname sample_bad_community = ''router1''"
  "required_fields sample_bad_community = None"
  by (simp_all add: sample_bad_community_def sample_config_def no_config_def required_fields_def)

lemma sample_bad_community_merged:
  "merged (Templates sample_config) (sample_peer2\<lparr>slices := (slices sample_peer2)
        (''ExportCommunities'' \<mapsto> [''65000,100'', ''65000:100''])\<rparr>) =
   sample_peer2\<lparr>slices := (slices sample_peer2)(''ExportCommunities'' \<mapsto> [''65000,100'', ''65000:100''])\<rparr>"
  by (simp add: merged_def template_of_def sample_peer2_def no_peer_def)

lemma sample_bad_community_rejected:
  "check_templates (Templates sample_bad_community) = Ok ()"
  "hostname_ok (env_of sample_bad_community) sample_bad_community"
  "list_all (entry_passes (Templates sample_bad_community)) (Peers sample_bad_community)"
  "global_lists_ok (env_of sample_bad_community) sample_bad_community"
  "rtr_ok sample_bad_community"
  "\<not> list_all (entry_ok (env_of sample_bad_community) (Templates sample_bad_community))
        (Peers sample_bad_community)"
proof -
  show "check_templates (Templates sample_bad_community) = Ok ()"
    using sample_templates_ok by simp
  show "hostname_ok (env_of sample_bad_community) sample_bad_community"
    by (simp add: sample_hostname_ok)
  show "list_all (entry_passes (Templates sample_bad_community)) (Peers sample_bad_community)"
    by (simp add: entry_passes_def has_neighbors_def names_template_def sample_peer2_def no_peer_def)
  have "globals_ok (env_of sample_bad_community) sample_bad_community"
    using sample_globals_any[of sample_bad_community] by (simp add: sample_bad_community_def)
  then show "global_lists_ok (env_of sample_bad_community) sample_bad_community"
    and "rtr_ok sample_bad_community"
    by (simp_all add: globals_ok_iff)
  have "\<not> lists_ok (env_of sample_bad_community) (merged (Templates sample_config)
     (sample_peer2\<lparr>slices := (slices sample_peer2)
        (''ExportCommunities'' \<mapsto> [''65000,100'', ''65000:100''])\<rparr>))"
    unfolding sample_bad_community_merged
    by (simp add: lists_ok_def elements_def is_standard_def is_large_def rejected_communities)
  then show "\<not> list_all (entry_ok (env_of sample_bad_community) (Templates sample_bad_community))
        (Peers sample_bad_community)"
    by (simp add: entry_ok_def del: sample_config_fields)
qed

lemma sample_accepted:
  "check_templates (Templates sample_config) = Ok ()"
  "hostname_ok (env_of sample_config) sample_config"
  "list_all (entry_passes (Templates sample_config)) (Peers sample_config)"
  "global_lists_ok (env_of sample_config) sample_config"
  "rtr_ok sample_config"
  "list_all (entry_ok (env_of sample_config) (Templates sample_config)) (Peers sample_config)"
proof -
  show "hostname_ok (env_of sample_config) sample_config" by (simp add: sample_hostname_ok)
  from sample_globals_ok show "global_lists_ok (env_of sample_config) sample_config"
    and "rtr_ok sample_config"
    by (simp_all add: globals_ok_iff)
qed (rule sample_templates_ok sample_passes sample_entries_ok)+

lemma sample_nested_rejected: "check_templates (Templates sample_nested) \<noteq> Ok ()"
  by simp

theorem Load_all_or_nothing_witness:
  "Load env_undecodable ''peers: {'' =
     Return None (Some ''YAML unmarshal: yaml: did not find expected key'') \<and>
   Load (env_of sample_no_asn) ''asn: 0'' = Return None (Some ''Validation: ASN is required'') \<and>
   ((\<exists>n. Load (env_of sample_nested) ''templates: ...'' =
           Exit (''Templates must not have a template field set, but '' @ n @ '' does'')) \<or>
    Load (env_of sample_nested) ''templates: ...'' = Panicked) \<and>
   ((\<exists>msg. Load (env_of sample_bad_origin) ''prefixes: ...'' = Return None (Some msg)) \<or>
    Load (env_of sample_bad_origin) ''prefixes: ...'' = Panicked) \<and>
   (\<exists>msg. Load (env_of sample_bad_community) ''peers: ...'' = Return None (Some msg)) \<and>
   (\<exists>c'. Load (env_of sample_config) ''peers: ...'' = Return (Some c') None)"
proof (intro conjI)
  have "Unmarshal env_undecodable ''peers: {'' = Inl ''yaml: did not find expected key''"
    by (simp add: env_undecodable_def)
  from Load_all_or_nothing[of env_undecodable "''peers: {''", THEN conjunct1, rule_format, OF this]
  show "Load env_undecodable ''peers: {'' =
     Return None (Some ''YAML unmarshal: yaml: did not find expected key'')"
    by simp
next
  have "Unmarshal (env_of sample_no_asn) ''asn: 0'' = Inr sample_no_asn \<and>
        Validate (env_of sample_no_asn) sample_no_asn = Some ''ASN is required''"
    by (simp add: required_fields_def sample_no_asn_def)
  from Load_all_or_nothing[of "env_of sample_no_asn" "''asn: 0''", THEN conjunct2, THEN conjunct1,
      rule_format, OF this]
  show "Load (env_of sample_no_asn) ''asn: 0'' = Return None (Some ''Validation: ASN is required'')"
    by simp
next
  have "Unmarshal (env_of sample_nested) ''templates: ...'' = Inr sample_nested \<and>
        Validate (env_of sample_nested) sample_nested = None"
    by simp
  from Load_all_or_nothing[of "env_of sample_nested" "''templates: ...''", THEN conjunct2, THEN conjunct2,
      THEN conjunct1, rule_format, OF this]
  show "(\<exists>n. Load (env_of sample_nested) ''templates: ...'' =
           Exit (''Templates must not have a template field set, but '' @ n @ '' does'')) \<or>
    Load (env_of sample_nested) ''templates: ...'' = Panicked"
    by (simp only: sample_nested_rejected not_False_eq_True if_True)
next
  have "Unmarshal (env_of sample_bad_origin) ''prefixes: ...'' = Inr sample_bad_origin \<and>
        Validate (env_of sample_bad_origin) sample_bad_origin = None"
    by simp
  from Load_all_or_nothing[of "env_of sample_bad_origin" "''prefixes: ...''", THEN conjunct2, THEN conjunct2,
      THEN conjunct1, rule_format, OF this]
  show "(\<exists>msg. Load (env_of sample_bad_origin) ''prefixes: ...'' = Return None (Some msg)) \<or>
    Load (env_of sample_bad_origin) ''prefixes: ...'' = Panicked"
    by (simp only: sample_bad_origin_rejected simp_thms if_True if_False)
next
  have "Unmarshal (env_of sample_bad_community) ''peers: ...'' = Inr sample_bad_community \<and>
        Validate (env_of sample_bad_community) sample_bad_community = None"
    by simp
  from Load_all_or_nothing[of "env_of sample_bad_community" "''peers: ...''", THEN conjunct2, THEN conjunct2,
      THEN conjunct1, rule_format, OF this]
  show "\<exists>msg. Load (env_of sample_bad_community) ''peers: ...'' = Return None (Some msg)"
    by (simp only: sample_bad_community_rejected simp_thms if_True if_False)
next
  have "Unmarshal (env_of sample_config) ''peers: ...'' = Inr sample_config \<and>
        Validate (env_of sample_config) sample_config = None"
    by simp
  from Load_all_or_nothing[of "env_of sample_config" "''peers: ...''", THEN conjunct2, THEN conjunct2,
      THEN conjunct1, rule_format, OF this]
  show "\<exists>c'. Load (env_of sample_config) ''peers: ...'' = Return (Some c') None"
    by (simp only: sample_accepted simp_thms if_True if_False)
qed

theorem Load_failure_not_returned_counterexample:
  "loaded (Load (env_of sample_nested) ''templates: ...'') = None \<and>
   Load (env_of sample_nested) ''templates: ...'' =
     Exit ''Templates must not have a template field set, but upstream does'' \<and>
   \<not> (\<exists>msg. Load (env_of sample_nested) ''templates: ...'' = Return None (Some msg))"
  by (simp add: sample_nested_exits loaded_def)

text \<open>
  Claim C4. \<^verbatim>\<open>net.ParseCIDR\<close> followed by \<^verbatim>\<open>To4\<close> sorts a string that parses into the
  4-byte family (\<open>is_v4\<close>) or else into the other (\<open>is_v6\<close>). In a configuration that was
  loaded, all origin prefixes parse, and \<^verbatim>\<open>Prefixes4\<close> and \<^verbatim>\<open>Prefixes6\<close> are the
  v4 and the v6 elements of \<^verbatim>\<open>Prefixes\<close> in the order and with the multiplicity of the
  input: together they are the input as a multiset, and they share no element. The same
  holds for every peer and its \<^verbatim>\<open>PrefixSet4\<close> and \<^verbatim>\<open>PrefixSet6\<close>, where the input is
  the list of prefixes the peer has after its template was merged. A string that does not
  parse, among the origin prefixes or among the prefixes of a peer, keeps \<^verbatim>\<open>Load\<close> from
  returning a configuration. When the steps before it pass, the first origin prefix that
  does not parse is returned in the error; when moreover the global part is accepted, a
  peer with a prefix that does not parse makes \<^verbatim>\<open>Load\<close> return an error, and an error that
  \<^verbatim>\<open>Load\<close> returns, with the community lists of all peers in order, names a prefix of a peer
  that does not parse, the first such of its list.
\<close>

theorem prefixes_partitioned:
  assumes "Unmarshal e blob = Inr c" and "decoded c"
  shows "(\<forall>c'. loaded (Load e blob) = Some c' \<longrightarrow>
            list_all (\<lambda>x. ParseCIDR e x \<noteq> None) (Prefixes c) \<and>
            Prefixes4 c' = filter (is_v4 e) (Prefixes c) \<and>
            Prefixes6 c' = filter (is_v6 e) (Prefixes c) \<and>
            mset (Prefixes4 c') + mset (Prefixes6 c') = mset (Prefixes c) \<and>
            set (Prefixes4 c') \<inter> set (Prefixes6 c') = {} \<and>
            (\<forall>i n p. i < length (Peers c) \<and> Peers c ! i = (n, Some p) \<longrightarrow>
               (\<exists>p'. Peers c' ! i = (n, Some p') \<and>
                  elements p' ''Prefixes'' = elements (merged (Templates c) p) ''Prefixes'' \<and>
                  list_all (\<lambda>x. ParseCIDR e x \<noteq> None) (elements p' ''Prefixes'') \<and>
                  slices p' ''PrefixSet4'' = appended None (filter (is_v4 e) (elements p' ''Prefixes'')) \<and>
                  slices p' ''PrefixSet6'' = appended None (filter (is_v6 e) (elements p' ''Prefixes'')) \<and>
                  mset (elements p' ''PrefixSet4'') + mset (elements p' ''PrefixSet6'') =
                    mset (elements p' ''Prefixes'') \<and>
                  set (elements p' ''PrefixSet4'') \<inter> set (elements p' ''PrefixSet6'') = {}))) \<and>
     ((\<exists>x \<in> set (Prefixes c). ParseCIDR e x = None) \<longrightarrow> loaded (Load e blob) = None) \<and>
     (\<forall>ys x zs. Validate e c = None \<and> check_templates (Templates c) = Ok () \<and> hostname_ok e c \<and>
            list_all (entry_passes (Templates c)) (Peers c) \<and>
            Prefixes c = ys @ x # zs \<and> list_all (\<lambda>y. ParseCIDR e y \<noteq> None) ys \<and> ParseCIDR e x = None \<longrightarrow>
            Load e blob = Return None (Some (''Invalid origin prefix: '' @ x))) \<and>
     (\<forall>i n p. i < length (Peers c) \<and> Peers c ! i = (n, Some p) \<and>
            \<not> prefixes_ok e (merged (Templates c) p) \<longrightarrow>
            loaded (Load e blob) = None \<and>
            (Validate e c = None \<and> check_templates (Templates c) = Ok () \<and> hostname_ok e c \<and>
             list_all (entry_passes (Templates c)) (Peers c) \<and> globals_ok e c \<longrightarrow>
             (\<exists>msg. Load e blob = Return None (Some msg)))) \<and>
     (\<forall>msg. Validate e c = None \<and> globals_ok e c \<and>
            list_all (\<lambda>a. case snd a of None \<Rightarrow> True | Some p \<Rightarrow> communities_ok (merged (Templates c) p)) (Peers c) \<and>
            Load e blob = Return None (Some msg) \<longrightarrow>
            (\<exists>i n p ys x zs. i < length (Peers c) \<and> Peers c ! i = (n, Some p) \<and>
               elements (merged (Templates c) p) ''Prefixes'' = ys @ x # zs \<and>
               list_all (\<lambda>y. ParseCIDR e y \<noteq> None) ys \<and> ParseCIDR e x = None \<and>
               msg = ''Invalid prefix: '' @ x))"
proof (intro conjI)
  show "(\<forall>c'. loaded (Load e blob) = Some c' \<longrightarrow>
            list_all (\<lambda>x. ParseCIDR e x \<noteq> None) (Prefixes c) \<and>
            Prefixes4 c' = filter (is_v4 e) (Prefixes c) \<and>
            Prefixes6 c' = filter (is_v6 e) (Prefixes c) \<and>
            mset (Prefixes4 c') + mset (Prefixes6 c') = mset (Prefixes c) \<and>
            set (Prefixes4 c') \<inter> set (Prefixes6 c') = {} \<and>
            (\<forall>i n p. i < length (Peers c) \<and> Peers c ! i = (n, Some p) \<longrightarrow>
               (\<exists>p'. Peers c' ! i = (n, Some p') \<and>
                  elements p' ''Prefixes'' = elements (merged (Templates c) p) ''Prefixes'' \<and>
                  list_all (\<lambda>x. ParseCIDR e x \<noteq> None) (elements p' ''Prefixes'') \<and>
                  slices p' ''PrefixSet4'' = appended None (filter (is_v4 e) (elements p' ''Prefixes'')) \<and>
                  slices p' ''PrefixSet6'' = appended None (filter (is_v6 e) (elements p' ''Prefixes'')) \<and>
                  mset (elements p' ''PrefixSet4'') + mset (elements p' ''PrefixSet6'') =
                    mset (elements p' ''Prefixes'') \<and>
                  set (elements p' ''PrefixSet4'') \<inter> set (elements p' ''PrefixSet6'') = {})))"
  proof (intro allI impI)
    fix c' assume l: "loaded (Load e blob) = Some c'"
    with assms(1) have r: "resolve e c = Ok c'" by (auto simp: loaded_iff)
    from resolve_Ok[OF r] assms(2) have
      "split_families e ''Invalid origin prefix: '' (Prefixes c) ([], []) = Ok (Prefixes4 c', Prefixes6 c')"
      by (auto simp: decoded_def)
    from split_families_Ok[OF this] have g:
      "list_all (\<lambda>x. ParseCIDR e x \<noteq> None) (Prefixes c)"
      "Prefixes4 c' = filter (is_v4 e) (Prefixes c)" "Prefixes6 c' = filter (is_v6 e) (Prefixes c)"
      by simp_all
    note gp = family_partition[OF g(1)]
    have peers: "\<exists>p'. Peers c' ! i = (n, Some p') \<and>
                  elements p' ''Prefixes'' = elements (merged (Templates c) p) ''Prefixes'' \<and>
                  list_all (\<lambda>x. ParseCIDR e x \<noteq> None) (elements p' ''Prefixes'') \<and>
                  slices p' ''PrefixSet4'' = appended None (filter (is_v4 e) (elements p' ''Prefixes'')) \<and>
                  slices p' ''PrefixSet6'' = appended None (filter (is_v6 e) (elements p' ''Prefixes'')) \<and>
                  mset (elements p' ''PrefixSet4'') + mset (elements p' ''PrefixSet6'') =
                    mset (elements p' ''Prefixes'') \<and>
                  set (elements p' ''PrefixSet4'') \<inter> set (elements p' ''PrefixSet6'') = {}"
      if "i < length (Peers c) \<and> Peers c ! i = (n, Some p)" for i n p
    proof -
      from that have i: "i < length (Peers c)" and a: "Peers c ! i = (n, Some p)" by simp_all
      from resolved_peer_lists[OF assms l i a] obtain p' where
        p1: "Peers c' ! i = (n, Some p')" and
        p2: "\<And>s. s \<in> set [''Prefixes'', ''ImportCommunities'', ''ExportCommunities'',
            ''AnnounceCommunities'', ''RemoveCommunities''] \<Longrightarrow>
          elements p' s = elements (merged (Templates c) p) s" and
        p3: "lists_ok e p'" and
        p4: "\<And>fld. fld \<in> set [''PrefixSet4'', ''PrefixSet6'',
          ''ImportStandardCommunities'', ''ImportLargeCommunities'', ''ExportStandardCommunities'',
          ''ExportLargeCommunities'', ''AnnounceStandardCommunities'', ''AnnounceLargeCommunities'',
          ''RemoveStandardCommunities'', ''RemoveLargeCommunities''] \<Longrightarrow>
          slices p' fld = appended None (additions e p' fld)"
        by blast
      from p2[of "''Prefixes''"] have q1: "elements p' ''Prefixes'' = elements (merged (Templates c) p) ''Prefixes''"
        by simp
      from p3 have q2: "list_all (\<lambda>x. ParseCIDR e x \<noteq> None) (elements p' ''Prefixes'')"
        by (simp add: lists_ok_def)
      from p4[of "''PrefixSet4''"] have q3:
        "slices p' ''PrefixSet4'' = appended None (filter (is_v4 e) (elements p' ''Prefixes''))"
        by (simp add: additions_def)
      from p4[of "''PrefixSet6''"] have q4:
        "slices p' ''PrefixSet6'' = appended None (filter (is_v6 e) (elements p' ''Prefixes''))"
        by (simp add: additions_def)
      from q3 have q5: "elements p' ''PrefixSet4'' = filter (is_v4 e) (elements p' ''Prefixes'')"
        by (simp add: elements_def elements_appended_None)
      from q4 have q6: "elements p' ''PrefixSet6'' = filter (is_v6 e) (elements p' ''Prefixes'')"
        by (simp add: elements_def elements_appended_None)
      from family_partition[OF q2] q5 q6 have
        "mset (elements p' ''PrefixSet4'') + mset (elements p' ''PrefixSet6'') = mset (elements p' ''Prefixes'')"
        "set (elements p' ''PrefixSet4'') \<inter> set (elements p' ''PrefixSet6'') = {}"
        by simp_all
      with p1 q1 q2 q3 q4 show ?thesis by blast
    qed
    from g gp peers
    show "list_all (\<lambda>x. ParseCIDR e x \<noteq> None) (Prefixes c) \<and>
            Prefixes4 c' = filter (is_v4 e) (Prefixes c) \<and>
            Prefixes6 c' = filter (is_v6 e) (Prefixes c) \<and>
            mset (Prefixes4 c') + mset (Prefixes6 c') = mset (Prefixes c) \<and>
            set (Prefixes4 c') \<inter> set (Prefixes6 c') = {} \<and>
            (\<forall>i n p. i < length (Peers c) \<and> Peers c ! i = (n, Some p) \<longrightarrow>
               (\<exists>p'. Peers c' ! i = (n, Some p') \<and>
                  elements p' ''Prefixes'' = elements (merged (Templates c) p) ''Prefixes'' \<and>
                  list_all (\<lambda>x. ParseCIDR e x \<noteq> None) (elements p' ''Prefixes'') \<and>
                  slices p' ''PrefixSet4'' = appended None (filter (is_v4 e) (elements p' ''Prefixes'')) \<and>
                  slices p' ''PrefixSet6'' = appended None (filter (is_v6 e) (elements p' ''Prefixes'')) \<and>
                  mset (elements p' ''PrefixSet4'') + mset (elements p' ''PrefixSet6'') =
                    mset (elements p' ''Prefixes'') \<and>
                  set (elements p' ''PrefixSet4'') \<inter> set (elements p' ''PrefixSet6'') = {}))"
      by simp
  qed
  show "(\<exists>x \<in> set (Prefixes c). ParseCIDR e x = None) \<longrightarrow> loaded (Load e blob) = None"
  proof
    assume b: "\<exists>x \<in> set (Prefixes c). ParseCIDR e x = None"
    show "loaded (Load e blob) = None"
    proof (cases "loaded (Load e blob)")
      case None
      then show ?thesis .
    next
      case (Some c')
      with assms(1) have "resolve e c = Ok c'" by (auto simp: loaded_iff)
      from resolve_Ok[OF this] have
        "split_families e ''Invalid origin prefix: '' (Prefixes c) (Prefixes4 c, Prefixes6 c) =
           Ok (Prefixes4 c', Prefixes6 c')"
        by blast
      from split_families_Ok[OF this] b show ?thesis by (auto simp: list_all_iff)
    qed
  qed
  show "\<forall>ys x zs. Validate e c = None \<and> check_templates (Templates c) = Ok () \<and> hostname_ok e c \<and>
            list_all (entry_passes (Templates c)) (Peers c) \<and>
            Prefixes c = ys @ x # zs \<and> list_all (\<lambda>y. ParseCIDR e y \<noteq> None) ys \<and> ParseCIDR e x = None \<longrightarrow>
            Load e blob = Return None (Some (''Invalid origin prefix: '' @ x))"
  proof (intro allI impI)
    fix ys x zs
    assume h: "Validate e c = None \<and> check_templates (Templates c) = Ok () \<and> hostname_ok e c \<and>
            list_all (entry_passes (Templates c)) (Peers c) \<and>
            Prefixes c = ys @ x # zs \<and> list_all (\<lambda>y. ParseCIDR e y \<noteq> None) ys \<and> ParseCIDR e x = None"
    then have "resolve e c = Err (''Invalid origin prefix: '' @ x)"
      using resolve_origin_Err[of c e ys x zs] by blast
    with assms(1) h show "Load e blob = Return None (Some (''Invalid origin prefix: '' @ x))"
      by (simp add: Load_def)
  qed
  show "\<forall>i n p. i < length (Peers c) \<and> Peers c ! i = (n, Some p) \<and>
            \<not> prefixes_ok e (merged (Templates c) p) \<longrightarrow>
            loaded (Load e blob) = None \<and>
            (Validate e c = None \<and> check_templates (Templates c) = Ok () \<and> hostname_ok e c \<and>
             list_all (entry_passes (Templates c)) (Peers c) \<and> globals_ok e c \<longrightarrow>
             (\<exists>msg. Load e blob = Return None (Some msg)))"
  proof (intro allI impI)
    fix i n p
    assume h: "i < length (Peers c) \<and> Peers c ! i = (n, Some p) \<and> \<not> prefixes_ok e (merged (Templates c) p)"
    then have i: "i < length (Peers c)" and a: "Peers c ! i = (n, Some p)"
      and b: "\<not> lists_ok e (merged (Templates c) p)"
      by (simp_all add: lists_ok_iff)
    from Load_fails[OF assms(1) i a b] Load_fails_Err[OF assms(1) _ _ _ _ _ i a b]
    show "loaded (Load e blob) = None \<and>
            (Validate e c = None \<and> check_templates (Templates c) = Ok () \<and> hostname_ok e c \<and>
             list_all (entry_passes (Templates c)) (Peers c) \<and> globals_ok e c \<longrightarrow>
             (\<exists>msg. Load e blob = Return None (Some msg)))"
      by blast
  qed
  show "\<forall>msg. Validate e c = None \<and> globals_ok e c \<and>
            list_all (\<lambda>a. case snd a of None \<Rightarrow> True | Some p \<Rightarrow> communities_ok (merged (Templates c) p)) (Peers c) \<and>
            Load e blob = Return None (Some msg) \<longrightarrow>
            (\<exists>i n p ys x zs. i < length (Peers c) \<and> Peers c ! i = (n, Some p) \<and>
               elements (merged (Templates c) p) ''Prefixes'' = ys @ x # zs \<and>
               list_all (\<lambda>y. ParseCIDR e y \<noteq> None) ys \<and> ParseCIDR e x = None \<and>
               msg = ''Invalid prefix: '' @ x)"
  proof (intro allI impI)
    fix msg
    assume h: "Validate e c = None \<and> globals_ok e c \<and>
            list_all (\<lambda>a. case snd a of None \<Rightarrow> True | Some p \<Rightarrow> communities_ok (merged (Templates c) p)) (Peers c) \<and>
            Load e blob = Return None (Some msg)"
    then have v: "Validate e c = None" and g: "globals_ok e c"
      and co: "list_all (\<lambda>a. case snd a of None \<Rightarrow> True | Some p \<Rightarrow> communities_ok (merged (Templates c) p)) (Peers c)"
      and l: "Load e blob = Return None (Some msg)"
      by simp_all
    from Load_Err_peer[OF assms(1) v g l] obtain i n p where
      i: "i < length (Peers c)" and a: "Peers c ! i = (n, Some p)" and
      d: "(\<exists>ys x zs. elements (merged (Templates c) p) ''Prefixes'' = ys @ x # zs \<and>
         list_all (\<lambda>y. ParseCIDR e y \<noteq> None) ys \<and> ParseCIDR e x = None \<and>
         msg = ''Invalid prefix: '' @ x) \<or>
      (\<exists>what src std lrg ys x zs. (what, src, std, lrg) \<in> set community_fields \<and>
         elements (merged (Templates c) p) src = ys @ x # zs \<and>
         list_all (\<lambda>y. is_standard y \<or> is_large y) ys \<and>
         \<not> is_standard x \<and> \<not> is_large x \<and> msg = ''Invalid '' @ what @ '' community: '' @ x)"
      by blast
    from co i have "case snd (Peers c ! i) of None \<Rightarrow> True | Some p \<Rightarrow> communities_ok (merged (Templates c) p)"
      unfolding list_all_length by blast
    with a have "communities_ok (merged (Templates c) p)" by simp
    then have ok: "list_all (\<lambda>x. is_standard x \<or> is_large x) (elements (merged (Templates c) p) src)"
      if "(what, src, std, lrg) \<in> set community_fields" for what src std lrg
      using that unfolding communities_ok_def list_all_iff by blast
    from d show "\<exists>i n p ys x zs. i < length (Peers c) \<and> Peers c ! i = (n, Some p) \<and>
               elements (merged (Templates c) p) ''Prefixes'' = ys @ x # zs \<and>
               list_all (\<lambda>y. ParseCIDR e y \<noteq> None) ys \<and> ParseCIDR e x = None \<and>
               msg = ''Invalid prefix: '' @ x"
    proof
      assume "\<exists>ys x zs. elements (merged (Templates c) p) ''Prefixes'' = ys @ x # zs \<and>
         list_all (\<lambda>y. ParseCIDR e y \<noteq> None) ys \<and> ParseCIDR e x = None \<and>
         msg = ''Invalid prefix: '' @ x"
      with i a show ?thesis by blast
    next
      assume "\<exists>what src std lrg ys x zs. (what, src, std, lrg) \<in> set community_fields \<and>
         elements (merged (Templates c) p) src = ys @ x # zs \<and>
         list_all (\<lambda>y. is_standard y \<or> is_large y) ys \<and>
         \<not> is_standard x \<and> \<not> is_large x \<and> msg = ''Invalid '' @ what @ '' community: '' @ x"
      then obtain what src std lrg ys x zs where
        m: "(what, src, std, lrg) \<in> set community_fields" and
        el: "elements (merged (Templates c) p) src = ys @ x # zs" and
        bad: "\<not> is_standard x" "\<not> is_large x"
        by blast
      from ok[OF m] el have "is_standard x \<or> is_large x" by simp
      with bad show ?thesis by simp
    qed
  qed
qed

lemma sample_bad_prefix_fields [simp]:
  "Templates sample_bad_prefix = Templates sample_config"
  "Peers sample_bad_prefix = [(''Peer2'', Some (sample_peer2\<lparr>slices := (slices sample_peer2)
        (''Prefixes'' \<mapsto> [''2001:db8:1::/48'', ''192.0.2.0/33''])\<rparr>))]"
  "Prefixes sample_bad_prefix = Prefixes sample_config"
  "Hostname sample_bad_prefix = ''router1''"
  "required_fields sample_bad_prefix = None"
  by (simp_all add: sample_bad_prefix_def sample_config_def no_config_def required_fields_def)

lemma sample_bad_prefix_merged:
  "merged (Templates sample_config) (sample_peer2\<lparr>slices := (slices sample_peer2)
        (''Prefixes'' \<mapsto> [''2001:db8:1::/48'', ''192.0.2.0/33''])\<rparr>) =
   sample_peer2\<lparr>slices := (slices sample_peer2)(''Prefixes'' \<mapsto> [''2001:db8:1::/48'', ''192.0.2.0/33''])\<rparr>"
  by (simp add: merged_def template_of_def sample_peer2_def no_peer_def)

lemma sample_bad_prefix_rejected:
  "check_templates (Templates sample_bad_prefix) = Ok ()"
  "hostname_ok (env_of sample_bad_prefix) sample_bad_prefix"
  "list_all (entry_passes (Templates sample_bad_prefix)) (Peers sample_bad_prefix)"
  "globals_ok (env_of sample_bad_prefix) sample_bad_prefix"
  "list_all (\<lambda>a. case snd a of None \<Rightarrow> True
       | Some p \<Rightarrow> communities_ok (merged (Templates sample_bad_prefix) p)) (Peers sample_bad_prefix)"
  "\<not> prefixes_ok (env_of sample_bad_prefix) (merged (Templates sample_bad_prefix)
       (sample_peer2\<lparr>slices := (slices sample_peer2)
          (''Prefixes'' \<mapsto> [''2001:db8:1::/48'', ''192.0.2.0/33''])\<rparr>))"
  "elements (merged (Templates sample_bad_prefix)
       (sample_peer2\<lparr>slices := (slices sample_peer2)
          (''Prefixes'' \<mapsto> [''2001:db8:1::/48'', ''192.0.2.0/33''])\<rparr>)) ''Prefixes'' =
     [''2001:db8:1::/48'', ''192.0.2.0/33'']"
proof -
  show "check_templates (Templates sample_bad_prefix) = Ok ()"
    using sample_templates_ok by simp
  show "hostname_ok (env_of sample_bad_prefix) sample_bad_prefix"
    by (simp add: sample_hostname_ok)
  show "list_all (entry_passes (Templates sample_bad_prefix)) (Peers sample_bad_prefix)"
    by (simp add: entry_passes_def has_neighbors_def names_template_def sample_peer2_def no_peer_def)
  show "globals_ok (env_of sample_bad_prefix) sample_bad_prefix"
    using sample_globals_any[of sample_bad_prefix] by (simp add: sample_bad_prefix_def)
  have m: "merged (Templates sample_bad_prefix) (sample_peer2\<lparr>slices := (slices sample_peer2)
        (''Prefixes'' \<mapsto> [''2001:db8:1::/48'', ''192.0.2.0/33''])\<rparr>) =
     sample_peer2\<lparr>slices := (slices sample_peer2)(''Prefixes'' \<mapsto> [''2001:db8:1::/48'', ''192.0.2.0/33''])\<rparr>"
    using sample_bad_prefix_merged by (simp del: sample_config_fields)
  show "list_all (\<lambda>a. case snd a of None \<Rightarrow> True
       | Some p \<Rightarrow> communities_ok (merged (Templates sample_bad_prefix) p)) (Peers sample_bad_prefix)"
    using m
    by (simp add: communities_ok_def community_fields_def elements_def sample_peer2_def no_peer_def
        del: sample_bad_prefix_fields(1))
  show "\<not> prefixes_ok (env_of sample_bad_prefix) (merged (Templates sample_bad_prefix)
       (sample_peer2\<lparr>slices := (slices sample_peer2)
          (''Prefixes'' \<mapsto> [''2001:db8:1::/48'', ''192.0.2.0/33''])\<rparr>))"
    unfolding m by (simp add: prefixes_ok_def elements_def sample_cidr_def)
  show "elements (merged (Templates sample_bad_prefix)
       (sample_peer2\<lparr>slices := (slices sample_peer2)
          (''Prefixes'' \<mapsto> [''2001:db8:1::/48'', ''192.0.2.0/33''])\<rparr>)) ''Prefixes'' =
     [''2001:db8:1::/48'', ''192.0.2.0/33'']"
    unfolding m by (simp add: elements_def)
qed

lemma sample_peer1_prefixes:
  "elements (merged (Templates sample_config) sample_peer1) ''Prefixes'' =
     [''192.0.2.0/24'', ''2001:db8::/32'', ''198.51.100.0/24'']"
  "elements (merged (Templates sample_config) sample_peer2) ''Prefixes'' = []"
  by (simp_all add: elements_def slices_merged_schema sample_peer1_template source_fields
      template_of_def sample_peer1_def sample_peer2_def sample_template_def no_peer_def)

theorem prefixes_partitioned_witness:
  "(\<exists>c' p1 p2. loaded (Load (env_of sample_config) ''prefixes: ...'') = Some c' \<and>
      Prefixes4 c' = [''192.0.2.0/24'', ''192.0.2.0/24''] \<and> Prefixes6 c' = [''2001:db8::/32''] \<and>
      Peers c' ! 0 = (''Peer1'', Some p1) \<and>
      slices p1 ''PrefixSet4'' = Some [''192.0.2.0/24'', ''198.51.100.0/24''] \<and>
      slices p1 ''PrefixSet6'' = Some [''2001:db8::/32''] \<and>
      Peers c' ! 1 = (''Peer2'', Some p2) \<and>
      slices p2 ''PrefixSet4'' = None \<and> slices p2 ''PrefixSet6'' = None) \<and>
   Load (env_of sample_bad_origin) ''prefixes: ...'' =
     Return None (Some ''Invalid origin prefix: 192.0.2.0/33'') \<and>
   loaded (Load (env_of sample_bad_prefix) ''peers: ...'') = None \<and>
   Load (env_of sample_bad_prefix) ''peers: ...'' = Return None (Some ''Invalid prefix: 192.0.2.0/33'')"
proof (intro conjI)
  have u: "Unmarshal (env_of sample_config) ''prefixes: ...'' = Inr sample_config" by simp
  from sample_loads obtain c' where l: "loaded (Load (env_of sample_config) ''prefixes: ...'') = Some c'"
    by blast
  note t = prefixes_partitioned[OF u decoded_sample, THEN conjunct1, rule_format, OF l]
  from t have g: "Prefixes4 c' = filter (is_v4 (env_of sample_config)) (Prefixes sample_config)"
    "Prefixes6 c' = filter (is_v6 (env_of sample_config)) (Prefixes sample_config)"
    by blast+
  have i0: "0 < length (Peers sample_config) \<and> Peers sample_config ! 0 = (''Peer1'', Some sample_peer1)"
    by simp
  have i1: "1 < length (Peers sample_config) \<and> Peers sample_config ! 1 = (''Peer2'', Some sample_peer2)"
    by simp
  from t have peers: "\<And>i n p. i < length (Peers sample_config) \<and> Peers sample_config ! i = (n, Some p) \<Longrightarrow>
     \<exists>p'. Peers c' ! i = (n, Some p') \<and>
        elements p' ''Prefixes'' = elements (merged (Templates sample_config) p) ''Prefixes'' \<and>
        slices p' ''PrefixSet4'' = appended None (filter (is_v4 (env_of sample_config)) (elements p' ''Prefixes'')) \<and>
        slices p' ''PrefixSet6'' = appended None (filter (is_v6 (env_of sample_config)) (elements p' ''Prefixes''))"
    by blast
  from peers[OF i0] obtain p1 where p1: "Peers c' ! 0 = (''Peer1'', Some p1)"
    "elements p1 ''Prefixes'' = elements (merged (Templates sample_config) sample_peer1) ''Prefixes''"
    "slices p1 ''PrefixSet4'' = appended None (filter (is_v4 (env_of sample_config)) (elements p1 ''Prefixes''))"
    "slices p1 ''PrefixSet6'' = appended None (filter (is_v6 (env_of sample_config)) (elements p1 ''Prefixes''))"
    by blast
  from peers[OF i1] obtain p2 where p2: "Peers c' ! 1 = (''Peer2'', Some p2)"
    "elements p2 ''Prefixes'' = elements (merged (Templates sample_config) sample_peer2) ''Prefixes''"
    "slices p2 ''PrefixSet4'' = appended None (filter (is_v4 (env_of sample_config)) (elements p2 ''Prefixes''))"
    "slices p2 ''PrefixSet6'' = appended None (filter (is_v6 (env_of sample_config)) (elements p2 ''Prefixes''))"
    by blast
  have "Prefixes4 c' = [''192.0.2.0/24'', ''192.0.2.0/24''] \<and> Prefixes6 c' = [''2001:db8::/32'']"
    unfolding g by (simp add: is_v4_def is_v6_def sample_cidr_def)
  moreover have "slices p1 ''PrefixSet4'' = Some [''192.0.2.0/24'', ''198.51.100.0/24''] \<and>
      slices p1 ''PrefixSet6'' = Some [''2001:db8::/32'']"
    unfolding p1(3,4) p1(2) sample_peer1_prefixes
    by (simp add: appended_def is_v4_def is_v6_def sample_cidr_def)
  moreover have "slices p2 ''PrefixSet4'' = None \<and> slices p2 ''PrefixSet6'' = None"
    unfolding p2(3,4) p2(2) sample_peer1_prefixes
    by (simp add: appended_def)
  ultimately show "\<exists>c' p1 p2. loaded (Load (env_of sample_config) ''prefixes: ...'') = Some c' \<and>
      Prefixes4 c' = [''192.0.2.0/24'', ''192.0.2.0/24''] \<and> Prefixes6 c' = [''2001:db8::/32''] \<and>
      Peers c' ! 0 = (''Peer1'', Some p1) \<and>
      slices p1 ''PrefixSet4'' = Some [''192.0.2.0/24'', ''198.51.100.0/24''] \<and>
      slices p1 ''PrefixSet6'' = Some [''2001:db8::/32''] \<and>
      Peers c' ! 1 = (''Peer2'', Some p2) \<and>
      slices p2 ''PrefixSet4'' = None \<and> slices p2 ''PrefixSet6'' = None"
    using l p1(1) p2(1) by blast
next
  have u: "Unmarshal (env_of sample_bad_origin) ''prefixes: ...'' = Inr sample_bad_origin" by simp
  have d: "decoded sample_bad_origin"
    using decoded_sample by (simp add: decoded_def sample_bad_origin_def)
  have h: "Validate (env_of sample_bad_origin) sample_bad_origin = None \<and>
      check_templates (Templates sample_bad_origin) = Ok () \<and>
      hostname_ok (env_of sample_bad_origin) sample_bad_origin \<and>
      list_all (entry_passes (Templates sample_bad_origin)) (Peers sample_bad_origin) \<and>
      Prefixes sample_bad_origin = [''192.0.2.0/24''] @ ''192.0.2.0/33'' # [''2001:db8::/32''] \<and>
      list_all (\<lambda>y. ParseCIDR (env_of sample_bad_origin) y \<noteq> None) [''192.0.2.0/24''] \<and>
      ParseCIDR (env_of sample_bad_origin) ''192.0.2.0/33'' = None"
    using sample_bad_origin_rejected(1,2,3)
    by (simp add: sample_cidr_def del: sample_bad_origin_fields(1,2))
  from prefixes_partitioned[OF u d, THEN conjunct2, THEN conjunct2, THEN conjunct1, rule_format, OF h]
  show "Load (env_of sample_bad_origin) ''prefixes: ...'' =
     Return None (Some ''Invalid origin prefix: 192.0.2.0/33'')"
    by simp
next
  have u: "Unmarshal (env_of sample_bad_prefix) ''peers: ...'' = Inr sample_bad_prefix" by simp
  have d: "decoded sample_bad_prefix"
    by (simp add: decoded_def internal_unset_def IsNil_def field_value_simps peer_fields_def
      sample_peer2_def sample_template_def no_peer_def sample_bad_prefix_def sample_config_def no_config_def)
  have h: "0 < length (Peers sample_bad_prefix) \<and>
      Peers sample_bad_prefix ! 0 = (''Peer2'', Some (sample_peer2\<lparr>slices := (slices sample_peer2)
          (''Prefixes'' \<mapsto> [''2001:db8:1::/48'', ''192.0.2.0/33''])\<rparr>)) \<and>
      \<not> prefixes_ok (env_of sample_bad_prefix) (merged (Templates sample_bad_prefix)
       (sample_peer2\<lparr>slices := (slices sample_peer2)
          (''Prefixes'' \<mapsto> [''2001:db8:1::/48'', ''192.0.2.0/33''])\<rparr>))"
    using sample_bad_prefix_rejected(6) by (simp del: sample_bad_prefix_fields(1))
  note t = prefixes_partitioned[OF u d, THEN conjunct2, THEN conjunct2, THEN conjunct2, THEN conjunct1,
      rule_format, OF h]
  from t show n: "loaded (Load (env_of sample_bad_prefix) ''peers: ...'') = None" by blast
  have v: "Validate (env_of sample_bad_prefix) sample_bad_prefix = None" by simp
  from t v sample_bad_prefix_rejected(1,2,3,4) obtain msg where
    m: "Load (env_of sample_bad_prefix) ''peers: ...'' = Return None (Some msg)"
    by blast
  from prefixes_partitioned[OF u d, THEN conjunct2, THEN conjunct2, THEN conjunct2, THEN conjunct2,
      rule_format, of msg] v sample_bad_prefix_rejected(4,5) m
  obtain i n p ys x zs where
    i: "i < length (Peers sample_bad_prefix)" and a: "Peers sample_bad_prefix ! i = (n, Some p)" and
    el: "elements (merged (Templates sample_bad_prefix) p) ''Prefixes'' = ys @ x # zs" and
    ok: "list_all (\<lambda>y. ParseCIDR (env_of sample_bad_prefix) y \<noteq> None) ys" and
    bad: "ParseCIDR (env_of sample_bad_prefix) x = None" and
    msg: "msg = ''Invalid prefix: '' @ x"
    by blast
  from i have "i = 0" by simp
  with a have "p = sample_peer2\<lparr>slices := (slices sample_peer2)
          (''Prefixes'' \<mapsto> [''2001:db8:1::/48'', ''192.0.2.0/33''])\<rparr>"
    by simp
  with el sample_bad_prefix_rejected(7) have e2: "[''2001:db8:1::/48'', ''192.0.2.0/33''] = ys @ x # zs"
    by simp
  have "x = ''192.0.2.0/33''"
  proof (cases ys)
    case Nil
    with e2 have "x = ''2001:db8:1::/48''" by simp
    with bad show ?thesis by (simp add: sample_cidr_def)
  next
    case (Cons y ys')
    with e2 have "[''192.0.2.0/33''] = ys' @ x # zs" by simp
    then show ?thesis by (cases ys') simp_all
  qed
  with m msg show "Load (env_of sample_bad_prefix) ''peers: ...'' = Return None (Some ''Invalid prefix: 192.0.2.0/33'')"
    by simp
qed

lemma community_fields_cases:
  assumes "(what, src, std, lrg) \<in> set community_fields"
  shows "(what, src, std, lrg) = (''import'', ''ImportCommunities'', ''ImportStandardCommunities'', ''ImportLargeCommunities'') \<or>
     (what, src, std, lrg) = (''export'', ''ExportCommunities'', ''ExportStandardCommunities'', ''ExportLargeCommunities'') \<or>
     (what, src, std, lrg) = (''announce'', ''AnnounceCommunities'', ''AnnounceStandardCommunities'', ''AnnounceLargeCommunities'') \<or>
     (what, src, std, lrg) = (''remove'', ''RemoveCommunities'', ''RemoveStandardCommunities'', ''RemoveLargeCommunities'')"
  using assms unfolding community_fields_def by (simp only: list.set insert_iff empty_iff simp_thms)

lemma resolved_import:
  assumes "lists_ok e p'"
    and "slices p' ''ImportStandardCommunities'' = appended None (additions e p' ''ImportStandardCommunities'')"
    and "slices p' ''ImportLargeCommunities'' = appended None (additions e p' ''ImportLargeCommunities'')"
  shows "list_all (\<lambda>x. is_standard x \<or> is_large x) (elements p' ''ImportCommunities'') \<and>
     slices p' ''ImportStandardCommunities'' = appended None (filter is_standard (elements p' ''ImportCommunities'')) \<and>
     slices p' ''ImportLargeCommunities'' = appended None (map rewritten (filter is_large (elements p' ''ImportCommunities'')))"
proof -
  have "additions e p' ''ImportStandardCommunities'' = filter is_standard (elements p' ''ImportCommunities'')"
    by (simp add: additions_def)
  moreover have "additions e p' ''ImportLargeCommunities'' = map rewritten (filter is_large (elements p' ''ImportCommunities''))"
    by (simp add: additions_def)
  moreover from assms(1) have "list_all (\<lambda>x. is_standard x \<or> is_large x) (elements p' ''ImportCommunities'')"
    by (simp add: lists_ok_def)
  ultimately show ?thesis using assms(2,3) by simp
qed

lemma resolved_export:
  assumes "lists_ok e p'"
    and "slices p' ''ExportStandardCommunities'' = appended None (additions e p' ''ExportStandardCommunities'')"
    and "slices p' ''ExportLargeCommunities'' = appended None (additions e p' ''ExportLargeCommunities'')"
  shows "list_all (\<lambda>x. is_standard x \<or> is_large x) (elements p' ''ExportCommunities'') \<and>
     slices p' ''ExportStandardCommunities'' = appended None (filter is_standard (elements p' ''ExportCommunities'')) \<and>
     slices p' ''ExportLargeCommunities'' = appended None (map rewritten (filter is_large (elements p' ''ExportCommunities'')))"
proof -
  have "additions e p' ''ExportStandardCommunities'' = filter is_standard (elements p' ''ExportCommunities'')"
    by (simp add: additions_def)
  moreover have "additions e p' ''ExportLargeCommunities'' = map rewritten (filter is_large (elements p' ''ExportCommunities''))"
    by (simp add: additions_def)
  moreover from assms(1) have "list_all (\<lambda>x. is_standard x \<or> is_large x) (elements p' ''ExportCommunities'')"
    by (simp add: lists_ok_def)
  ultimately show ?thesis using assms(2,3) by simp
qed

lemma resolved_announce:
  assumes "lists_ok e p'"
    and "slices p' ''AnnounceStandardCommunities'' = appended None (additions e p' ''AnnounceStandardCommunities'')"
    and "slices p' ''AnnounceLargeCommunities'' = appended None (additions e p' ''AnnounceLargeCommunities'')"
  shows "list_all (\<lambda>x. is_standard x \<or> is_large x) (elements p' ''AnnounceCommunities'') \<and>
     slices p' ''AnnounceStandardCommunities'' = appended None (filter is_standard (elements p' ''AnnounceCommunities'')) \<and>
     slices p' ''AnnounceLargeCommunities'' = appended None (map rewritten (filter is_large (elements p' ''AnnounceCommunities'')))"
proof -
  have "additions e p' ''AnnounceStandardCommunities'' = filter is_standard (elements p' ''AnnounceCommunities'')"
    by (simp add: additions_def)
  moreover have "additions e p' ''AnnounceLargeCommunities'' = map rewritten (filter is_large (elements p' ''AnnounceCommunities''))"
    by (simp add: additions_def)
  moreover from assms(1) have "list_all (\<lambda>x. is_standard x \<or> is_large x) (elements p' ''AnnounceCommunities'')"
    by (simp add: lists_ok_def)
  ultimately show ?thesis using assms(2,3) by simp
qed

lemma resolved_remove:
  assumes "lists_ok e p'"
    and "slices p' ''RemoveStandardCommunities'' = appended None (additions e p' ''RemoveStandardCommunities'')"
    and "slices p' ''RemoveLargeCommunities'' = appended None (additions e p' ''RemoveLargeCommunities'')"
  shows "list_all (\<lambda>x. is_standard x \<or> is_large x) (elements p' ''RemoveCommunities'') \<and>
     slices p' ''RemoveStandardCommunities'' = appended None (filter is_standard (elements p' ''RemoveCommunities'')) \<and>
     slices p' ''RemoveLargeCommunities'' = appended None (map rewritten (filter is_large (elements p' ''RemoveCommunities'')))"
proof -
  have "additions e p' ''RemoveStandardCommunities'' = filter is_standard (elements p' ''RemoveCommunities'')"
    by (simp add: additions_def)
  moreover have "additions e p' ''RemoveLargeCommunities'' = map rewritten (filter is_large (elements p' ''RemoveCommunities''))"
    by (simp add: additions_def)
  moreover from assms(1) have "list_all (\<lambda>x. is_standard x \<or> is_large x) (elements p' ''RemoveCommunities'')"
    by (simp add: lists_ok_def)
  ultimately show ?thesis using assms(2,3) by simp
qed

lemma resolved_communities:
  assumes "lists_ok e p'"
    and "\<And>fld. fld \<in> set [''PrefixSet4'', ''PrefixSet6'',
      ''ImportStandardCommunities'', ''ImportLargeCommunities'', ''ExportStandardCommunities'',
      ''ExportLargeCommunities'', ''AnnounceStandardCommunities'', ''AnnounceLargeCommunities'',
      ''RemoveStandardCommunities'', ''RemoveLargeCommunities''] \<Longrightarrow>
      slices p' fld = appended None (additions e p' fld)"
    and "(what, src, std, lrg) \<in> set community_fields"
  shows "list_all (\<lambda>x. is_standard x \<or> is_large x) (elements p' src) \<and>
     slices p' std = appended None (filter is_standard (elements p' src)) \<and>
     slices p' lrg = appended None (map rewritten (filter is_large (elements p' src)))"
proof -
  have i1: "slices p' ''ImportStandardCommunities'' = appended None (additions e p' ''ImportStandardCommunities'')"
    by (rule assms(2)) simp
  have i2: "slices p' ''ImportLargeCommunities'' = appended None (additions e p' ''ImportLargeCommunities'')"
    by (rule assms(2)) simp
  have e1: "slices p' ''ExportStandardCommunities'' = appended None (additions e p' ''ExportStandardCommunities'')"
    by (rule assms(2)) simp
  have e2: "slices p' ''ExportLargeCommunities'' = appended None (additions e p' ''ExportLargeCommunities'')"
    by (rule assms(2)) simp
  have a1: "slices p' ''AnnounceStandardCommunities'' = appended None (additions e p' ''AnnounceStandardCommunities'')"
    by (rule assms(2)) simp
  have a2: "slices p' ''AnnounceLargeCommunities'' = appended None (additions e p' ''AnnounceLargeCommunities'')"
    by (rule assms(2)) simp
  have r1: "slices p' ''RemoveStandardCommunities'' = appended None (additions e p' ''RemoveStandardCommunities'')"
    by (rule assms(2)) simp
  have r2: "slices p' ''RemoveLargeCommunities'' = appended None (additions e p' ''RemoveLargeCommunities'')"
    by (rule assms(2)) simp
  from community_fields_cases[OF assms(3)] show ?thesis
  proof (elim disjE)
    assume "(what, src, std, lrg) = (''import'', ''ImportCommunities'', ''ImportStandardCommunities'', ''ImportLargeCommunities'')"
    then have s: "src = ''ImportCommunities''" "std = ''ImportStandardCommunities''" "lrg = ''ImportLargeCommunities''"
      by (simp_all only: prod.inject)
    show ?thesis unfolding s by (rule resolved_import[OF assms(1) i1 i2])
  next
    assume "(what, src, std, lrg) = (''export'', ''ExportCommunities'', ''ExportStandardCommunities'', ''ExportLargeCommunities'')"
    then have s: "src = ''ExportCommunities''" "std = ''ExportStandardCommunities''" "lrg = ''ExportLargeCommunities''"
      by (simp_all only: prod.inject)
    show ?thesis unfolding s by (rule resolved_export[OF assms(1) e1 e2])
  next
    assume "(what, src, std, lrg) = (''announce'', ''AnnounceCommunities'', ''AnnounceStandardCommunities'', ''AnnounceLargeCommunities'')"
    then have s: "src = ''AnnounceCommunities''" "std = ''AnnounceStandardCommunities''" "lrg = ''AnnounceLargeCommunities''"
      by (simp_all only: prod.inject)
    show ?thesis unfolding s by (rule resolved_announce[OF assms(1) a1 a2])
  next
    assume "(what, src, std, lrg) = (''remove'', ''RemoveCommunities'', ''RemoveStandardCommunities'', ''RemoveLargeCommunities'')"
    then have s: "src = ''RemoveCommunities''" "std = ''RemoveStandardCommunities''" "lrg = ''RemoveLargeCommunities''"
      by (simp_all only: prod.inject)
    show ?thesis unfolding s by (rule resolved_remove[OF assms(1) r1 r2])
  qed
qed

lemma forms_exclusive: "\<not> (is_standard x \<and> is_large x)"
  by (simp add: is_standard_def is_large_def)

lemma rewritten_no_colon: "CHR '':'' \<notin> set (rewritten x)"
  by (auto simp: rewritten_def ReplaceAll_def)

text \<open>
  Claim C5. In a configuration that was loaded, for every peer and each of its four
  community lists (import, export, announce, remove), read after the template of the peer
  was merged: every token of the list is classified \<open>standard\<close> or \<open>large\<close>; the list of
  standard communities of that name holds the tokens classified \<open>standard\<close>, unchanged, in
  the order of the input; the list of large communities holds the tokens classified \<open>large\<close>,
  in the order of the input, each with every colon replaced by a comma. The two classes
  are the two forms of the classifier and exclude each other. A token that is neither keeps
  \<^verbatim>\<open>Load\<close> from returning a configuration; when the steps before the second loop pass,
  \<^verbatim>\<open>Load\<close> returns an error, and an error that \<^verbatim>\<open>Load\<close> returns, with the prefixes of all
  peers in order, names the list and a token of a peer that is neither, the first such of
  its list.
\<close>

theorem communities_categorized:
  assumes "Unmarshal e blob = Inr c" and "decoded c"
  shows "(\<forall>c'. loaded (Load e blob) = Some c' \<longrightarrow>
            (\<forall>i n p. i < length (Peers c) \<and> Peers c ! i = (n, Some p) \<longrightarrow>
               (\<exists>p'. Peers c' ! i = (n, Some p') \<and>
                  (\<forall>(what, src, std, lrg) \<in> set community_fields.
                     elements p' src = elements (merged (Templates c) p) src \<and>
                     list_all (\<lambda>x. is_standard x \<or> is_large x) (elements p' src) \<and>
                     slices p' std = appended None (filter is_standard (elements p' src)) \<and>
                     slices p' lrg = appended None (map rewritten (filter is_large (elements p' src))))))) \<and>
     (\<forall>x. is_standard x = standard_form x \<and> is_large x = large_form x \<and>
          \<not> (is_standard x \<and> is_large x) \<and>
          rewritten x = map (\<lambda>ch. if ch = CHR '':'' then CHR '','' else ch) x \<and>
          CHR '':'' \<notin> set (rewritten x)) \<and>
     (\<forall>i n p. i < length (Peers c) \<and> Peers c ! i = (n, Some p) \<and>
            \<not> communities_ok (merged (Templates c) p) \<longrightarrow>
            loaded (Load e blob) = None \<and>
            (Validate e c = None \<and> check_templates (Templates c) = Ok () \<and> hostname_ok e c \<and>
             list_all (entry_passes (Templates c)) (Peers c) \<and> globals_ok e c \<longrightarrow>
             (\<exists>msg. Load e blob = Return None (Some msg)))) \<and>
     (\<forall>msg. Validate e c = None \<and> globals_ok e c \<and>
            list_all (\<lambda>a. case snd a of None \<Rightarrow> True | Some p \<Rightarrow> prefixes_ok e (merged (Templates c) p)) (Peers c) \<and>
            Load e blob = Return None (Some msg) \<longrightarrow>
            (\<exists>i n p what src std lrg ys x zs. i < length (Peers c) \<and> Peers c ! i = (n, Some p) \<and>
               (what, src, std, lrg) \<in> set community_fields \<and>
               elements (merged (Templates c) p) src = ys @ x # zs \<and>
               list_all (\<lambda>y. is_standard y \<or> is_large y) ys \<and>
               \<not> is_standard x \<and> \<not> is_large x \<and>
               msg = ''Invalid '' @ what @ '' community: '' @ x))"
proof (intro conjI)
  show "\<forall>c'. loaded (Load e blob) = Some c' \<longrightarrow>
            (\<forall>i n p. i < length (Peers c) \<and> Peers c ! i = (n, Some p) \<longrightarrow>
               (\<exists>p'. Peers c' ! i = (n, Some p') \<and>
                  (\<forall>(what, src, std, lrg) \<in> set community_fields.
                     elements p' src = elements (merged (Templates c) p) src \<and>
                     list_all (\<lambda>x. is_standard x \<or> is_large x) (elements p' src) \<and>
                     slices p' std = appended None (filter is_standard (elements p' src)) \<and>
                     slices p' lrg = appended None (map rewritten (filter is_large (elements p' src))))))"
  proof (intro allI impI)
    fix c' i n p
    assume l: "loaded (Load e blob) = Some c'"
      and h: "i < length (Peers c) \<and> Peers c ! i = (n, Some p)"
    then have i: "i < length (Peers c)" and a: "Peers c ! i = (n, Some p)" by simp_all
    from resolved_peer_lists[OF assms l i a] obtain p' where
      p1: "Peers c' ! i = (n, Some p')" and
      p2: "\<And>s. s \<in> set [''Prefixes'', ''ImportCommunities'', ''ExportCommunities'',
          ''AnnounceCommunities'', ''RemoveCommunities''] \<Longrightarrow>
        elements p' s = elements (merged (Templates c) p) s" and
      p3: "lists_ok e p'" and
      p4: "\<And>fld. fld \<in> set [''PrefixSet4'', ''PrefixSet6'',
        ''ImportStandardCommunities'', ''ImportLargeCommunities'', ''ExportStandardCommunities'',
        ''ExportLargeCommunities'', ''AnnounceStandardCommunities'', ''AnnounceLargeCommunities'',
        ''RemoveStandardCommunities'', ''RemoveLargeCommunities''] \<Longrightarrow>
        slices p' fld = appended None (additions e p' fld)"
      by blast
    have "\<forall>(what, src, std, lrg) \<in> set community_fields.
                     elements p' src = elements (merged (Templates c) p) src \<and>
                     list_all (\<lambda>x. is_standard x \<or> is_large x) (elements p' src) \<and>
                     slices p' std = appended None (filter is_standard (elements p' src)) \<and>
                     slices p' lrg = appended None (map rewritten (filter is_large (elements p' src)))"
    proof (intro ballI, clarify)
      fix what src std lrg
      assume m: "(what, src, std, lrg) \<in> set community_fields"
      from community_sources(1)[OF m] have "elements p' src = elements (merged (Templates c) p) src"
        by (intro p2) simp
      with resolved_communities[OF p3 p4 m]
      show "elements p' src = elements (merged (Templates c) p) src \<and>
                     list_all (\<lambda>x. is_standard x \<or> is_large x) (elements p' src) \<and>
                     slices p' std = appended None (filter is_standard (elements p' src)) \<and>
                     slices p' lrg = appended None (map rewritten (filter is_large (elements p' src)))"
        by simp
    qed
    with p1 show "\<exists>p'. Peers c' ! i = (n, Some p') \<and>
                  (\<forall>(what, src, std, lrg) \<in> set community_fields.
                     elements p' src = elements (merged (Templates c) p) src \<and>
                     list_all (\<lambda>x. is_standard x \<or> is_large x) (elements p' src) \<and>
                     slices p' std = appended None (filter is_standard (elements p' src)) \<and>
                     slices p' lrg = appended None (map rewritten (filter is_large (elements p' src))))"
      by blast
  qed
  show "\<forall>x. is_standard x = standard_form x \<and> is_large x = large_form x \<and>
          \<not> (is_standard x \<and> is_large x) \<and>
          rewritten x = map (\<lambda>ch. if ch = CHR '':'' then CHR '','' else ch) x \<and>
          CHR '':'' \<notin> set (rewritten x)"
    using forms_exclusive rewritten_no_colon
    by (simp add: is_standard_def is_large_def cat_standard cat_large rewritten_def ReplaceAll_def)
  show "\<forall>i n p. i < length (Peers c) \<and> Peers c ! i = (n, Some p) \<and>
            \<not> communities_ok (merged (Templates c) p) \<longrightarrow>
            loaded (Load e blob) = None \<and>
            (Validate e c = None \<and> check_templates (Templates c) = Ok () \<and> hostname_ok e c \<and>
             list_all (entry_passes (Templates c)) (Peers c) \<and> globals_ok e c \<longrightarrow>
             (\<exists>msg. Load e blob = Return None (Some msg)))"
  proof (intro allI impI)
    fix i n p
    assume h: "i < length (Peers c) \<and> Peers c ! i = (n, Some p) \<and> \<not> communities_ok (merged (Templates c) p)"
    then have i: "i < length (Peers c)" and a: "Peers c ! i = (n, Some p)"
      and b: "\<not> lists_ok e (merged (Templates c) p)"
      by (simp_all add: lists_ok_iff)
    from Load_fails[OF assms(1) i a b] Load_fails_Err[OF assms(1) _ _ _ _ _ i a b]
    show "loaded (Load e blob) = None \<and>
            (Validate e c = None \<and> check_templates (Templates c) = Ok () \<and> hostname_ok e c \<and>
             list_all (entry_passes (Templates c)) (Peers c) \<and> globals_ok e c \<longrightarrow>
             (\<exists>msg. Load e blob = Return None (Some msg)))"
      by blast
  qed
  show "\<forall>msg. Validate e c = None \<and> globals_ok e c \<and>
            list_all (\<lambda>a. case snd a of None \<Rightarrow> True | Some p \<Rightarrow> prefixes_ok e (merged (Templates c) p)) (Peers c) \<and>
            Load e blob = Return None (Some msg) \<longrightarrow>
            (\<exists>i n p what src std lrg ys x zs. i < length (Peers c) \<and> Peers c ! i = (n, Some p) \<and>
               (what, src, std, lrg) \<in> set community_fields \<and>
               elements (merged (Templates c) p) src = ys @ x # zs \<and>
               list_all (\<lambda>y. is_standard y \<or> is_large y) ys \<and>
               \<not> is_standard x \<and> \<not> is_large x \<and>
               msg = ''Invalid '' @ what @ '' community: '' @ x)"
  proof (intro allI impI)
    fix msg
    assume h: "Validate e c = None \<and> globals_ok e c \<and>
            list_all (\<lambda>a. case snd a of None \<Rightarrow> True | Some p \<Rightarrow> prefixes_ok e (merged (Templates c) p)) (Peers c) \<and>
            Load e blob = Return None (Some msg)"
    then have v: "Validate e c = None" and g: "globals_ok e c"
      and po: "list_all (\<lambda>a. case snd a of None \<Rightarrow> True | Some p \<Rightarrow> prefixes_ok e (merged (Templates c) p)) (Peers c)"
      and l: "Load e blob = Return None (Some msg)"
      by simp_all
    from Load_Err_peer[OF assms(1) v g l] obtain i n p where
      i: "i < length (Peers c)" and a: "Peers c ! i = (n, Some p)" and
      d: "(\<exists>ys x zs. elements (merged (Templates c) p) ''Prefixes'' = ys @ x # zs \<and>
         list_all (\<lambda>y. ParseCIDR e y \<noteq> None) ys \<and> ParseCIDR e x = None \<and>
         msg = ''Invalid prefix: '' @ x) \<or>
      (\<exists>what src std lrg ys x zs. (what, src, std, lrg) \<in> set community_fields \<and>
         elements (merged (Templates c) p) src = ys @ x # zs \<and>
         list_all (\<lambda>y. is_standard y \<or> is_large y) ys \<and>
         \<not> is_standard x \<and> \<not> is_large x \<and> msg = ''Invalid '' @ what @ '' community: '' @ x)"
      by blast
    from po i have "case snd (Peers c ! i) of None \<Rightarrow> True | Some p \<Rightarrow> prefixes_ok e (merged (Templates c) p)"
      unfolding list_all_length by blast
    with a have ok: "list_all (\<lambda>x. ParseCIDR e x \<noteq> None) (elements (merged (Templates c) p) ''Prefixes'')"
      by (simp add: prefixes_ok_def)
    from d show "\<exists>i n p what src std lrg ys x zs. i < length (Peers c) \<and> Peers c ! i = (n, Some p) \<and>
               (what, src, std, lrg) \<in> set community_fields \<and>
               elements (merged (Templates c) p) src = ys @ x # zs \<and>
               list_all (\<lambda>y. is_standard y \<or> is_large y) ys \<and>
               \<not> is_standard x \<and> \<not> is_large x \<and>
               msg = ''Invalid '' @ what @ '' community: '' @ x"
    proof
      assume "\<exists>ys x zs. elements (merged (Templates c) p) ''Prefixes'' = ys @ x # zs \<and>
         list_all (\<lambda>y. ParseCIDR e y \<noteq> None) ys \<and> ParseCIDR e x = None \<and>
         msg = ''Invalid prefix: '' @ x"
      then obtain ys x zs where
        el: "elements (merged (Templates c) p) ''Prefixes'' = ys @ x # zs" and bad: "ParseCIDR e x = None"
        by blast
      from ok el have "ParseCIDR e x \<noteq> None" by simp
      with bad show ?thesis by simp
    next
      assume "\<exists>what src std lrg ys x zs. (what, src, std, lrg) \<in> set community_fields \<and>
         elements (merged (Templates c) p) src = ys @ x # zs \<and>
         list_all (\<lambda>y. is_standard y \<or> is_large y) ys \<and>
         \<not> is_standard x \<and> \<not> is_large x \<and> msg = ''Invalid '' @ what @ '' community: '' @ x"
      with i a show ?thesis by blast
    qed
  qed
qed

lemma sample_peer1_communities:
  "elements (merged (Templates sample_config) sample_peer1) ''ImportCommunities'' =
     [''100,200'', ''100:200:300'', ''65535,0'']"
  "elements (merged (Templates sample_config) sample_peer1) ''ExportCommunities'' = []"
proof -
  have m: "slices (merged (Templates sample_config) sample_peer1) fld =
      (if fld \<noteq> ''Template'' \<and> slices sample_peer1 fld = None \<and> in_schema KSlice fld
       then slices sample_template fld else slices sample_peer1 fld)" for fld
    by (simp add: slices_merged_schema sample_peer1_template)
  show "elements (merged (Templates sample_config) sample_peer1) ''ImportCommunities'' =
     [''100,200'', ''100:200:300'', ''65535,0'']"
    unfolding elements_def m
    by (simp add: source_fields sample_peer1_def sample_template_def no_peer_def)
  show "elements (merged (Templates sample_config) sample_peer1) ''ExportCommunities'' = []"
    unfolding elements_def m
    by (simp add: source_fields sample_peer1_def sample_template_def no_peer_def)
qed

lemma sample_bad_community_lists:
  "decoded sample_bad_community"
  "globals_ok (env_of sample_bad_community) sample_bad_community"
  "list_all (\<lambda>a. case snd a of None \<Rightarrow> True
       | Some p \<Rightarrow> prefixes_ok (env_of sample_bad_community) (merged (Templates sample_bad_community) p))
     (Peers sample_bad_community)"
  "\<not> communities_ok (merged (Templates sample_bad_community)
       (sample_peer2\<lparr>slices := (slices sample_peer2)
          (''ExportCommunities'' \<mapsto> [''65000,100'', ''65000:100''])\<rparr>))"
  "elements (merged (Templates sample_bad_community)
       (sample_peer2\<lparr>slices := (slices sample_peer2)
          (''ExportCommunities'' \<mapsto> [''65000,100'', ''65000:100''])\<rparr>)) src =
     (if src = ''ExportCommunities'' then [''65000,100'', ''65000:100'']
      else if src = ''NeighborIPs'' then [''192.0.2.1''] else [])"
proof -
  show "decoded sample_bad_community"
    by (simp add: decoded_def internal_unset_def IsNil_def field_value_simps peer_fields_def
      sample_peer2_def sample_template_def no_peer_def sample_bad_community_def sample_config_def no_config_def)
  show "globals_ok (env_of sample_bad_community) sample_bad_community"
    using sample_bad_community_rejected(4,5) by (simp add: globals_ok_iff)
  have m: "merged (Templates sample_bad_community) (sample_peer2\<lparr>slices := (slices sample_peer2)
        (''ExportCommunities'' \<mapsto> [''65000,100'', ''65000:100''])\<rparr>) =
     sample_peer2\<lparr>slices := (slices sample_peer2)(''ExportCommunities'' \<mapsto> [''65000,100'', ''65000:100''])\<rparr>"
    using sample_bad_community_merged by (simp del: sample_config_fields)
  show "list_all (\<lambda>a. case snd a of None \<Rightarrow> True
       | Some p \<Rightarrow> prefixes_ok (env_of sample_bad_community) (merged (Templates sample_bad_community) p))
     (Peers sample_bad_community)"
    using m
    by (simp add: prefixes_ok_def elements_def sample_peer2_def no_peer_def
        del: sample_bad_community_fields(1))
  show "\<not> communities_ok (merged (Templates sample_bad_community)
       (sample_peer2\<lparr>slices := (slices sample_peer2)
          (''ExportCommunities'' \<mapsto> [''65000,100'', ''65000:100''])\<rparr>))"
    unfolding m
    by (simp add: communities_ok_def community_fields_def elements_def is_standard_def is_large_def
        rejected_communities)
  show "elements (merged (Templates sample_bad_community)
       (sample_peer2\<lparr>slices := (slices sample_peer2)
          (''ExportCommunities'' \<mapsto> [''65000,100'', ''65000:100''])\<rparr>)) src =
     (if src = ''ExportCommunities'' then [''65000,100'', ''65000:100'']
      else if src = ''NeighborIPs'' then [''192.0.2.1''] else [])"
    unfolding m by (simp add: elements_def sample_peer2_def no_peer_def)
qed

theorem communities_categorized_witness:
  "(\<exists>c' p1. loaded (Load (env_of sample_config) ''peers: ...'') = Some c' \<and>
      Peers c' ! 0 = (''Peer1'', Some p1) \<and>
      slices p1 ''ImportStandardCommunities'' = Some [''100,200'', ''65535,0''] \<and>
      slices p1 ''ImportLargeCommunities'' = Some [''100,200,300''] \<and>
      slices p1 ''ExportStandardCommunities'' = None \<and> slices p1 ''ExportLargeCommunities'' = None) \<and>
   loaded (Load (env_of sample_bad_community) ''peers: ...'') = None \<and>
   Load (env_of sample_bad_community) ''peers: ...'' =
     Return None (Some ''Invalid export community: 65000:100'')"
proof (intro conjI)
  have u: "Unmarshal (env_of sample_config) ''peers: ...'' = Inr sample_config" by simp
  from sample_loads obtain c' where l: "loaded (Load (env_of sample_config) ''peers: ...'') = Some c'"
    by blast
  have i0: "0 < length (Peers sample_config) \<and> Peers sample_config ! 0 = (''Peer1'', Some sample_peer1)"
    by simp
  from communities_categorized[OF u decoded_sample, THEN conjunct1, rule_format, OF l i0]
  obtain p1 where p: "Peers c' ! 0 = (''Peer1'', Some p1)" and
    b: "\<forall>(what, src, std, lrg) \<in> set community_fields.
          elements p1 src = elements (merged (Templates sample_config) sample_peer1) src \<and>
          list_all (\<lambda>x. is_standard x \<or> is_large x) (elements p1 src) \<and>
          slices p1 std = appended None (filter is_standard (elements p1 src)) \<and>
          slices p1 lrg = appended None (map rewritten (filter is_large (elements p1 src)))"
    by blast
  have m1: "(''import'', ''ImportCommunities'', ''ImportStandardCommunities'', ''ImportLargeCommunities'')
      \<in> set community_fields"
    by (simp add: community_fields_def)
  have m2: "(''export'', ''ExportCommunities'', ''ExportStandardCommunities'', ''ExportLargeCommunities'')
      \<in> set community_fields"
    by (simp add: community_fields_def)
  from bspec[OF b m1] have r1:
    "elements p1 ''ImportCommunities'' = elements (merged (Templates sample_config) sample_peer1) ''ImportCommunities''"
    "slices p1 ''ImportStandardCommunities'' = appended None (filter is_standard (elements p1 ''ImportCommunities''))"
    "slices p1 ''ImportLargeCommunities'' = appended None (map rewritten (filter is_large (elements p1 ''ImportCommunities'')))"
    by (simp_all only: prod.case)
  from bspec[OF b m2] have r2:
    "elements p1 ''ExportCommunities'' = elements (merged (Templates sample_config) sample_peer1) ''ExportCommunities''"
    "slices p1 ''ExportStandardCommunities'' = appended None (filter is_standard (elements p1 ''ExportCommunities''))"
    "slices p1 ''ExportLargeCommunities'' = appended None (map rewritten (filter is_large (elements p1 ''ExportCommunities'')))"
    by (simp_all only: prod.case)
  have "slices p1 ''ImportStandardCommunities'' = Some [''100,200'', ''65535,0''] \<and>
      slices p1 ''ImportLargeCommunities'' = Some [''100,200,300'']"
    unfolding r1(2,3) r1(1) sample_peer1_communities
    by (simp add: appended_def is_standard_def is_large_def sample_communities rewritten_def ReplaceAll_def)
  moreover have "slices p1 ''ExportStandardCommunities'' = None \<and> slices p1 ''ExportLargeCommunities'' = None"
    unfolding r2(2,3) r2(1) sample_peer1_communities
    by (simp add: appended_def)
  ultimately show "\<exists>c' p1. loaded (Load (env_of sample_config) ''peers: ...'') = Some c' \<and>
      Peers c' ! 0 = (''Peer1'', Some p1) \<and>
      slices p1 ''ImportStandardCommunities'' = Some [''100,200'', ''65535,0''] \<and>
      slices p1 ''ImportLargeCommunities'' = Some [''100,200,300''] \<and>
      slices p1 ''ExportStandardCommunities'' = None \<and> slices p1 ''ExportLargeCommunities'' = None"
    using l p by blast
next
  have u: "Unmarshal (env_of sample_bad_community) ''peers: ...'' = Inr sample_bad_community" by simp
  note d = sample_bad_community_lists(1)
  have h: "0 < length (Peers sample_bad_community) \<and>
      Peers sample_bad_community ! 0 = (''Peer2'', Some (sample_peer2\<lparr>slices := (slices sample_peer2)
          (''ExportCommunities'' \<mapsto> [''65000,100'', ''65000:100''])\<rparr>)) \<and>
      \<not> communities_ok (merged (Templates sample_bad_community)
       (sample_peer2\<lparr>slices := (slices sample_peer2)
          (''ExportCommunities'' \<mapsto> [''65000,100'', ''65000:100''])\<rparr>))"
    using sample_bad_community_lists(4) by (simp del: sample_bad_community_fields(1))
  note t = communities_categorized[OF u d, THEN conjunct2, THEN conjunct2, THEN conjunct1, rule_format, OF h]
  from t show "loaded (Load (env_of sample_bad_community) ''peers: ...'') = None" by blast
  have v: "Validate (env_of sample_bad_community) sample_bad_community = None" by simp
  from t v sample_bad_community_rejected(1,2,3) sample_bad_community_lists(2) obtain msg where
    m: "Load (env_of sample_bad_community) ''peers: ...'' = Return None (Some msg)"
    by blast
  from communities_categorized[OF u d, THEN conjunct2, THEN conjunct2, THEN conjunct2, rule_format, of msg]
    v sample_bad_community_lists(2,3) m
  obtain i n p what src std lrg ys x zs where
    i: "i < length (Peers sample_bad_community)" and a: "Peers sample_bad_community ! i = (n, Some p)" and
    mem: "(what, src, std, lrg) \<in> set community_fields" and
    el: "elements (merged (Templates sample_bad_community) p) src = ys @ x # zs" and
    bad: "\<not> is_standard x" and
    msg: "msg = ''Invalid '' @ what @ '' community: '' @ x"
    by blast
  from i have "i = 0" by simp
  with a have "p = sample_peer2\<lparr>slices := (slices sample_peer2)
          (''ExportCommunities'' \<mapsto> [''65000,100'', ''65000:100''])\<rparr>"
    by simp
  with el sample_bad_community_lists(5)[of src] have e2:
    "(if src = ''ExportCommunities'' then [''65000,100'', ''65000:100'']
      else if src = ''NeighborIPs'' then [''192.0.2.1''] else []) = ys @ x # zs"
    by simp
  from community_fields_cases[OF mem] have "what = ''export'' \<and> src = ''ExportCommunities''"
  proof (elim disjE)
    assume "(what, src, std, lrg) = (''import'', ''ImportCommunities'', ''ImportStandardCommunities'', ''ImportLargeCommunities'')"
    then have "src = ''ImportCommunities''" by (simp only: prod.inject)
    with e2 show ?thesis by simp
  next
    assume "(what, src, std, lrg) = (''export'', ''ExportCommunities'', ''ExportStandardCommunities'', ''ExportLargeCommunities'')"
    then show ?thesis by (simp only: prod.inject)
  next
    assume "(what, src, std, lrg) = (''announce'', ''AnnounceCommunities'', ''AnnounceStandardCommunities'', ''AnnounceLargeCommunities'')"
    then have "src = ''AnnounceCommunities''" by (simp only: prod.inject)
    with e2 show ?thesis by simp
  next
    assume "(what, src, std, lrg) = (''remove'', ''RemoveCommunities'', ''RemoveStandardCommunities'', ''RemoveLargeCommunities'')"
    then have "src = ''RemoveCommunities''" by (simp only: prod.inject)
    with e2 show ?thesis by simp
  qed
  then have w: "what = ''export''" and s: "src = ''ExportCommunities''" by simp_all
  from e2 s have e3: "[''65000,100'', ''65000:100''] = ys @ x # zs" by simp
  have "x = ''65000:100''"
  proof (cases ys)
    case Nil
    with e3 have "x = ''65000,100''" by simp
    with bad show ?thesis by (simp add: is_standard_def rejected_communities)
  next
    case (Cons y ys')
    with e3 have "[''65000:100''] = ys' @ x # zs" by simp
    then show ?thesis by (cases ys') simp_all
  qed
  with m msg w show "Load (env_of sample_bad_community) ''peers: ...'' =
     Return None (Some ''Invalid export community: 65000:100'')"
    by simp
qed

subsection \<open>The templates of a loaded configuration\<close>

lemma loaded_templates:
  assumes "Unmarshal e blob = Inr c" and "loaded (Load e blob) = Some c'"
  shows "Templates c' = written_templates (length (Prefixes c) < 1) (Peers c) (Templates c)"
proof -
  from assms have "resolve e c = Ok c'" by (auto simp: loaded_iff)
  from resolve_Ok[OF this] show ?thesis by blast
qed

lemma written_templates_origin: "written_templates False ps ts = ts"
  by (induction ts) (auto simp: written_templates_def split: option.splits)

lemma sample_written_templates:
  "written_templates True (Peers sample_config) (Templates sample_config) =
     [(''upstream'', Some (sample_template\<lparr>bools := (bools sample_template)(''AnnounceOriginated'' \<mapsto> False)\<rparr>))]"
  "written_templates True (Peers sample_no_origin) (Templates sample_config) = Templates sample_config"
  by (simp_all add: written_templates_def takes_originated_def sample_no_origin_def sample_peer1_def
      sample_peer2_def sample_template_def no_peer_def)


end
